theory Spec2Isabelle
  imports Complex_Main
begin

section \<open>Errors\<close>

text \<open>
  The notebooks are Python on top of PyTorch. Every exception the modelled code can raise
  is a value of \<open>error\<close>; a computation that may raise returns \<open>error + 'a\<close>, with
  \<open>Inl\<close> for the exception, and \<open>ebind\<close> sequences two such computations the way
  consecutive Python statements do: the first exception wins.
\<close>

datatype error = ZeroDivisionError | AssertionError | ValueError | IndexError | RuntimeError

definition ebind :: "error + 'a \<Rightarrow> ('a \<Rightarrow> error + 'b) \<Rightarrow> error + 'b" where
  "ebind m f = (case m of Inl e \<Rightarrow> Inl e | Inr v \<Rightarrow> f v)"

section \<open>Tensors\<close>

text \<open>
  A (contiguous) tensor is its shape and its elements in row-major order. Entries of
  floating-point tensors are modelled as real numbers and arithmetic on them as exact,
  with two exceptions, each introduced where it matters: the conversion of integers to
  float32, which rounds, and the overflow of float32 to infinities and NaN in the
  attention weights.
\<close>

record 'a tensor =
  shape :: "nat list"
  data :: "'a list"

text \<open>All multi-indices of a shape, in row-major order, and the flat position of one.\<close>

fun indices :: "nat list \<Rightarrow> nat list list" where
  "indices [] = [[]]"
| "indices (n # ns) = concat (map (\<lambda>i. map ((#) i) (indices ns)) [0..<n])"

fun offset :: "nat list \<Rightarrow> nat list \<Rightarrow> nat" where
  "offset (n # ns) (i # is) = i * prod_list ns + offset ns is"
| "offset _ _ = 0"

definition valid_index :: "nat list \<Rightarrow> nat list \<Rightarrow> bool" where
  "valid_index sh idx = list_all2 (<) idx sh"

definition tabulate :: "nat list \<Rightarrow> (nat list \<Rightarrow> 'a) \<Rightarrow> 'a tensor" where
  "tabulate sh f = \<lparr>shape = sh, data = map f (indices sh)\<rparr>"

definition tget :: "'a tensor \<Rightarrow> nat list \<Rightarrow> 'a" where
  "tget t idx = data t ! offset (shape t) idx"

definition wf :: "'a tensor \<Rightarrow> bool" where
  "wf t = (length (data t) = prod_list (shape t))"

definition tmap :: "('a \<Rightarrow> 'b) \<Rightarrow> 'a tensor \<Rightarrow> 'b tensor" where
  "tmap f t = \<lparr>shape = shape t, data = map f (data t)\<rparr>"

subsection \<open>Broadcasting\<close>

text \<open>
  PyTorch aligns two shapes from the right; two sizes are compatible when they are equal
  or one of them is 1, and a missing leading dimension counts as 1. A size-1 dimension
  is stretched, also to size 0.
\<close>

definition bdim :: "nat \<Rightarrow> nat \<Rightarrow> nat option" where
  "bdim x y = (if x = y \<or> y = 1 then Some x else if x = 1 then Some y else None)"

fun bshape_rev :: "nat list \<Rightarrow> nat list \<Rightarrow> nat list option" where
  "bshape_rev [] ys = Some ys"
| "bshape_rev xs [] = Some xs"
| "bshape_rev (x # xs) (y # ys) =
     (case bdim x y of
        None \<Rightarrow> None
      | Some d \<Rightarrow> map_option ((#) d) (bshape_rev xs ys))"

definition broadcast_shapes :: "nat list \<Rightarrow> nat list \<Rightarrow> nat list option" where
  "broadcast_shapes a b = map_option rev (bshape_rev (rev a) (rev b))"

text \<open>The index into an operand of shape \<open>sh\<close> that an index of the broadcast result reads.\<close>

definition bindex :: "nat list \<Rightarrow> nat list \<Rightarrow> nat list" where
  "bindex sh idx = map2 (\<lambda>n i. if n = 1 then 0 else i) sh (drop (length idx - length sh) idx)"

definition broadcast_op ::
  "('a \<Rightarrow> 'b \<Rightarrow> 'c) \<Rightarrow> 'a tensor \<Rightarrow> 'b tensor \<Rightarrow> error + 'c tensor" where
  "broadcast_op f a b =
     (case broadcast_shapes (shape a) (shape b) of
        None \<Rightarrow> Inl RuntimeError
      | Some sh \<Rightarrow>
          Inr (tabulate sh (\<lambda>idx. f (tget a (bindex (shape a) idx)) (tget b (bindex (shape b) idx)))))"

definition tadd :: "real tensor \<Rightarrow> real tensor \<Rightarrow> error + real tensor" where
  "tadd = broadcast_op (+)"

definition tmul :: "real tensor \<Rightarrow> real tensor \<Rightarrow> error + real tensor" where
  "tmul = broadcast_op (*)"

subsection \<open>Creation and slicing\<close>

definition zeros :: "nat list \<Rightarrow> real tensor" where
  "zeros sh = tabulate sh (\<lambda>_. 0)"

text \<open>
  \<open>torch.arange(start, stop, step)\<close> for a positive step: the integers start,
  start + step, ... below stop, as a tensor of 64-bit integers.
\<close>

definition arange :: "nat \<Rightarrow> nat \<Rightarrow> nat \<Rightarrow> nat tensor" where
  "arange start stop step =
     tabulate [(stop - start + step - 1) div step] (\<lambda>idx. start + hd idx * step)"

definition unsqueeze :: "nat \<Rightarrow> 'a tensor \<Rightarrow> 'a tensor" where
  "unsqueeze d t = t\<lparr>shape := take d (shape t) @ [1] @ drop d (shape t)\<rparr>"

text \<open>
  \<open>t[:n, :]\<close> on a matrix: the first \<open>n\<close> rows, and all of them when there are
  fewer than \<open>n\<close> (Python slices clamp, they never raise).
\<close>

definition slice_rows :: "nat \<Rightarrow> 'a tensor \<Rightarrow> error + 'a tensor" where
  "slice_rows n t =
     (case shape t of
        [r, c] \<Rightarrow> Inr (tabulate [min n r, c] (tget t))
      | _ \<Rightarrow> Inl IndexError)"

text \<open>
  \<open>t[:, start::step] = v\<close> on a matrix (step positive). The selected columns are
  \<open>start, start + step, ...\<close>; the value is broadcast to the shape of the selection
  and the assignment raises when it cannot be.
\<close>

definition setitem_cols :: "nat \<Rightarrow> nat \<Rightarrow> real tensor \<Rightarrow> real tensor \<Rightarrow> error + real tensor" where
  "setitem_cols start step t v =
     (case shape t of
        [r, c] \<Rightarrow>
          (let target = [r, (c - start + step - 1) div step] in
           if broadcast_shapes target (shape v) = Some target then
             Inr (tabulate [r, c] (\<lambda>idx.
                    if start \<le> idx ! 1 \<and> (idx ! 1 - start) mod step = 0
                    then tget v (bindex (shape v) [idx ! 0, (idx ! 1 - start) div step])
                    else tget t idx))
           else Inl RuntimeError)
      | _ \<Rightarrow> Inl IndexError)"

subsection \<open>Conversion of integers to float32\<close>

text \<open>
  When an integer tensor meets a floating-point operand, PyTorch converts the integers
  to float32 first. A float32 has a significand of 24 bits: an integer of more bits is
  rounded to the nearest multiple of the power of two that its surplus bits span, a
  tie going to the even multiple. So every integer up to \<open>2^24 = 16777216\<close> is
  kept, and \<open>16777217\<close> becomes \<open>16777216\<close>. \<open>bitlen\<close> is the number of bits
  of an integer. (Integers from \<open>2^128 - 2^103\<close> on would become infinite; no size
  or index of a tensor is that large.)
\<close>

fun bitlen :: "nat \<Rightarrow> nat" where
  "bitlen n = (if n = 0 then 0 else Suc (bitlen (n div 2)))"

definition float32_of_nat :: "nat \<Rightarrow> nat" where
  "float32_of_nat n =
     (let e = bitlen n - 24; q = n div 2 ^ e; r = n mod 2 ^ e
      in if 2 * r < 2 ^ e \<or> (2 * r = 2 ^ e \<and> even q) then q * 2 ^ e else (q + 1) * 2 ^ e)"

definition to_float32 :: "nat tensor \<Rightarrow> real tensor" where
  "to_float32 = tmap (\<lambda>n. real (float32_of_nat n))"

section \<open>Positional encoding (Lesson 5)\<close>

text \<open>
  \<^verbatim>\<open>
  class PositionalEncoding(nn.Module):
      def __init__(self, embed_dim, max_seq_length):
          pe = torch.zeros(max_seq_length, embed_dim)
          position = torch.arange(0, max_seq_length).unsqueeze(1)
          div_term = torch.exp(torch.arange(0, embed_dim, 2) * -(np.log(10000.0) / embed_dim))
          pe[:, 0::2] = torch.sin(position * div_term)
          pe[:, 1::2] = torch.cos(position * div_term)
          self.register_buffer('pe', pe)
      def forward(self, x):
          seq_len = x.size(1)
          x = x + self.pe[:seq_len, :]
          return x
  \<close>
  Both \<open>arange\<close> tensors hold integers. The column indices are converted to float32
  when they are multiplied by the floating-point factor, and the positions when they
  are multiplied by \<open>div_term\<close>. The products, the exponential, the sine and the
  cosine are taken as exact: their rounding is not modelled.
  With \<open>embed_dim = 0\<close> numpy's division yields an infinity and no exception; it
  multiplies an empty tensor, so its value (here HOL's \<open>x / 0 = 0\<close>) is never read.
\<close>

record PositionalEncoding =
  pe :: "real tensor"

definition PositionalEncoding_init :: "nat \<Rightarrow> nat \<Rightarrow> error + PositionalEncoding" where
  "PositionalEncoding_init embed_dim max_seq_length =
     (let pe0 = zeros [max_seq_length, embed_dim];
          position = unsqueeze 1 (arange 0 max_seq_length 1);
          div_term = tmap exp (tmap (\<lambda>v. v * - (ln 10000 / real embed_dim))
                                 (to_float32 (arange 0 embed_dim 2)))
      in ebind (tmul (to_float32 position) div_term) (\<lambda>a0.
         ebind (setitem_cols 0 2 pe0 (tmap sin a0)) (\<lambda>pe1.
         ebind (tmul (to_float32 position) div_term) (\<lambda>a1.
         ebind (setitem_cols 1 2 pe1 (tmap cos a1)) (\<lambda>pe2.
         Inr \<lparr>pe = pe2\<rparr>)))))"

definition PositionalEncoding_forward :: "PositionalEncoding \<Rightarrow> real tensor \<Rightarrow> error + real tensor" where
  "PositionalEncoding_forward self x =
     (if length (shape x) < 2 then Inl IndexError
      else let seq_len = shape x ! 1 in
        ebind (slice_rows seq_len (pe self)) (\<lambda>p. tadd x p))"

text \<open>
  The entry that the constructor stores for a position and a column: the sine or the
  cosine of the angle, of the position and the even column index as float32 holds them.
\<close>

definition pe_stored :: "nat \<Rightarrow> nat \<Rightarrow> nat \<Rightarrow> real" where
  "pe_stored embed_dim pos c =
     (if even c
      then sin (real (float32_of_nat pos) / 10000 powr (real (float32_of_nat c) / real embed_dim))
      else cos (real (float32_of_nat pos) /
                10000 powr (real (float32_of_nat (c - 1)) / real embed_dim)))"

subsection \<open>Reshaping and transposition\<close>

text \<open>
  \<open>t.view(sh)\<close> keeps the elements in place and reads them under a new shape; it raises
  when the sizes do not multiply to the number of elements. \<open>t.contiguous()\<close> returns the
  elements in row-major order of the current shape, which every tensor here already is.
\<close>

definition view :: "'a tensor \<Rightarrow> nat list \<Rightarrow> error + 'a tensor" where
  "view t sh = (if prod_list sh = prod_list (shape t) then Inr (t\<lparr>shape := sh\<rparr>) else Inl RuntimeError)"

definition contiguous :: "'a tensor \<Rightarrow> 'a tensor" where
  "contiguous t = t"

text \<open>A dimension argument may be negative, counting from the last dimension.\<close>

definition norm_dim :: "nat \<Rightarrow> int \<Rightarrow> nat option" where
  "norm_dim r d =
     (if - int r \<le> d \<and> d < int r then Some (nat (if d < 0 then d + int r else d)) else None)"

definition swap :: "nat \<Rightarrow> nat \<Rightarrow> 'b list \<Rightarrow> 'b list" where
  "swap i j xs = xs[i := xs ! j, j := xs ! i]"

definition transpose_t :: "int \<Rightarrow> int \<Rightarrow> 'a tensor \<Rightarrow> error + 'a tensor" where
  "transpose_t dim0 dim1 t =
     (case (norm_dim (length (shape t)) dim0, norm_dim (length (shape t)) dim1) of
        (Some i, Some j) \<Rightarrow> Inr (tabulate (swap i j (shape t)) (\<lambda>idx. tget t (swap i j idx)))
      | _ \<Rightarrow> Inl IndexError)"

subsection \<open>Matrix product and softmax\<close>

text \<open>
  \<open>torch.matmul\<close> on two tensors of the same rank (at least 2) with the same leading
  (batch) dimensions: one matrix product per batch index. This is the only case the
  attention code reaches; other operand shapes, which torch would broadcast, are
  reported as an error here.
\<close>

definition matmul :: "real tensor \<Rightarrow> real tensor \<Rightarrow> error + real tensor" where
  "matmul a b =
     (let r = length (shape a) in
      if 2 \<le> r \<and> length (shape b) = r \<and> take (r - 2) (shape b) = take (r - 2) (shape a)
         \<and> shape b ! (r - 2) = shape a ! (r - 1)
      then Inr (tabulate (take (r - 1) (shape a) @ [shape b ! (r - 1)]) (\<lambda>idx.
             sum_list (map (\<lambda>l. tget a (take (r - 2) idx @ [idx ! (r - 2), l]) *
                                 tget b (take (r - 2) idx @ [l, idx ! (r - 1)]))
                           [0..<shape a ! (r - 1)])))
      else Inl RuntimeError)"

text \<open>
  \<open>torch.softmax(t, dim=axis)\<close>: each entry is its exponential divided by the sum of the
  exponentials along that axis. (Tensors of rank 0, which torch treats as vectors of
  one element here and in \<open>transpose\<close>, do not occur in the program; the model
  reports them as an index error.)
\<close>

definition softmax :: "real tensor \<Rightarrow> int \<Rightarrow> error + real tensor" where
  "softmax t axis =
     (case norm_dim (length (shape t)) axis of
        None \<Rightarrow> Inl IndexError
      | Some d \<Rightarrow>
          Inr (tabulate (shape t) (\<lambda>idx.
                 exp (tget t idx) /
                 sum_list (map (\<lambda>k. exp (tget t (idx[d := k]))) [0..<shape t ! d]))))"

section \<open>Linear layers\<close>

text \<open>
  \<open>nn.Linear(in_features, out_features)\<close> owns a weight of shape (out, in) and a bias
  of shape (out) and maps the last axis: \<open>y = x W\<^sup>T + b\<close>. The constructor draws the
  initial parameters at random; the model takes the drawn values as an argument.
\<close>

record Linear =
  in_features :: nat
  out_features :: nat
  weight :: "real tensor"
  bias :: "real tensor"

type_synonym linear_init = "(nat \<Rightarrow> nat \<Rightarrow> real) \<times> (nat \<Rightarrow> real)"

definition Linear_init :: "nat \<Rightarrow> nat \<Rightarrow> linear_init \<Rightarrow> Linear" where
  "Linear_init n_in n_out init =
     \<lparr>in_features = n_in, out_features = n_out,
      weight = tabulate [n_out, n_in] (\<lambda>idx. fst init (idx ! 0) (idx ! 1)),
      bias = tabulate [n_out] (\<lambda>idx. snd init (idx ! 0))\<rparr>"

definition Linear_forward :: "Linear \<Rightarrow> real tensor \<Rightarrow> error + real tensor" where
  "Linear_forward self x =
     (if shape x = [] \<or> last (shape x) \<noteq> in_features self then Inl RuntimeError
      else Inr (tabulate (butlast (shape x) @ [out_features self]) (\<lambda>idx.
             sum_list (map (\<lambda>i. tget x (butlast idx @ [i]) * tget (weight self) [last idx, i])
                           [0..<in_features self])
             + tget (bias self) [last idx])))"

section \<open>Multi-head attention (Lesson 4)\<close>

text \<open>
  \<^verbatim>\<open>
  class MultiHeadAttention(nn.Module):
      def __init__(self, embed_dim, num_heads):
          self.embed_dim = embed_dim
          self.num_heads = num_heads
          self.head_dim = embed_dim // num_heads
          assert embed_dim % num_heads == 0, "embed_dim must be divisible by num_heads"
          self.query = nn.Linear(embed_dim, embed_dim)
          self.key = nn.Linear(embed_dim, embed_dim)
          self.value = nn.Linear(embed_dim, embed_dim)
          self.out = nn.Linear(embed_dim, embed_dim)
          self.scale = self.head_dim ** -0.5
  \<close>
  Sizes are natural numbers. Python's \<open>//\<close> raises ZeroDivisionError for a zero
  divisor, and so does \<open>0 ** -0.5\<close>.
\<close>

record MultiHeadAttention =
  mha_embed_dim :: nat
  mha_num_heads :: nat
  mha_head_dim :: nat
  mha_query :: Linear
  mha_key :: Linear
  mha_value :: Linear
  mha_out :: Linear
  mha_scale :: real

record mha_init =
  init_query :: linear_init
  init_key :: linear_init
  init_value :: linear_init
  init_out :: linear_init

definition MultiHeadAttention_init :: "nat \<Rightarrow> nat \<Rightarrow> mha_init \<Rightarrow> error + MultiHeadAttention" where
  "MultiHeadAttention_init embed_dim num_heads init =
     (if num_heads = 0 then Inl ZeroDivisionError
      else let head_dim = embed_dim div num_heads in
        if embed_dim mod num_heads \<noteq> 0 then Inl AssertionError
        else if head_dim = 0 then Inl ZeroDivisionError
        else Inr \<lparr>mha_embed_dim = embed_dim, mha_num_heads = num_heads, mha_head_dim = head_dim,
                  mha_query = Linear_init embed_dim embed_dim (init_query init),
                  mha_key = Linear_init embed_dim embed_dim (init_key init),
                  mha_value = Linear_init embed_dim embed_dim (init_value init),
                  mha_out = Linear_init embed_dim embed_dim (init_out init),
                  mha_scale = real head_dim powr (- (1 / 2))\<rparr>)"

text \<open>
  \<^verbatim>\<open>
      def forward(self, x):
          batch_size, seq_length, embed_dim = x.size()
          Q = self.query(x)
          K = self.key(x)
          V = self.value(x)
          Q = Q.view(batch_size, seq_length, self.num_heads, self.head_dim).transpose(1, 2)
          K = K.view(batch_size, seq_length, self.num_heads, self.head_dim).transpose(1, 2)
          V = V.view(batch_size, seq_length, self.num_heads, self.head_dim).transpose(1, 2)
          scores = torch.matmul(Q, K.transpose(-2, -1)) * self.scale
          attn_weights = torch.softmax(scores, dim=-1)
          out = torch.matmul(attn_weights, V)
          out = out.transpose(1, 2).contiguous().view(batch_size, seq_length, embed_dim)
          out = self.out(out)
          return out, attn_weights
  \<close>
  Unpacking \<open>x.size()\<close> into three names raises ValueError unless \<open>x\<close> has rank 3.
\<close>

text \<open>\<open>t.view(batch_size, seq_length, self.num_heads, self.head_dim).transpose(1, 2)\<close>\<close>

definition split_heads :: "MultiHeadAttention \<Rightarrow> nat \<Rightarrow> nat \<Rightarrow> 'a tensor \<Rightarrow> error + 'a tensor" where
  "split_heads self batch_size seq_length t =
     ebind (view t [batch_size, seq_length, mha_num_heads self, mha_head_dim self])
       (transpose_t 1 2)"

definition MultiHeadAttention_forward ::
  "MultiHeadAttention \<Rightarrow> real tensor \<Rightarrow> error + real tensor \<times> real tensor" where
  "MultiHeadAttention_forward self x =
     (case shape x of
        [batch_size, seq_length, embed_dim] \<Rightarrow>
          ebind (Linear_forward (mha_query self) x) (\<lambda>Q.
          ebind (Linear_forward (mha_key self) x) (\<lambda>K.
          ebind (Linear_forward (mha_value self) x) (\<lambda>V.
          ebind (split_heads self batch_size seq_length Q) (\<lambda>Q.
          ebind (split_heads self batch_size seq_length K) (\<lambda>K.
          ebind (split_heads self batch_size seq_length V) (\<lambda>V.
          ebind (transpose_t (- 2) (- 1) K) (\<lambda>KT.
          ebind (matmul Q KT) (\<lambda>QK.
          let scores = tmap (\<lambda>v. v * mha_scale self) QK in
          ebind (softmax scores (- 1)) (\<lambda>attn_weights.
          ebind (matmul attn_weights V) (\<lambda>out.
          ebind (transpose_t 1 2 out) (\<lambda>out.
          ebind (view (contiguous out) [batch_size, seq_length, embed_dim]) (\<lambda>out.
          ebind (Linear_forward (mha_out self) out) (\<lambda>out.
          Inr (out, attn_weights))))))))))))))
      | _ \<Rightarrow> Inl ValueError)"

subsection \<open>The forward contract of the specification\<close>

text \<open>
  Section 4.2 of the specification, step by step and entry by entry, for an input \<open>x\<close>
  of shape (batch, seq_length, embed_dim): (1) the projections of \<open>x\<close>; (2) head \<open>h\<close>
  holds the features \<open>h * head_dim, ..., h * head_dim + head_dim - 1\<close>; (3) the scores
  \<open>Q\<cdot>K\<^sup>T * head_dim^(-0.5)\<close>; (4) their softmax over the keys; (5) the weighted sum of
  the values; (6) the heads side by side along the feature axis, in head order; (7) the
  output projection.
\<close>

definition spec_project :: "Linear \<Rightarrow> real tensor \<Rightarrow> nat \<Rightarrow> nat \<Rightarrow> nat \<Rightarrow> real" where
  "spec_project l x b s j =
     (\<Sum>i<in_features l. tget x [b, s, i] * tget (weight l) [j, i]) + tget (bias l) [j]"

definition spec_head :: "nat \<Rightarrow> (nat \<Rightarrow> nat \<Rightarrow> nat \<Rightarrow> 'a) \<Rightarrow> nat \<Rightarrow> nat \<Rightarrow> nat \<Rightarrow> nat \<Rightarrow> 'a" where
  "spec_head D P b h s d = P b s (h * D + d)"

definition spec_scores :: "MultiHeadAttention \<Rightarrow> real tensor \<Rightarrow> nat \<Rightarrow> nat \<Rightarrow> nat \<Rightarrow> nat \<Rightarrow> real" where
  "spec_scores m x b h s t =
     (\<Sum>d<mha_head_dim m.
        spec_head (mha_head_dim m) (spec_project (mha_query m) x) b h s d *
        spec_head (mha_head_dim m) (spec_project (mha_key m) x) b h t d)
     * real (mha_head_dim m) powr (- (1 / 2))"

definition spec_weights :: "MultiHeadAttention \<Rightarrow> real tensor \<Rightarrow> nat \<Rightarrow> nat \<Rightarrow> nat \<Rightarrow> nat \<Rightarrow> real" where
  "spec_weights m x b h s t =
     exp (spec_scores m x b h s t) / (\<Sum>u<shape x ! 1. exp (spec_scores m x b h s u))"

definition spec_context :: "MultiHeadAttention \<Rightarrow> real tensor \<Rightarrow> nat \<Rightarrow> nat \<Rightarrow> nat \<Rightarrow> nat \<Rightarrow> real" where
  "spec_context m x b h s d =
     (\<Sum>t<shape x ! 1.
        spec_weights m x b h s t * spec_head (mha_head_dim m) (spec_project (mha_value m) x) b h t d)"

definition spec_merged :: "MultiHeadAttention \<Rightarrow> real tensor \<Rightarrow> nat \<Rightarrow> nat \<Rightarrow> nat \<Rightarrow> real" where
  "spec_merged m x b s j = spec_context m x b (j div mha_head_dim m) s (j mod mha_head_dim m)"

definition spec_result :: "MultiHeadAttention \<Rightarrow> real tensor \<Rightarrow> nat \<Rightarrow> nat \<Rightarrow> nat \<Rightarrow> real" where
  "spec_result m x b s j =
     (\<Sum>i<mha_embed_dim m. spec_merged m x b s i * tget (weight (mha_out m)) [j, i])
     + tget (bias (mha_out m)) [j]"

definition spec_attention :: "MultiHeadAttention \<Rightarrow> real tensor \<Rightarrow> real tensor \<times> real tensor" where
  "spec_attention m x =
     (tabulate [shape x ! 0, shape x ! 1, mha_embed_dim m]
        (\<lambda>idx. spec_result m x (idx ! 0) (idx ! 1) (idx ! 2)),
      tabulate [shape x ! 0, mha_num_heads m, shape x ! 1, shape x ! 1]
        (\<lambda>idx. spec_weights m x (idx ! 0) (idx ! 1) (idx ! 2) (idx ! 3)))"

section \<open>Multi-head attention over the range of float32\<close>

text \<open>
  A float32 is a finite number, an infinity or NaN. For the attention weights the model
  follows the values through the forward pass with this range: the result of an
  operation on finite numbers is the exact real result when float32 can hold it, and
  an infinity when its magnitude reaches \<open>2^128 - 2^103\<close>, the point from which
  rounding to nearest gives an infinity; the rounding of results within the range is
  not modelled. Operations on infinities and NaN follow IEEE 754 (zero carries no sign).
\<close>

datatype fval = Fin real | PosInf | NegInf | NaN

definition float32_overflow :: real where
  "float32_overflow = 2 ^ 128 - 2 ^ 103"

definition fl_round :: "real \<Rightarrow> fval" where
  "fl_round r = (if float32_overflow \<le> r then PosInf
                 else if r \<le> - float32_overflow then NegInf else Fin r)"

fun fl_sgn :: "fval \<Rightarrow> int" where
  "fl_sgn (Fin r) = (if 0 < r then 1 else if r < 0 then - 1 else 0)"
| "fl_sgn PosInf = 1"
| "fl_sgn NegInf = - 1"
| "fl_sgn NaN = 0"

definition fl_inf :: "int \<Rightarrow> fval" where
  "fl_inf s = (if 0 < s then PosInf else if s < 0 then NegInf else NaN)"

fun fl_neg :: "fval \<Rightarrow> fval" where
  "fl_neg (Fin r) = Fin (- r)"
| "fl_neg PosInf = NegInf"
| "fl_neg NegInf = PosInf"
| "fl_neg NaN = NaN"

fun fl_add :: "fval \<Rightarrow> fval \<Rightarrow> fval" where
  "fl_add (Fin a) (Fin b) = fl_round (a + b)"
| "fl_add NaN _ = NaN"
| "fl_add _ NaN = NaN"
| "fl_add PosInf NegInf = NaN"
| "fl_add NegInf PosInf = NaN"
| "fl_add PosInf _ = PosInf"
| "fl_add _ PosInf = PosInf"
| "fl_add NegInf _ = NegInf"
| "fl_add _ NegInf = NegInf"

definition fl_sub :: "fval \<Rightarrow> fval \<Rightarrow> fval" where
  "fl_sub a b = fl_add a (fl_neg b)"

fun fl_mul :: "fval \<Rightarrow> fval \<Rightarrow> fval" where
  "fl_mul (Fin a) (Fin b) = fl_round (a * b)"
| "fl_mul a b = fl_inf (fl_sgn a * fl_sgn b)"

fun fl_div :: "fval \<Rightarrow> fval \<Rightarrow> fval" where
  "fl_div (Fin a) (Fin b) = (if b = 0 then fl_inf (fl_sgn (Fin a)) else fl_round (a / b))"
| "fl_div (Fin a) PosInf = Fin 0"
| "fl_div (Fin a) NegInf = Fin 0"
| "fl_div PosInf (Fin b) = (if 0 \<le> b then PosInf else NegInf)"
| "fl_div NegInf (Fin b) = (if 0 \<le> b then NegInf else PosInf)"
| "fl_div _ _ = NaN"

fun fl_exp :: "fval \<Rightarrow> fval" where
  "fl_exp (Fin r) = fl_round (exp r)"
| "fl_exp PosInf = PosInf"
| "fl_exp NegInf = Fin 0"
| "fl_exp NaN = NaN"

fun fl_max :: "fval \<Rightarrow> fval \<Rightarrow> fval" where
  "fl_max (Fin a) (Fin b) = Fin (max a b)"
| "fl_max NaN _ = NaN"
| "fl_max _ NaN = NaN"
| "fl_max PosInf _ = PosInf"
| "fl_max _ PosInf = PosInf"
| "fl_max NegInf b = b"
| "fl_max a NegInf = a"

text \<open>Sums and maxima are accumulated from the left, the sum from 0 and the maximum from \<open>-\<infinity>\<close>.\<close>

definition fl_sum :: "fval list \<Rightarrow> fval" where
  "fl_sum = foldl fl_add (Fin 0)"

definition fl_max_list :: "fval list \<Rightarrow> fval" where
  "fl_max_list = foldl fl_max NegInf"

text \<open>\<open>nn.Linear\<close>, \<open>torch.matmul\<close> and the scaling, as above, with float32 operations.\<close>

definition Linear_forward_fl :: "Linear \<Rightarrow> fval tensor \<Rightarrow> error + fval tensor" where
  "Linear_forward_fl self x =
     (if shape x = [] \<or> last (shape x) \<noteq> in_features self then Inl RuntimeError
      else Inr (tabulate (butlast (shape x) @ [out_features self]) (\<lambda>idx.
             fl_add
               (fl_sum (map (\<lambda>i. fl_mul (tget x (butlast idx @ [i]))
                                          (Fin (tget (weight self) [last idx, i])))
                            [0..<in_features self]))
               (Fin (tget (bias self) [last idx])))))"

definition matmul_fl :: "fval tensor \<Rightarrow> fval tensor \<Rightarrow> error + fval tensor" where
  "matmul_fl a b =
     (let r = length (shape a) in
      if 2 \<le> r \<and> length (shape b) = r \<and> take (r - 2) (shape b) = take (r - 2) (shape a)
         \<and> shape b ! (r - 2) = shape a ! (r - 1)
      then Inr (tabulate (take (r - 1) (shape a) @ [shape b ! (r - 1)]) (\<lambda>idx.
             fl_sum (map (\<lambda>l. fl_mul (tget a (take (r - 2) idx @ [idx ! (r - 2), l]))
                                       (tget b (take (r - 2) idx @ [l, idx ! (r - 1)])))
                         [0..<shape a ! (r - 1)])))
      else Inl RuntimeError)"

text \<open>
  \<open>torch.softmax\<close> in floating point: the library subtracts the maximum of the row
  before it takes the exponentials, so that no exponential of a finite row overflows.
\<close>

definition softmax_fl :: "fval tensor \<Rightarrow> int \<Rightarrow> error + fval tensor" where
  "softmax_fl t axis =
     (case norm_dim (length (shape t)) axis of
        None \<Rightarrow> Inl IndexError
      | Some d \<Rightarrow>
          Inr (tabulate (shape t) (\<lambda>idx.
                 let row = map (\<lambda>k. tget t (idx[d := k])) [0..<shape t ! d];
                     m = fl_max_list row
                 in fl_div (fl_exp (fl_sub (tget t idx) m))
                           (fl_sum (map (\<lambda>v. fl_exp (fl_sub v m)) row)))))"

text \<open>The forward pass of the Lesson 4 \<open>MultiHeadAttention\<close>, line by line as above.\<close>

definition MultiHeadAttention_forward_fl ::
  "MultiHeadAttention \<Rightarrow> fval tensor \<Rightarrow> error + fval tensor \<times> fval tensor" where
  "MultiHeadAttention_forward_fl self x =
     (case shape x of
        [batch_size, seq_length, embed_dim] \<Rightarrow>
          ebind (Linear_forward_fl (mha_query self) x) (\<lambda>Q.
          ebind (Linear_forward_fl (mha_key self) x) (\<lambda>K.
          ebind (Linear_forward_fl (mha_value self) x) (\<lambda>V.
          ebind (split_heads self batch_size seq_length Q) (\<lambda>Q.
          ebind (split_heads self batch_size seq_length K) (\<lambda>K.
          ebind (split_heads self batch_size seq_length V) (\<lambda>V.
          ebind (transpose_t (- 2) (- 1) K) (\<lambda>KT.
          ebind (matmul_fl Q KT) (\<lambda>QK.
          let scores = tmap (\<lambda>v. fl_mul v (Fin (mha_scale self))) QK in
          ebind (softmax_fl scores (- 1)) (\<lambda>attn_weights.
          ebind (matmul_fl attn_weights V) (\<lambda>out.
          ebind (transpose_t 1 2 out) (\<lambda>out.
          ebind (view (contiguous out) [batch_size, seq_length, embed_dim]) (\<lambda>out.
          ebind (Linear_forward_fl (mha_out self) out) (\<lambda>out.
          Inr (out, attn_weights))))))))))))))
      | _ \<Rightarrow> Inl ValueError)"

text \<open>
  The entries of that forward pass: a projection, the score of a query and a key
  within a head, and the weight that the softmax makes of it.
\<close>

definition fl_project :: "Linear \<Rightarrow> fval tensor \<Rightarrow> nat \<Rightarrow> nat \<Rightarrow> nat \<Rightarrow> fval" where
  "fl_project l x b s j =
     fl_add (fl_sum (map (\<lambda>i. fl_mul (tget x [b, s, i]) (Fin (tget (weight l) [j, i])))
                         [0..<in_features l]))
            (Fin (tget (bias l) [j]))"

definition fl_scores :: "MultiHeadAttention \<Rightarrow> fval tensor \<Rightarrow> nat \<Rightarrow> nat \<Rightarrow> nat \<Rightarrow> nat \<Rightarrow> fval" where
  "fl_scores m x b h s t =
     fl_mul (fl_sum (map (\<lambda>d. fl_mul (spec_head (mha_head_dim m) (fl_project (mha_query m) x) b h s d)
                                      (spec_head (mha_head_dim m) (fl_project (mha_key m) x) b h t d))
                         [0..<mha_head_dim m]))
            (Fin (mha_scale m))"

definition fl_weights :: "MultiHeadAttention \<Rightarrow> fval tensor \<Rightarrow> nat \<Rightarrow> nat \<Rightarrow> nat \<Rightarrow> nat \<Rightarrow> fval" where
  "fl_weights m x b h s t =
     (let row = map (\<lambda>k. fl_scores m x b h s k) [0..<shape x ! 1];
          mx = fl_max_list row
      in fl_div (fl_exp (fl_sub (fl_scores m x b h s t) mx))
                (fl_sum (map (\<lambda>v. fl_exp (fl_sub v mx)) row)))"

section \<open>Layer normalisation, activation, dropout\<close>

text \<open>
  \<open>nn.LayerNorm(n)\<close> normalises along the last axis, which must have size \<open>n\<close>: it
  subtracts the mean, divides by the square root of the (biased) variance plus
  \<open>eps = 1e-5\<close>, then scales and shifts per feature. The scale starts at 1 and the
  shift at 0.
\<close>

record LayerNorm =
  normalized_shape :: nat
  ln_weight :: "real tensor"
  ln_bias :: "real tensor"
  ln_eps :: real

definition LayerNorm_init :: "nat \<Rightarrow> LayerNorm" where
  "LayerNorm_init n =
     \<lparr>normalized_shape = n, ln_weight = tabulate [n] (\<lambda>_. 1), ln_bias = tabulate [n] (\<lambda>_. 0),
      ln_eps = 1 / 100000\<rparr>"

definition row_mean :: "real tensor \<Rightarrow> nat list \<Rightarrow> nat \<Rightarrow> real" where
  "row_mean x idx n = sum_list (map (\<lambda>k. tget x (butlast idx @ [k])) [0..<n]) / real n"

definition row_var :: "real tensor \<Rightarrow> nat list \<Rightarrow> nat \<Rightarrow> real" where
  "row_var x idx n =
     sum_list (map (\<lambda>k. (tget x (butlast idx @ [k]) - row_mean x idx n)\<^sup>2) [0..<n]) / real n"

definition LayerNorm_forward :: "LayerNorm \<Rightarrow> real tensor \<Rightarrow> error + real tensor" where
  "LayerNorm_forward self x =
     (if shape x = [] \<or> last (shape x) \<noteq> normalized_shape self then Inl RuntimeError
      else Inr (tabulate (shape x) (\<lambda>idx.
             (tget x idx - row_mean x idx (normalized_shape self))
               / sqrt (row_var x idx (normalized_shape self) + ln_eps self)
               * tget (ln_weight self) [last idx]
             + tget (ln_bias self) [last idx])))"

definition relu :: "real tensor \<Rightarrow> real tensor" where
  "relu = tmap (max 0)"

text \<open>
  \<open>nn.Dropout(p)\<close> is the identity in inference mode. In training mode it zeroes a
  random selection of the entries and divides the others by \<open>1 - p\<close>. The random
  selection of one call is an argument: \<open>None\<close> in inference mode, and in training
  mode \<open>Some keep\<close>, where \<open>keep k\<close> tells whether the entry at flat position \<open>k\<close>
  survives. The constructor rejects a probability outside \<open>[0, 1]\<close>.
\<close>

record Dropout =
  dropout_p :: real

type_synonym draw = "(nat \<Rightarrow> bool) option"

definition Dropout_init :: "real \<Rightarrow> error + Dropout" where
  "Dropout_init p = (if p < 0 \<or> 1 < p then Inl ValueError else Inr \<lparr>dropout_p = p\<rparr>)"

definition Dropout_forward :: "Dropout \<Rightarrow> draw \<Rightarrow> real tensor \<Rightarrow> real tensor" where
  "Dropout_forward self dr x =
     (case dr of
        None \<Rightarrow> x
      | Some keep \<Rightarrow>
          \<lparr>shape = shape x,
           data = map2 (\<lambda>k v. if keep k then v / (1 - dropout_p self) else 0)
                    [0..<length (data x)] (data x)\<rparr>)"

section \<open>Transformer block (Lesson 4)\<close>

text \<open>
  \<^verbatim>\<open>
  class TransformerBlock(nn.Module):
      def __init__(self, embed_dim, num_heads, ff_hidden_dim, dropout=0.1):
          self.attention = MultiHeadAttention(embed_dim, num_heads)
          self.ffn = nn.Sequential(
              nn.Linear(embed_dim, ff_hidden_dim), nn.ReLU(), nn.Linear(ff_hidden_dim, embed_dim))
          self.norm1 = nn.LayerNorm(embed_dim)
          self.norm2 = nn.LayerNorm(embed_dim)
          self.dropout = nn.Dropout(dropout)
      def forward(self, x):
          attn_output, attn_weights = self.attention(x)
          x = self.norm1(x + self.dropout(attn_output))
          ff_output = self.ffn(x)
          x = self.norm2(x + self.dropout(ff_output))
          return x, attn_weights
  \<close>
  The body of \<open>forward\<close> is the same in Lesson 4 and Lesson 5. It calls whatever
  modules the attributes hold, so it is modelled once, over the sublayers as functions;
  the two calls of \<open>self.dropout\<close> have their own random selections.
\<close>

record FeedForward =
  ffn_0 :: Linear
  ffn_2 :: Linear

definition FeedForward_forward :: "FeedForward \<Rightarrow> real tensor \<Rightarrow> error + real tensor" where
  "FeedForward_forward self x =
     ebind (Linear_forward (ffn_0 self) x) (\<lambda>h. Linear_forward (ffn_2 self) (relu h))"

definition block_forward ::
  "(real tensor \<Rightarrow> error + real tensor \<times> 'w) \<Rightarrow> (real tensor \<Rightarrow> error + real tensor) \<Rightarrow>
   (real tensor \<Rightarrow> error + real tensor) \<Rightarrow> (real tensor \<Rightarrow> error + real tensor) \<Rightarrow>
   (draw \<Rightarrow> real tensor \<Rightarrow> real tensor) \<Rightarrow> draw \<times> draw \<Rightarrow>
   real tensor \<Rightarrow> error + real tensor \<times> 'w" where
  "block_forward attention ffn norm1 norm2 dropout draws x =
     ebind (attention x) (\<lambda>(attn_output, attn_weights).
     ebind (tadd x (dropout (fst draws) attn_output)) (\<lambda>s1.
     ebind (norm1 s1) (\<lambda>x1.
     ebind (ffn x1) (\<lambda>ff_output.
     ebind (tadd x1 (dropout (snd draws) ff_output)) (\<lambda>s2.
     ebind (norm2 s2) (\<lambda>x2.
     Inr (x2, attn_weights)))))))"

record TransformerBlock =
  blk_attention :: MultiHeadAttention
  blk_ffn :: FeedForward
  blk_norm1 :: LayerNorm
  blk_norm2 :: LayerNorm
  blk_dropout :: Dropout

record block_init =
  init_attention :: mha_init
  init_ffn_0 :: linear_init
  init_ffn_2 :: linear_init

definition TransformerBlock_init ::
  "nat \<Rightarrow> nat \<Rightarrow> nat \<Rightarrow> real \<Rightarrow> block_init \<Rightarrow> error + TransformerBlock" where
  "TransformerBlock_init embed_dim num_heads ff_hidden_dim dropout init =
     ebind (MultiHeadAttention_init embed_dim num_heads (init_attention init)) (\<lambda>attention.
     ebind (Dropout_init dropout) (\<lambda>dropout_layer.
     Inr \<lparr>blk_attention = attention,
          blk_ffn = \<lparr>ffn_0 = Linear_init embed_dim ff_hidden_dim (init_ffn_0 init),
                     ffn_2 = Linear_init ff_hidden_dim embed_dim (init_ffn_2 init)\<rparr>,
          blk_norm1 = LayerNorm_init embed_dim,
          blk_norm2 = LayerNorm_init embed_dim,
          blk_dropout = dropout_layer\<rparr>))"

definition TransformerBlock_forward ::
  "TransformerBlock \<Rightarrow> draw \<times> draw \<Rightarrow> real tensor \<Rightarrow> error + real tensor \<times> real tensor" where
  "TransformerBlock_forward self =
     block_forward (MultiHeadAttention_forward (blk_attention self))
       (FeedForward_forward (blk_ffn self))
       (LayerNorm_forward (blk_norm1 self)) (LayerNorm_forward (blk_norm2 self))
       (Dropout_forward (blk_dropout self))"

section \<open>The framework's attention module\<close>

text \<open>
  Lesson 5 replaces the hand-written attention by \<open>torch.nn.MultiheadAttention\<close>, which
  is not part of the repository. It is modelled from its documentation. The
  constructor rejects sizes that are not positive (ValueError) and an \<open>embed_dim\<close>
  that is not a multiple of \<open>num_heads\<close> (an assertion). The module owns input
  projections for queries, keys and values and an output projection, and, called as
  \<open>attention(x, x, x)\<close> on \<open>x\<close> of shape (seq, batch, embed) or, unbatched,
  (seq, embed), it computes the scaled dot-product attention of Lesson 4 per head:
  the same function, on the sequence-first layout. It returns the output in the
  layout of the input and, since \<open>average_attn_weights\<close> defaults to true, the
  attention weights averaged over the heads, of shape (batch, seq, seq). An input
  whose last dimension is not \<open>embed_dim\<close>, or whose rank is neither 2 nor 3, fails
  an assertion.
\<close>

definition nn_MultiheadAttention_init ::
  "nat \<Rightarrow> nat \<Rightarrow> mha_init \<Rightarrow> error + MultiHeadAttention" where
  "nn_MultiheadAttention_init embed_dim num_heads init =
     (if embed_dim = 0 \<or> num_heads = 0 then Inl ValueError
      else if (embed_dim div num_heads) * num_heads \<noteq> embed_dim then Inl AssertionError
      else MultiHeadAttention_init embed_dim num_heads init)"

definition mean_heads :: "real tensor \<Rightarrow> error + real tensor" where
  "mean_heads w =
     (case shape w of
        [n, h, l, s] \<Rightarrow>
          Inr (tabulate [n, l, s] (\<lambda>idx.
                 sum_list (map (\<lambda>k. tget w [idx ! 0, k, idx ! 1, idx ! 2]) [0..<h]) / real h))
      | _ \<Rightarrow> Inl IndexError)"

definition squeeze :: "nat \<Rightarrow> 'a tensor \<Rightarrow> 'a tensor" where
  "squeeze d t =
     (if d < length (shape t) \<and> shape t ! d = 1
      then t\<lparr>shape := take d (shape t) @ drop (Suc d) (shape t)\<rparr> else t)"

definition nn_MultiheadAttention_batched ::
  "MultiHeadAttention \<Rightarrow> real tensor \<Rightarrow> error + real tensor \<times> real tensor" where
  "nn_MultiheadAttention_batched self x =
     (case shape x of
        [tgt_len, bsz, embed_dim] \<Rightarrow>
          if embed_dim \<noteq> mha_embed_dim self then Inl AssertionError
          else
            ebind (transpose_t 0 1 x) (\<lambda>xb.
            ebind (MultiHeadAttention_forward self xb) (\<lambda>(out, w).
            ebind (transpose_t 0 1 out) (\<lambda>attn_output.
            ebind (mean_heads w) (\<lambda>attn_weights.
            Inr (attn_output, attn_weights)))))
      | _ \<Rightarrow> Inl AssertionError)"

definition nn_MultiheadAttention_forward ::
  "MultiHeadAttention \<Rightarrow> real tensor \<Rightarrow> error + real tensor \<times> real tensor" where
  "nn_MultiheadAttention_forward self x =
     (if length (shape x) = 2 then
        ebind (nn_MultiheadAttention_batched self (unsqueeze 1 x)) (\<lambda>(out, w).
        Inr (squeeze 1 out, squeeze 0 w))
      else nn_MultiheadAttention_batched self x)"

section \<open>The language model (Lesson 5)\<close>

text \<open>
  \<^verbatim>\<open>
  class MultiHeadAttention(nn.Module):
      def __init__(self, embed_dim, num_heads):
          self.attention = nn.MultiheadAttention(embed_dim, num_heads)
      def forward(self, x):
          x = x.transpose(0, 1)
          attn_output, attn_weights = self.attention(x, x, x)
          attn_output = attn_output.transpose(0, 1)
          return attn_output, attn_weights
  \<close>
  Lesson 5 defines \<open>MultiHeadAttention\<close> and \<open>TransformerBlock\<close> again; the names of
  this second pair end in \<open>_L5\<close>.
\<close>

record MultiHeadAttention_L5 =
  attention_L5 :: MultiHeadAttention

definition MultiHeadAttention_L5_init ::
  "nat \<Rightarrow> nat \<Rightarrow> mha_init \<Rightarrow> error + MultiHeadAttention_L5" where
  "MultiHeadAttention_L5_init embed_dim num_heads init =
     ebind (nn_MultiheadAttention_init embed_dim num_heads init) (\<lambda>a. Inr \<lparr>attention_L5 = a\<rparr>)"

definition MultiHeadAttention_L5_forward ::
  "MultiHeadAttention_L5 \<Rightarrow> real tensor \<Rightarrow> error + real tensor \<times> real tensor" where
  "MultiHeadAttention_L5_forward self x =
     ebind (transpose_t 0 1 x) (\<lambda>x.
     ebind (nn_MultiheadAttention_forward (attention_L5 self) x) (\<lambda>(attn_output, attn_weights).
     ebind (transpose_t 0 1 attn_output) (\<lambda>attn_output.
     Inr (attn_output, attn_weights))))"

record TransformerBlock_L5 =
  blk5_attention :: MultiHeadAttention_L5
  blk5_ffn :: FeedForward
  blk5_norm1 :: LayerNorm
  blk5_norm2 :: LayerNorm
  blk5_dropout :: Dropout

definition TransformerBlock_L5_init ::
  "nat \<Rightarrow> nat \<Rightarrow> nat \<Rightarrow> real \<Rightarrow> block_init \<Rightarrow> error + TransformerBlock_L5" where
  "TransformerBlock_L5_init embed_dim num_heads ff_hidden_dim dropout init =
     ebind (MultiHeadAttention_L5_init embed_dim num_heads (init_attention init)) (\<lambda>attention.
     ebind (Dropout_init dropout) (\<lambda>dropout_layer.
     Inr \<lparr>blk5_attention = attention,
          blk5_ffn = \<lparr>ffn_0 = Linear_init embed_dim ff_hidden_dim (init_ffn_0 init),
                      ffn_2 = Linear_init ff_hidden_dim embed_dim (init_ffn_2 init)\<rparr>,
          blk5_norm1 = LayerNorm_init embed_dim,
          blk5_norm2 = LayerNorm_init embed_dim,
          blk5_dropout = dropout_layer\<rparr>))"

definition TransformerBlock_L5_forward ::
  "TransformerBlock_L5 \<Rightarrow> draw \<times> draw \<Rightarrow> real tensor \<Rightarrow> error + real tensor \<times> real tensor" where
  "TransformerBlock_L5_forward self =
     block_forward (MultiHeadAttention_L5_forward (blk5_attention self))
       (FeedForward_forward (blk5_ffn self))
       (LayerNorm_forward (blk5_norm1 self)) (LayerNorm_forward (blk5_norm2 self))
       (Dropout_forward (blk5_dropout self))"

text \<open>
  \<open>nn.Embedding(num_embeddings, embedding_dim)\<close> looks each index up in its weight
  table and raises IndexError for an index outside \<open>[0, num_embeddings)\<close>; a negative
  index does not count from the end.
\<close>

record Embedding =
  num_embeddings :: nat
  embedding_dim :: nat
  emb_weight :: "real tensor"

definition Embedding_init :: "nat \<Rightarrow> nat \<Rightarrow> (nat \<Rightarrow> nat \<Rightarrow> real) \<Rightarrow> Embedding" where
  "Embedding_init n d init =
     \<lparr>num_embeddings = n, embedding_dim = d,
      emb_weight = tabulate [n, d] (\<lambda>idx. init (idx ! 0) (idx ! 1))\<rparr>"

definition Embedding_forward :: "Embedding \<Rightarrow> int tensor \<Rightarrow> error + real tensor" where
  "Embedding_forward self ids =
     (if list_ex (\<lambda>i. i < 0 \<or> int (num_embeddings self) \<le> i) (data ids) then Inl IndexError
      else Inr (tabulate (shape ids @ [embedding_dim self]) (\<lambda>idx.
             tget (emb_weight self) [nat (tget ids (butlast idx)), last idx])))"

text \<open>
  \<^verbatim>\<open>
  class LanguageModel(nn.Module):
      def __init__(self, vocab_size, embed_dim, num_heads, num_layers, ff_hidden_dim,
                   max_seq_length, dropout=0.1):
          self.embedding = nn.Embedding(vocab_size, embed_dim)
          self.positional_encoding = PositionalEncoding(embed_dim, max_seq_length)
          self.transformer_blocks = nn.ModuleList([
              TransformerBlock(embed_dim, num_heads, ff_hidden_dim, dropout)
              for _ in range(num_layers)])
          self.output_layer = nn.Linear(embed_dim, vocab_size)
      def forward(self, x):
          x = self.embedding(x)
          x = self.positional_encoding(x)
          for block in self.transformer_blocks:
              x, _ = block(x)
          logits = self.output_layer(x)
          return logits
  \<close>
\<close>

record LanguageModel =
  lm_embedding :: Embedding
  lm_positional_encoding :: PositionalEncoding
  lm_transformer_blocks :: "TransformerBlock_L5 list"
  lm_output_layer :: Linear

record lm_init =
  init_embedding :: "nat \<Rightarrow> nat \<Rightarrow> real"
  init_blocks :: "nat \<Rightarrow> block_init"
  init_output_layer :: linear_init

fun sequence_err :: "(error + 'a) list \<Rightarrow> error + 'a list" where
  "sequence_err [] = Inr []"
| "sequence_err (m # ms) = ebind m (\<lambda>v. ebind (sequence_err ms) (\<lambda>vs. Inr (v # vs)))"

definition LanguageModel_init ::
  "nat \<Rightarrow> nat \<Rightarrow> nat \<Rightarrow> nat \<Rightarrow> nat \<Rightarrow> nat \<Rightarrow> real \<Rightarrow> lm_init \<Rightarrow> error + LanguageModel" where
  "LanguageModel_init vocab_size embed_dim num_heads num_layers ff_hidden_dim max_seq_length
       dropout init =
     ebind (PositionalEncoding_init embed_dim max_seq_length) (\<lambda>positional_encoding.
     ebind (sequence_err (map (\<lambda>k. TransformerBlock_L5_init embed_dim num_heads ff_hidden_dim
                                    dropout (init_blocks init k)) [0..<num_layers])) (\<lambda>blocks.
     Inr \<lparr>lm_embedding = Embedding_init vocab_size embed_dim (init_embedding init),
          lm_positional_encoding = positional_encoding,
          lm_transformer_blocks = blocks,
          lm_output_layer = Linear_init embed_dim vocab_size (init_output_layer init)\<rparr>))"

text \<open>The loop over the blocks; \<open>draws k\<close> are the random selections of block \<open>k\<close>.\<close>

fun run_blocks ::
  "TransformerBlock_L5 list \<Rightarrow> (nat \<Rightarrow> draw \<times> draw) \<Rightarrow> nat \<Rightarrow> real tensor \<Rightarrow> error + real tensor" where
  "run_blocks [] draws k x = Inr x"
| "run_blocks (block # blocks) draws k x =
     ebind (TransformerBlock_L5_forward block (draws k) x) (\<lambda>(x, _).
     run_blocks blocks draws (Suc k) x)"

definition LanguageModel_forward ::
  "LanguageModel \<Rightarrow> (nat \<Rightarrow> draw \<times> draw) \<Rightarrow> int tensor \<Rightarrow> error + real tensor" where
  "LanguageModel_forward self draws x =
     ebind (Embedding_forward (lm_embedding self) x) (\<lambda>x.
     ebind (PositionalEncoding_forward (lm_positional_encoding self) x) (\<lambda>x.
     ebind (run_blocks (lm_transformer_blocks self) draws 0 x) (\<lambda>x.
     Linear_forward (lm_output_layer self) x)))"

section \<open>Concrete parameters\<close>

text \<open>Parameter values for the examples: projections that are zero, or the identity.\<close>

definition zero_linear :: linear_init where
  "zero_linear = (\<lambda>_ _. 0, \<lambda>_. 0)"

definition id_linear :: linear_init where
  "id_linear = (\<lambda>i j. if i = j then 1 else 0, \<lambda>_. 0)"

definition zero_mha :: mha_init where
  "zero_mha = \<lparr>init_query = zero_linear, init_key = zero_linear, init_value = zero_linear,
               init_out = zero_linear\<rparr>"

definition ones3 :: "nat \<Rightarrow> nat \<Rightarrow> nat \<Rightarrow> real tensor" where
  "ones3 b s e = tabulate [b, s, e] (\<lambda>_. 1)"

text \<open>
  An attention with one head on one feature whose projections multiply by 1, and an
  input of one sentence of two tokens, \<open>2^70\<close> and \<open>-2^70\<close>, both float32 numbers.
\<close>

definition ones_linear :: linear_init where
  "ones_linear = (\<lambda>_ _. 1, \<lambda>_. 0)"

definition ones_mha :: mha_init where
  "ones_mha = \<lparr>init_query = ones_linear, init_key = ones_linear, init_value = ones_linear,
               init_out = ones_linear\<rparr>"

definition large_input :: "real tensor" where
  "large_input = \<lparr>shape = [1, 2, 1], data = [2 ^ 70, - (2 ^ 70)]\<rparr>"

text \<open>Sublayers that return their input: an attention whose output is its input, and a layer.\<close>

definition identity_attention :: "'w \<Rightarrow> real tensor \<Rightarrow> error + real tensor \<times> 'w" where
  "identity_attention w x = Inr (x, w)"

definition identity_layer :: "real tensor \<Rightarrow> error + real tensor" where
  "identity_layer x = Inr x"

definition zero_block :: block_init where
  "zero_block = \<lparr>init_attention = zero_mha, init_ffn_0 = zero_linear, init_ffn_2 = zero_linear\<rparr>"

definition zero_lm :: lm_init where
  "zero_lm = \<lparr>init_embedding = (\<lambda>_ _. 0), init_blocks = (\<lambda>_. zero_block),
              init_output_layer = zero_linear\<rparr>"

definition token_ids :: "nat \<Rightarrow> nat \<Rightarrow> int list \<Rightarrow> int tensor" where
  "token_ids b s xs = \<lparr>shape = [b, s], data = xs\<rparr>"

definition inference :: "nat \<Rightarrow> draw \<times> draw" where
  "inference k = (None, None)"

text \<open>
  Parameters of a small model (two tokens, two features, one head, one block) in which
  position 0 visibly reads position 1: queries and keys are zero, so every query
  attends to all positions alike; values and the output projections pass their input
  on; the feed-forward sublayer returns zero. Token 0 is embedded as (0, 0) and token 1
  as (10, 0). \<open>squash\<close> is what layer normalisation does to the half difference
  of a row of two features.
\<close>

definition leak_attention :: mha_init where
  "leak_attention = \<lparr>init_query = zero_linear, init_key = zero_linear, init_value = id_linear,
                     init_out = id_linear\<rparr>"

definition leak_lm :: lm_init where
  "leak_lm = \<lparr>init_embedding = (\<lambda>tok j. if tok = 1 \<and> j = 0 then 10 else 0),
              init_blocks = (\<lambda>_. \<lparr>init_attention = leak_attention, init_ffn_0 = zero_linear,
                                    init_ffn_2 = zero_linear\<rparr>),
              init_output_layer = id_linear\<rparr>"

definition squash :: "real \<Rightarrow> real" where
  "squash d = d / sqrt (d\<^sup>2 + 1 / 100000)"

definition lit3 :: "real \<Rightarrow> real \<Rightarrow> real \<Rightarrow> real \<Rightarrow> real tensor" where
  "lit3 a b c d = \<lparr>shape = [1, 2, 2], data = [a, b, c, d]\<rparr>"

section \<open>Index lemmas\<close>

lemma ebind_Inr [simp]: "ebind (Inr v) f = f v"
  by (simp add: ebind_def)

lemma ebind_Inl [simp]: "ebind (Inl e) f = Inl e"
  by (simp add: ebind_def)

lemma shape_tabulate [simp]: "shape (tabulate sh f) = sh"
  by (simp add: tabulate_def)

lemma shape_tmap [simp]: "shape (tmap f t) = shape t"
  by (simp add: tmap_def)

lemma length_indices [simp]: "length (indices sh) = prod_list sh"
proof (induction sh)
  case Nil
  show ?case by simp
next
  case (Cons n ns)
  have "length (indices (n # ns)) = sum_list (map (\<lambda>i. prod_list ns) [0..<n])"
    by (simp add: length_concat comp_def Cons.IH)
  also have "\<dots> = n * prod_list ns"
    by (simp add: sum_list_triv)
  finally show ?case by simp
qed

lemma nth_concat_blocks:
  "\<lbrakk>\<forall>b \<in> set bs. length b = m; i < length bs; j < m\<rbrakk> \<Longrightarrow> concat bs ! (i * m + j) = bs ! i ! j"
proof (induction bs arbitrary: i)
  case Nil
  then show ?case by simp
next
  case (Cons b bs)
  show ?case
  proof (cases i)
    case 0
    with Cons.prems show ?thesis by (simp add: nth_append)
  next
    case (Suc k)
    with Cons.prems have "concat bs ! (k * m + j) = bs ! k ! j"
      by (intro Cons.IH) auto
    with Suc Cons.prems show ?thesis by (simp add: nth_append)
  qed
qed

lemma offset_less: "valid_index sh idx \<Longrightarrow> offset sh idx < prod_list sh"
proof (induction sh arbitrary: idx)
  case Nil
  then show ?case by (simp add: valid_index_def)
next
  case (Cons n ns)
  from Cons.prems obtain i js where idx: "idx = i # js" and i: "i < n" and js: "valid_index ns js"
    by (auto simp: valid_index_def list_all2_Cons2)
  have "offset ns js < prod_list ns" using Cons.IH js .
  moreover have "i * prod_list ns + prod_list ns \<le> n * prod_list ns"
    using i by (metis Suc_leI mult_Suc mult_le_mono1 add.commute)
  ultimately show ?case by (simp add: idx)
qed

lemma indices_nth_offset: "valid_index sh idx \<Longrightarrow> indices sh ! offset sh idx = idx"
proof (induction sh arbitrary: idx)
  case Nil
  then show ?case by (simp add: valid_index_def)
next
  case (Cons n ns)
  from Cons.prems obtain i js where idx: "idx = i # js" and i: "i < n" and js: "valid_index ns js"
    by (auto simp: valid_index_def list_all2_Cons2)
  let ?bs = "map (\<lambda>i. map ((#) i) (indices ns)) [0..<n]"
  have "concat ?bs ! (i * prod_list ns + offset ns js) = ?bs ! i ! offset ns js"
    by (rule nth_concat_blocks) (use i offset_less[OF js] in auto)
  also have "\<dots> = i # indices ns ! offset ns js"
    using i offset_less[OF js] by simp
  also have "\<dots> = i # js" using Cons.IH[OF js] by simp
  finally show ?case by (simp add: idx)
qed

lemma tget_tabulate: "valid_index sh idx \<Longrightarrow> tget (tabulate sh f) idx = f idx"
  using offset_less[of sh idx] indices_nth_offset[of sh idx]
  by (simp add: tget_def tabulate_def)

lemma set_indices: "set (indices sh) = {idx. valid_index sh idx}"
proof (induction sh)
  case Nil
  show ?case by (auto simp: valid_index_def)
next
  case (Cons n ns)
  show ?case
    by (auto simp: Cons.IH valid_index_def list_all2_Cons2)
qed

lemma tabulate_cong:
  "(\<And>idx. valid_index sh idx \<Longrightarrow> f idx = g idx) \<Longrightarrow> tabulate sh f = tabulate sh g"
  by (simp add: tabulate_def set_indices)

lemma tget_tmap: "valid_index (shape t) idx \<Longrightarrow> length (data t) = prod_list (shape t)
    \<Longrightarrow> tget (tmap f t) idx = f (tget t idx)"
  using offset_less[of "shape t" idx] by (simp add: tget_def tmap_def)

lemma wf_tabulate [simp]: "wf (tabulate sh f)"
  by (simp add: wf_def tabulate_def)

lemma wf_tmap [simp]: "wf (tmap f t) = wf t"
  by (simp add: wf_def tmap_def)

lemma tget_tmap': "valid_index (shape t) idx \<Longrightarrow> wf t \<Longrightarrow> tget (tmap f t) idx = f (tget t idx)"
  by (simp add: tget_tmap wf_def)

lemma valid_index1 [simp]: "valid_index [a] [i] \<longleftrightarrow> i < a"
  by (simp add: valid_index_def)

lemma valid_index2 [simp]: "valid_index [a, b] [i, j] \<longleftrightarrow> i < a \<and> j < b"
  by (simp add: valid_index_def)

lemma valid_index2E:
  assumes "valid_index [a, b] idx"
  obtains i j where "idx = [i, j]" "i < a" "j < b"
  using assms by (auto simp: valid_index_def list_all2_Cons2)

lemma bdim_simps [simp]: "bdim n n = Some n" "bdim n 1 = Some n" "bdim 1 n = Some n"
  "bdim n (Suc 0) = Some n" "bdim (Suc 0) n = Some n"
  by (auto simp: bdim_def)

lemma bindex_valid: "valid_index sh idx \<Longrightarrow> bindex sh idx = idx"
proof -
  assume "valid_index sh idx"
  then have a: "list_all2 (<) idx sh" by (simp add: valid_index_def)
  then have "map2 (\<lambda>n i. if n = 1 then 0 else i) sh idx = idx"
    by (induction rule: list_all2_induct) auto
  with a show ?thesis by (simp add: bindex_def list_all2_lengthD)
qed

declare bitlen.simps [simp del]

lemma bitlen_le: "n < 2 ^ k \<Longrightarrow> bitlen n \<le> k"
proof (induction k arbitrary: n)
  case 0
  then show ?case by (simp add: bitlen.simps)
next
  case (Suc k)
  show ?case
  proof (cases "n = 0")
    case True
    then show ?thesis by (simp add: bitlen.simps)
  next
    case False
    have "n div 2 < 2 ^ k" using Suc.prems by simp
    then have "bitlen (n div 2) \<le> k" by (rule Suc.IH)
    with False show ?thesis by (subst bitlen.simps) simp
  qed
qed

lemma bitlen_ge: "2 ^ k \<le> n \<Longrightarrow> Suc k \<le> bitlen n"
proof (induction k arbitrary: n)
  case 0
  then show ?case by (subst bitlen.simps) simp
next
  case (Suc k)
  then have "2 ^ k \<le> n div 2" by simp
  then have "Suc k \<le> bitlen (n div 2)" by (rule Suc.IH)
  moreover have "n \<noteq> 0"
  proof
    assume "n = 0"
    with Suc.prems show False by simp
  qed
  ultimately show ?case by (subst bitlen.simps) simp
qed

lemma float32_of_nat_exact:
  assumes "n \<le> 2 ^ 24"
  shows "float32_of_nat n = n"
proof (cases "n = 2 ^ 24")
  case True
  have "bitlen n \<le> 25" by (rule bitlen_le) (simp add: True)
  moreover have "Suc 24 \<le> bitlen n" by (rule bitlen_ge) (simp add: True)
  ultimately have "bitlen n - 24 = 1" by simp
  then show ?thesis by (simp add: float32_of_nat_def Let_def True)
next
  case False
  with assms have "n < 2 ^ 24" by simp
  then have "bitlen n - 24 = 0" using bitlen_le[of n 24] by simp
  then show ?thesis by (simp add: float32_of_nat_def)
qed


lemma shape_arange [simp]: "shape (arange a b s) = [(b - a + s - 1) div s]"
  by (simp add: arange_def)

lemma wf_arange [simp]: "wf (arange a b s)"
  by (simp add: arange_def)

lemma tget_arange: "k < (b - a + s - 1) div s \<Longrightarrow> tget (arange a b s) [k] = a + k * s"
  by (simp add: arange_def tget_tabulate)

lemma shape_to_float32 [simp]: "shape (to_float32 t) = shape t"
  by (simp add: to_float32_def)

lemma position_shape [simp]: "shape (to_float32 (unsqueeze 1 (arange 0 L 1))) = [L, 1]"
  by (simp add: unsqueeze_def to_float32_def tmap_def)

lemma position_tget:
  "p < L \<Longrightarrow> tget (to_float32 (unsqueeze 1 (arange 0 L 1))) [p, 0] = real (float32_of_nat p)"
  by (simp add: tget_def unsqueeze_def to_float32_def tmap_def arange_def tabulate_def
      indices_nth_offset[of "[L]" "[p]", simplified])

lemma column_tget:
  "k < (E + 1) div 2 \<Longrightarrow>
   tget (tmap exp (tmap g (to_float32 (arange 0 E 2)))) [k] = exp (g (real (float32_of_nat (2 * k))))"
  by (simp add: to_float32_def tget_tmap' tget_arange mult.commute)

lemma angle:
  "tmul (to_float32 (unsqueeze 1 (arange 0 L 1))) (tmap exp (tmap g (to_float32 (arange 0 E 2)))) =
   Inr (tabulate [L, (E + 1) div 2] (\<lambda>idx.
          real (float32_of_nat (idx ! 0)) * exp (g (real (float32_of_nat (2 * (idx ! 1)))))))"
proof -
  let ?K = "(E + 1) div 2"
  let ?pos = "to_float32 (unsqueeze 1 (arange 0 L 1))"
  let ?col = "tmap exp (tmap g (to_float32 (arange 0 E 2)))"
  have bs: "broadcast_shapes [L, 1] [?K] = Some [L, ?K]"
    by (simp add: broadcast_shapes_def)
  have "tabulate [L, ?K] (\<lambda>idx. tget ?pos (bindex [L, 1] idx) * tget ?col (bindex [?K] idx)) =
        tabulate [L, ?K] (\<lambda>idx.
          real (float32_of_nat (idx ! 0)) * exp (g (real (float32_of_nat (2 * (idx ! 1))))))"
  proof (rule tabulate_cong)
    fix idx assume "valid_index [L, ?K] idx"
    then obtain p k where idx: "idx = [p, k]" and p: "p < L" and k: "k < ?K"
      by (rule valid_index2E)
    have 1: "bindex [L, 1] idx = [p, 0]"
      using p by (auto simp: bindex_def idx)
    have 2: "bindex [?K] idx = [k]"
      using k by (auto simp: bindex_def idx)
    show "tget ?pos (bindex [L, 1] idx) * tget ?col (bindex [?K] idx) =
          real (float32_of_nat (idx ! 0)) * exp (g (real (float32_of_nat (2 * (idx ! 1)))))"
      unfolding 1 2 column_tget[OF k] position_tget[OF p] by (simp add: idx)
  qed
  moreover have "shape ?col = [?K]"
    by simp
  ultimately show ?thesis
    unfolding tmul_def broadcast_op_def position_shape by (simp only: bs option.case)
qed

lemma angle_powr: "real p * exp (real j * - (ln 10000 / real E)) = real p / 10000 powr (real j / real E)"
  by (simp add: powr_def exp_minus divide_inverse mult.commute)

lemma broadcast_shapes_same2 [simp]: "broadcast_shapes [a, b] [a, b] = Some [a, b]"
  by (simp add: broadcast_shapes_def)

lemma PositionalEncoding_init_even:
  assumes "even E"
  shows "PositionalEncoding_init E L = Inr \<lparr>pe = tabulate [L, E] (\<lambda>idx. pe_stored E (idx ! 0) (idx ! 1))\<rparr>"
proof -
  let ?K = "(E + 1) div 2"
  let ?g = "\<lambda>v. v * - (ln 10000 / real E)"
  let ?A = "tabulate [L, ?K] (\<lambda>idx.
          real (float32_of_nat (idx ! 0)) * exp (?g (real (float32_of_nat (2 * (idx ! 1))))))"
  let ?T1 = "tabulate [L, E] (\<lambda>idx.
                    if 0 \<le> idx ! 1 \<and> (idx ! 1 - 0) mod 2 = 0
                    then tget (tmap sin ?A) (bindex (shape (tmap sin ?A)) [idx ! 0, (idx ! 1 - 0) div 2])
                    else tget (zeros [L, E]) idx)"
  let ?T2 = "tabulate [L, E] (\<lambda>idx.
                    if 1 \<le> idx ! 1 \<and> (idx ! 1 - 1) mod 2 = 0
                    then tget (tmap cos ?A) (bindex (shape (tmap cos ?A)) [idx ! 0, (idx ! 1 - 1) div 2])
                    else tget ?T1 idx)"
  have K: "(E - 1 + 2 - 1) div 2 = ?K" "(E - 0 + 2 - 1) div 2 = ?K"
    using assms by (auto elim!: evenE)
  have s1: "setitem_cols 0 2 (zeros [L, E]) (tmap sin ?A) = Inr ?T1"
    unfolding setitem_cols_def zeros_def shape_tabulate shape_tmap list.case Let_def K
    by (simp only: broadcast_shapes_same2 simp_thms if_True)
  have s2: "setitem_cols 1 2 ?T1 (tmap cos ?A) = Inr ?T2"
    unfolding setitem_cols_def zeros_def shape_tabulate shape_tmap list.case Let_def K
    by (simp only: broadcast_shapes_same2 simp_thms if_True)
  have "?T2 = tabulate [L, E] (\<lambda>idx. pe_stored E (idx ! 0) (idx ! 1))"
  proof (rule tabulate_cong)
    fix idx assume v: "valid_index [L, E] idx"
    then obtain p c where idx: "idx = [p, c]" and p: "p < L" and c: "c < E"
      by (rule valid_index2E)
    show "(if 1 \<le> idx ! 1 \<and> (idx ! 1 - 1) mod 2 = 0
           then tget (tmap cos ?A) (bindex (shape (tmap cos ?A)) [idx ! 0, (idx ! 1 - 1) div 2])
           else tget ?T1 idx) = pe_stored E (idx ! 0) (idx ! 1)"
    proof (cases "even c")
      case True
      then have k: "c div 2 < ?K" using c assms by (auto elim!: evenE)
      have "tget ?T1 idx = tget (tmap sin ?A) (bindex (shape (tmap sin ?A)) [p, c div 2])"
        using True by (simp add: tget_tabulate[OF v]) (simp add: idx)
      also have "\<dots> = sin (real (float32_of_nat p) * exp (?g (real (float32_of_nat (2 * (c div 2))))))"
        using p k by (simp add: bindex_valid tget_tmap' tget_tabulate)
      also have "\<dots> = sin (real (float32_of_nat p) * exp (?g (real (float32_of_nat c))))"
        using True by (simp only: dvd_mult_div_cancel)
      also have "\<dots> = pe_stored E p c"
        using True by (simp only: pe_stored_def angle_powr if_True)
      finally show ?thesis using True by (simp add: idx) presburger
    next
      case False
      then have k: "(c - 1) div 2 < ?K" and c1: "1 \<le> c" "(c - 1) mod 2 = 0" "2 * ((c - 1) div 2) = c - 1"
        using c assms by (auto elim!: evenE oddE)
      have "tget (tmap cos ?A) (bindex (shape (tmap cos ?A)) [p, (c - 1) div 2]) =
            cos (real (float32_of_nat p) * exp (?g (real (float32_of_nat (2 * ((c - 1) div 2))))))"
        using p k by (simp add: bindex_valid tget_tmap' tget_tabulate)
      also have "\<dots> = cos (real (float32_of_nat p) * exp (?g (real (float32_of_nat (c - 1)))))"
        by (simp only: c1)
      also have "\<dots> = pe_stored E p c"
        using False by (simp only: pe_stored_def angle_powr if_False)
      finally show ?thesis using c1 by (simp add: idx)
    qed
  qed
  then show ?thesis
    unfolding PositionalEncoding_init_def Let_def angle ebind_Inr s1 s2 by simp
qed


lemma float32_of_nat_0: "float32_of_nat 0 = 0"
  by (rule float32_of_nat_exact) simp

lemma float32_of_nat_Suc_0: "float32_of_nat (Suc 0) = Suc 0"
  by (rule float32_of_nat_exact) simp







section \<open>Tensor lemmas\<close>

lemma valid_index3 [simp]: "valid_index [a, b, c] [i, j, k] \<longleftrightarrow> i < a \<and> j < b \<and> k < c"
  by (simp add: valid_index_def)

lemma valid_index4 [simp]:
  "valid_index [a, b, c, d] [i, j, k, l] \<longleftrightarrow> i < a \<and> j < b \<and> k < c \<and> l < d"
  by (simp add: valid_index_def)

lemma valid_index3E:
  assumes "valid_index [a, b, c] idx"
  obtains i j k where "idx = [i, j, k]" "i < a" "j < b" "k < c"
  using assms by (auto simp: valid_index_def list_all2_Cons2)

lemma valid_index4E:
  assumes "valid_index [a, b, c, d] idx"
  obtains i j k l where "idx = [i, j, k, l]" "i < a" "j < b" "k < c" "l < d"
  using assms by (auto simp: valid_index_def list_all2_Cons2)

lemma indices_nth_Cons:
  assumes "k < n * prod_list ns"
  shows "indices (n # ns) ! k = (k div prod_list ns) # indices ns ! (k mod prod_list ns)"
proof -
  let ?P = "prod_list ns"
  let ?bs = "map (\<lambda>i. map ((#) i) (indices ns)) [0..<n]"
  have P: "0 < ?P" using assms by (cases "?P = 0") auto
  have i: "k div ?P < n" using assms P by (simp add: less_mult_imp_div_less)
  have j: "k mod ?P < ?P" using P by simp
  have "concat ?bs ! (k div ?P * ?P + k mod ?P) = ?bs ! (k div ?P) ! (k mod ?P)"
    by (rule nth_concat_blocks) (use i j in auto)
  then show ?thesis using i j by simp
qed

lemma offset_indices_nth: "k < prod_list sh \<Longrightarrow> offset sh (indices sh ! k) = k"
proof (induction sh arbitrary: k)
  case Nil
  then show ?case by simp
next
  case (Cons n ns)
  then have k: "k < n * prod_list ns" by simp
  then have P: "0 < prod_list ns" by (cases "prod_list ns = 0") auto
  have "offset ns (indices ns ! (k mod prod_list ns)) = k mod prod_list ns"
    using P by (intro Cons.IH) simp
  then show ?case unfolding indices_nth_Cons[OF k] by simp
qed

lemma valid_indices_nth: "k < prod_list sh \<Longrightarrow> valid_index sh (indices sh ! k)"
  using set_indices[of sh] nth_mem[of k "indices sh"] by auto

lemma tensor_eqI:
  fixes a b :: "'a tensor"
  assumes "wf a" and "wf b" and "shape a = shape b"
    and "\<And>idx. valid_index (shape a) idx \<Longrightarrow> tget a idx = tget b idx"
  shows "a = b"
proof -
  have "data a = data b"
  proof (rule nth_equalityI)
    show "length (data a) = length (data b)" using assms(1-3) by (simp add: wf_def)
  next
    fix k assume "k < length (data a)"
    then have k: "k < prod_list (shape a)" using assms(1) by (simp add: wf_def)
    have "tget a (indices (shape a) ! k) = tget b (indices (shape a) ! k)"
      by (rule assms(4)) (rule valid_indices_nth[OF k])
    then show "data a ! k = data b ! k"
      using offset_indices_nth[OF k] assms(3) by (simp add: tget_def)
  qed
  with assms(3) show ?thesis by simp
qed

lemma tabulate_eqI:
  assumes "wf t" and "shape t = sh" and "\<And>idx. valid_index sh idx \<Longrightarrow> tget t idx = f idx"
  shows "t = tabulate sh f"
  by (rule tensor_eqI) (use assms in \<open>simp_all add: tget_tabulate\<close>)

lemma sum_list_upt_cong:
  "(\<And>i. i < n \<Longrightarrow> f i = g i) \<Longrightarrow> sum_list (map f [0..<n]) = (\<Sum>i<n. g i)"
  by (simp add: interv_sum_list_conv_sum_set_nat atLeast0LessThan)

lemma tmap_tabulate: "tmap f (tabulate sh g) = tabulate sh (\<lambda>idx. f (g idx))"
  by (simp add: tmap_def tabulate_def)

lemma Linear_forward3:
  assumes "shape x = [B, S, E]" and "in_features l = E"
  shows "Linear_forward l x =
         Inr (tabulate [B, S, out_features l] (\<lambda>idx.
                (\<Sum>i<E. tget x [idx ! 0, idx ! 1, i] * tget (weight l) [idx ! 2, i])
                + tget (bias l) [idx ! 2]))"
proof -
  have "tabulate [B, S, out_features l] (\<lambda>idx.
             sum_list (map (\<lambda>i. tget x (butlast idx @ [i]) * tget (weight l) [last idx, i]) [0..<E])
             + tget (bias l) [last idx]) =
        tabulate [B, S, out_features l] (\<lambda>idx.
                (\<Sum>i<E. tget x [idx ! 0, idx ! 1, i] * tget (weight l) [idx ! 2, i])
                + tget (bias l) [idx ! 2])"
  proof (rule tabulate_cong)
    fix idx assume "valid_index [B, S, out_features l] idx"
    then obtain b s o' where idx: "idx = [b, s, o']"
      by (rule valid_index3E)
    show "sum_list (map (\<lambda>i. tget x (butlast idx @ [i]) * tget (weight l) [last idx, i]) [0..<E])
             + tget (bias l) [last idx] =
          (\<Sum>i<E. tget x [idx ! 0, idx ! 1, i] * tget (weight l) [idx ! 2, i]) + tget (bias l) [idx ! 2]"
      by (simp add: idx sum_list_upt_cong)
  qed
  then show ?thesis using assms by (simp add: Linear_forward_def)
qed

lemma view_split:
  assumes "shape t = [B, S, H * D]" and "wf t"
  shows "view t [B, S, H, D] =
         Inr (tabulate [B, S, H, D] (\<lambda>idx. tget t [idx ! 0, idx ! 1, idx ! 2 * D + idx ! 3]))"
proof -
  let ?t' = "t\<lparr>shape := [B, S, H, D]\<rparr>"
  have "?t' = tabulate [B, S, H, D] (\<lambda>idx. tget t [idx ! 0, idx ! 1, idx ! 2 * D + idx ! 3])"
  proof (rule tabulate_eqI)
    show "wf ?t'" using assms by (simp add: wf_def)
    show "shape ?t' = [B, S, H, D]" by simp
    fix idx assume "valid_index [B, S, H, D] idx"
    then obtain b s h d where idx: "idx = [b, s, h, d]"
      by (rule valid_index4E)
    show "tget ?t' idx = tget t [idx ! 0, idx ! 1, idx ! 2 * D + idx ! 3]"
      by (simp add: idx tget_def assms(1) algebra_simps)
  qed
  then show ?thesis using assms by (simp add: view_def)
qed

lemma view_merge:
  assumes "shape t = [B, S, H, D]" and "wf t" and "0 < D"
  shows "view t [B, S, H * D] =
         Inr (tabulate [B, S, H * D] (\<lambda>idx. tget t [idx ! 0, idx ! 1, idx ! 2 div D, idx ! 2 mod D]))"
proof -
  let ?t' = "t\<lparr>shape := [B, S, H * D]\<rparr>"
  have "?t' = tabulate [B, S, H * D] (\<lambda>idx. tget t [idx ! 0, idx ! 1, idx ! 2 div D, idx ! 2 mod D])"
  proof (rule tabulate_eqI)
    show "wf ?t'" using assms by (simp add: wf_def)
    show "shape ?t' = [B, S, H * D]" by simp
    fix idx assume "valid_index [B, S, H * D] idx"
    then obtain b s j where idx: "idx = [b, s, j]"
      by (rule valid_index3E)
    have "j div D * D + j mod D = j" by simp
    then have "s * (H * D) + j = s * (H * D) + (j div D * D + j mod D)" by simp
    then show "tget ?t' idx = tget t [idx ! 0, idx ! 1, idx ! 2 div D, idx ! 2 mod D]"
      by (simp add: idx tget_def assms(1) add.assoc)
  qed
  then show ?thesis using assms by (simp add: view_def)
qed

lemma swap_12: "swap (Suc 0) 2 [a, b, c, d] = [a, c, b, d]"
  by (simp add: swap_def numeral_2_eq_2)

lemma swap_23: "swap 2 3 [a, b, c, d] = [a, b, d, c]"
  by (simp add: swap_def numeral_2_eq_2 numeral_3_eq_3)

lemma transpose_12:
  assumes "shape t = [a, b, c, d]"
  shows "transpose_t 1 2 t = Inr (tabulate [a, c, b, d] (\<lambda>idx. tget t [idx ! 0, idx ! 2, idx ! 1, idx ! 3]))"
proof -
  have "tabulate [a, c, b, d] (\<lambda>idx. tget t (swap 1 2 idx)) =
        tabulate [a, c, b, d] (\<lambda>idx. tget t [idx ! 0, idx ! 2, idx ! 1, idx ! 3])"
  proof (rule tabulate_cong)
    fix idx assume "valid_index [a, c, b, d] idx"
    then obtain i j k l where idx: "idx = [i, j, k, l]"
      by (rule valid_index4E)
    show "tget t (swap 1 2 idx) = tget t [idx ! 0, idx ! 2, idx ! 1, idx ! 3]"
      by (simp add: idx swap_12)
  qed
  then show ?thesis
    by (simp add: transpose_t_def norm_dim_def assms swap_12)
qed

lemma transpose_last:
  assumes "shape t = [a, b, c, d]"
  shows "transpose_t (- 2) (- 1) t =
         Inr (tabulate [a, b, d, c] (\<lambda>idx. tget t [idx ! 0, idx ! 1, idx ! 3, idx ! 2]))"
proof -
  have "tabulate [a, b, d, c] (\<lambda>idx. tget t (swap 2 3 idx)) =
        tabulate [a, b, d, c] (\<lambda>idx. tget t [idx ! 0, idx ! 1, idx ! 3, idx ! 2])"
  proof (rule tabulate_cong)
    fix idx assume "valid_index [a, b, d, c] idx"
    then obtain i j k l where idx: "idx = [i, j, k, l]"
      by (rule valid_index4E)
    show "tget t (swap 2 3 idx) = tget t [idx ! 0, idx ! 1, idx ! 3, idx ! 2]"
      by (simp add: idx swap_23)
  qed
  then show ?thesis
    by (simp add: transpose_t_def norm_dim_def assms swap_23)
qed

lemma matmul4:
  assumes "shape a = [p, q, n, k]" and "shape b = [p, q, k, m]"
  shows "matmul a b =
         Inr (tabulate [p, q, n, m] (\<lambda>idx.
                \<Sum>l<k. tget a [idx ! 0, idx ! 1, idx ! 2, l] * tget b [idx ! 0, idx ! 1, l, idx ! 3]))"
proof -
  have "tabulate [p, q, n, m] (\<lambda>idx.
             sum_list (map (\<lambda>l. tget a (take 2 idx @ [idx ! 2, l]) * tget b (take 2 idx @ [l, idx ! 3])) [0..<k])) =
        tabulate [p, q, n, m] (\<lambda>idx.
                \<Sum>l<k. tget a [idx ! 0, idx ! 1, idx ! 2, l] * tget b [idx ! 0, idx ! 1, l, idx ! 3])"
  proof (rule tabulate_cong)
    fix idx assume "valid_index [p, q, n, m] idx"
    then obtain i j s t where idx: "idx = [i, j, s, t]"
      by (rule valid_index4E)
    show "sum_list (map (\<lambda>l. tget a (take 2 idx @ [idx ! 2, l]) * tget b (take 2 idx @ [l, idx ! 3])) [0..<k]) =
          (\<Sum>l<k. tget a [idx ! 0, idx ! 1, idx ! 2, l] * tget b [idx ! 0, idx ! 1, l, idx ! 3])"
      by (simp add: idx sum_list_upt_cong numeral_2_eq_2)
  qed
  then show ?thesis
    by (simp add: matmul_def assms Let_def numeral_2_eq_2 numeral_3_eq_3)
qed

lemma softmax4:
  assumes "shape t = [p, q, n, m]"
  shows "softmax t (- 1) =
         Inr (tabulate [p, q, n, m] (\<lambda>idx.
                exp (tget t idx) / (\<Sum>k<m. exp (tget t [idx ! 0, idx ! 1, idx ! 2, k]))))"
proof -
  have "tabulate [p, q, n, m] (\<lambda>idx.
                 exp (tget t idx) / sum_list (map (\<lambda>k. exp (tget t (idx[3 := k]))) [0..<m])) =
        tabulate [p, q, n, m] (\<lambda>idx.
                exp (tget t idx) / (\<Sum>k<m. exp (tget t [idx ! 0, idx ! 1, idx ! 2, k])))"
  proof (rule tabulate_cong)
    fix idx assume "valid_index [p, q, n, m] idx"
    then obtain i j s u where idx: "idx = [i, j, s, u]"
      by (rule valid_index4E)
    show "exp (tget t idx) / sum_list (map (\<lambda>k. exp (tget t (idx[3 := k]))) [0..<m]) =
          exp (tget t idx) / (\<Sum>k<m. exp (tget t [idx ! 0, idx ! 1, idx ! 2, k]))"
      by (simp add: idx sum_list_upt_cong numeral_3_eq_3)
  qed
  then show ?thesis
    by (simp add: softmax_def norm_dim_def assms numeral_3_eq_3)
qed

section \<open>Multi-head attention: the code computes the specified function\<close>

lemma MultiHeadAttention_init_Inr:
  assumes "MultiHeadAttention_init E H ini = Inr m"
  shows "0 < H" "0 < E div H" "H * (E div H) = E"
    "mha_embed_dim m = E" "mha_num_heads m = H" "mha_head_dim m = E div H"
    "mha_query m = Linear_init E E (init_query ini)"
    "mha_key m = Linear_init E E (init_key ini)"
    "mha_value m = Linear_init E E (init_value ini)"
    "mha_out m = Linear_init E E (init_out ini)"
    "mha_scale m = real (E div H) powr (- (1 / 2))"
  using assms by (auto simp: MultiHeadAttention_init_def Let_def split: if_splits)

lemma Linear_init_simps [simp]:
  "in_features (Linear_init a b i) = a" "out_features (Linear_init a b i) = b"
  by (simp_all add: Linear_init_def)

lemma head_index_less: "h < H \<Longrightarrow> d < D \<Longrightarrow> h * D + d < H * (D::nat)"
proof -
  assume h: "h < H" and d: "d < D"
  have "h * D + d < h * D + D" using d by simp
  also have "\<dots> = Suc h * D" by simp
  also have "\<dots> \<le> H * D" using h by (intro mult_le_mono1) simp
  finally show ?thesis .
qed

lemma split_heads_tabulate:
  assumes "mha_num_heads m = H" and "mha_head_dim m = D"
  shows "split_heads m B S (tabulate [B, S, H * D] (\<lambda>idx. P (idx ! 0) (idx ! 1) (idx ! 2))) =
         Inr (tabulate [B, H, S, D] (\<lambda>idx. spec_head D P (idx ! 0) (idx ! 1) (idx ! 2) (idx ! 3)))"
proof -
  let ?T = "tabulate [B, S, H * D] (\<lambda>idx. P (idx ! 0) (idx ! 1) (idx ! 2))"
  let ?V = "tabulate [B, S, H, D] (\<lambda>idx. tget ?T [idx ! 0, idx ! 1, idx ! 2 * D + idx ! 3])"
  have v: "view ?T [B, S, H, D] = Inr ?V"
    by (rule view_split) simp_all
  have t: "transpose_t 1 2 ?V =
           Inr (tabulate [B, H, S, D] (\<lambda>idx. tget ?V [idx ! 0, idx ! 2, idx ! 1, idx ! 3]))"
    by (rule transpose_12) simp
  have "tabulate [B, H, S, D] (\<lambda>idx. tget ?V [idx ! 0, idx ! 2, idx ! 1, idx ! 3]) =
        tabulate [B, H, S, D] (\<lambda>idx. spec_head D P (idx ! 0) (idx ! 1) (idx ! 2) (idx ! 3))"
  proof (rule tabulate_cong)
    fix idx assume "valid_index [B, H, S, D] idx"
    then obtain b h s d where idx: "idx = [b, h, s, d]" and b: "b < B" "h < H" "s < S" "d < D"
      by (rule valid_index4E)
    show "tget ?V [idx ! 0, idx ! 2, idx ! 1, idx ! 3] =
          spec_head D P (idx ! 0) (idx ! 1) (idx ! 2) (idx ! 3)"
      using b head_index_less[of h H d D] by (simp add: idx tget_tabulate spec_head_def)
  qed
  with v t show ?thesis
    by (simp add: split_heads_def assms)
qed

lemma MultiHeadAttention_forward_eq:
  assumes init: "MultiHeadAttention_init E H ini = Inr m" and sh: "shape x = [B, S, E]"
  shows "MultiHeadAttention_forward m x =
         Inr (tabulate [B, S, E] (\<lambda>idx. spec_result m x (idx ! 0) (idx ! 1) (idx ! 2)),
              tabulate [B, H, S, S] (\<lambda>idx. spec_weights m x (idx ! 0) (idx ! 1) (idx ! 2) (idx ! 3)))"
proof -
  define D where "D = E div H"
  note m = MultiHeadAttention_init_Inr[OF init, folded D_def]
  have E: "E = H * D" using m(3) by simp
  have D: "0 < D" using m(2) .
  define Qh where "Qh = tabulate [B, H, S, D] (\<lambda>idx.
      spec_head D (spec_project (mha_query m) x) (idx ! 0) (idx ! 1) (idx ! 2) (idx ! 3))"
  define Kh where "Kh = tabulate [B, H, S, D] (\<lambda>idx.
      spec_head D (spec_project (mha_key m) x) (idx ! 0) (idx ! 1) (idx ! 2) (idx ! 3))"
  define Vh where "Vh = tabulate [B, H, S, D] (\<lambda>idx.
      spec_head D (spec_project (mha_value m) x) (idx ! 0) (idx ! 1) (idx ! 2) (idx ! 3))"
  define KT where "KT = tabulate [B, H, D, S] (\<lambda>idx. tget Kh [idx ! 0, idx ! 1, idx ! 3, idx ! 2])"
  define QK where "QK = tabulate [B, H, S, S] (\<lambda>idx.
      \<Sum>l<D. tget Qh [idx ! 0, idx ! 1, idx ! 2, l] * tget KT [idx ! 0, idx ! 1, l, idx ! 3])"
  define SC where "SC = tabulate [B, H, S, S] (\<lambda>idx. spec_scores m x (idx ! 0) (idx ! 1) (idx ! 2) (idx ! 3))"
  define W where "W = tabulate [B, H, S, S] (\<lambda>idx. spec_weights m x (idx ! 0) (idx ! 1) (idx ! 2) (idx ! 3))"
  define C where "C = tabulate [B, H, S, D] (\<lambda>idx. spec_context m x (idx ! 0) (idx ! 1) (idx ! 2) (idx ! 3))"
  define CT where "CT = tabulate [B, S, H, D] (\<lambda>idx. tget C [idx ! 0, idx ! 2, idx ! 1, idx ! 3])"
  define M where "M = tabulate [B, S, E] (\<lambda>idx. spec_merged m x (idx ! 0) (idx ! 1) (idx ! 2))"
  define R where "R = tabulate [B, S, E] (\<lambda>idx. spec_result m x (idx ! 0) (idx ! 1) (idx ! 2))"

  have proj: "Linear_forward l x =
      Inr (tabulate [B, S, H * D] (\<lambda>idx. spec_project l x (idx ! 0) (idx ! 1) (idx ! 2)))"
    if "in_features l = E" "out_features l = E" for l
    using Linear_forward3[OF sh that(1)] that by (simp add: spec_project_def E)
  have q: "ebind (Linear_forward (mha_query m) x) (split_heads m B S) = Inr Qh"
  proof -
    have "Linear_forward (mha_query m) x =
          Inr (tabulate [B, S, H * D] (\<lambda>idx. spec_project (mha_query m) x (idx ! 0) (idx ! 1) (idx ! 2)))"
      by (rule proj) (simp_all add: m(7))
    then show ?thesis
      unfolding Qh_def by (simp only: ebind_Inr split_heads_tabulate[OF m(5) m(6)])
  qed
  have k: "ebind (Linear_forward (mha_key m) x) (split_heads m B S) = Inr Kh"
  proof -
    have "Linear_forward (mha_key m) x =
          Inr (tabulate [B, S, H * D] (\<lambda>idx. spec_project (mha_key m) x (idx ! 0) (idx ! 1) (idx ! 2)))"
      by (rule proj) (simp_all add: m(8))
    then show ?thesis
      unfolding Kh_def by (simp only: ebind_Inr split_heads_tabulate[OF m(5) m(6)])
  qed
  have v: "ebind (Linear_forward (mha_value m) x) (split_heads m B S) = Inr Vh"
  proof -
    have "Linear_forward (mha_value m) x =
          Inr (tabulate [B, S, H * D] (\<lambda>idx. spec_project (mha_value m) x (idx ! 0) (idx ! 1) (idx ! 2)))"
      by (rule proj) (simp_all add: m(9))
    then show ?thesis
      unfolding Vh_def by (simp only: ebind_Inr split_heads_tabulate[OF m(5) m(6)])
  qed
  have kt: "transpose_t (- 2) (- 1) Kh = Inr KT"
    unfolding KT_def by (rule transpose_last) (simp add: Kh_def)
  have qk: "matmul Qh KT = Inr QK"
    unfolding QK_def by (rule matmul4) (simp_all add: Qh_def KT_def)
  have sc: "tmap (\<lambda>v. v * mha_scale m) QK = SC"
    unfolding QK_def SC_def tmap_tabulate
  proof (rule tabulate_cong)
    fix idx assume "valid_index [B, H, S, S] idx"
    then obtain b h s t where idx: "idx = [b, h, s, t]" and b: "b < B" "h < H" "s < S" "t < S"
      by (rule valid_index4E)
    have "tget Qh [b, h, s, l] * tget KT [b, h, l, t] =
          spec_head D (spec_project (mha_query m) x) b h s l *
          spec_head D (spec_project (mha_key m) x) b h t l" if "l < D" for l
      using b that by (simp add: Qh_def KT_def Kh_def tget_tabulate)
    then show "(\<Sum>l<D. tget Qh [idx ! 0, idx ! 1, idx ! 2, l] * tget KT [idx ! 0, idx ! 1, l, idx ! 3]) *
               mha_scale m = spec_scores m x (idx ! 0) (idx ! 1) (idx ! 2) (idx ! 3)"
      by (simp add: idx spec_scores_def m)
  qed
  have w: "softmax SC (- 1) = Inr W"
  proof -
    have "softmax SC (- 1) = Inr (tabulate [B, H, S, S] (\<lambda>idx.
                exp (tget SC idx) / (\<Sum>k<S. exp (tget SC [idx ! 0, idx ! 1, idx ! 2, k]))))"
      by (rule softmax4) (simp add: SC_def)
    also have "tabulate [B, H, S, S] (\<lambda>idx.
                exp (tget SC idx) / (\<Sum>k<S. exp (tget SC [idx ! 0, idx ! 1, idx ! 2, k]))) = W"
      unfolding W_def
    proof (rule tabulate_cong)
      fix idx assume vi: "valid_index [B, H, S, S] idx"
      then obtain b h s t where idx: "idx = [b, h, s, t]" and b: "b < B" "h < H" "s < S" "t < S"
        by (rule valid_index4E)
      have "exp (tget SC [b, h, s, k]) = exp (spec_scores m x b h s k)" if "k < S" for k
        using b that by (simp add: SC_def tget_tabulate)
      moreover have "tget SC idx = spec_scores m x b h s t"
        using vi by (simp add: SC_def tget_tabulate) (simp add: idx)
      ultimately show "exp (tget SC idx) / (\<Sum>k<S. exp (tget SC [idx ! 0, idx ! 1, idx ! 2, k])) =
            spec_weights m x (idx ! 0) (idx ! 1) (idx ! 2) (idx ! 3)"
        by (simp add: idx spec_weights_def sh)
    qed
    finally show ?thesis .
  qed
  have c: "matmul W Vh = Inr C"
  proof -
    have "matmul W Vh = Inr (tabulate [B, H, S, D] (\<lambda>idx.
                \<Sum>l<S. tget W [idx ! 0, idx ! 1, idx ! 2, l] * tget Vh [idx ! 0, idx ! 1, l, idx ! 3]))"
      by (rule matmul4) (simp_all add: W_def Vh_def)
    also have "tabulate [B, H, S, D] (\<lambda>idx.
                \<Sum>l<S. tget W [idx ! 0, idx ! 1, idx ! 2, l] * tget Vh [idx ! 0, idx ! 1, l, idx ! 3]) = C"
      unfolding C_def
    proof (rule tabulate_cong)
      fix idx assume "valid_index [B, H, S, D] idx"
      then obtain b h s d where idx: "idx = [b, h, s, d]" and b: "b < B" "h < H" "s < S" "d < D"
        by (rule valid_index4E)
      have "tget W [b, h, s, l] * tget Vh [b, h, l, d] =
            spec_weights m x b h s l * spec_head D (spec_project (mha_value m) x) b h l d"
        if "l < S" for l
        using b that by (simp add: W_def Vh_def tget_tabulate)
      then show "(\<Sum>l<S. tget W [idx ! 0, idx ! 1, idx ! 2, l] * tget Vh [idx ! 0, idx ! 1, l, idx ! 3]) =
            spec_context m x (idx ! 0) (idx ! 1) (idx ! 2) (idx ! 3)"
        by (simp add: idx spec_context_def sh m)
    qed
    finally show ?thesis .
  qed
  have ct: "transpose_t 1 2 C = Inr CT"
    unfolding CT_def by (rule transpose_12) (simp add: C_def)
  have mg: "view (contiguous CT) [B, S, E] = Inr M"
  proof -
    have "view CT [B, S, H * D] = Inr (tabulate [B, S, H * D] (\<lambda>idx.
             tget CT [idx ! 0, idx ! 1, idx ! 2 div D, idx ! 2 mod D]))"
      by (rule view_merge) (simp_all add: CT_def D)
    also have "tabulate [B, S, H * D] (\<lambda>idx.
             tget CT [idx ! 0, idx ! 1, idx ! 2 div D, idx ! 2 mod D]) = M"
      unfolding M_def E
    proof (rule tabulate_cong)
      fix idx assume "valid_index [B, S, H * D] idx"
      then obtain b s j where idx: "idx = [b, s, j]" and b: "b < B" "s < S" "j < H * D"
        by (rule valid_index3E)
      have "j div D < H" using b(3) D by (simp add: less_mult_imp_div_less mult.commute)
      moreover have "j mod D < D" using D by simp
      ultimately show "tget CT [idx ! 0, idx ! 1, idx ! 2 div D, idx ! 2 mod D] =
            spec_merged m x (idx ! 0) (idx ! 1) (idx ! 2)"
        using b by (simp add: idx CT_def C_def tget_tabulate spec_merged_def m)
    qed
    finally show ?thesis by (simp add: contiguous_def E)
  qed
  have r: "Linear_forward (mha_out m) M = Inr R"
  proof -
    have "Linear_forward (mha_out m) M = Inr (tabulate [B, S, out_features (mha_out m)] (\<lambda>idx.
                (\<Sum>i<E. tget M [idx ! 0, idx ! 1, i] * tget (weight (mha_out m)) [idx ! 2, i])
                + tget (bias (mha_out m)) [idx ! 2]))"
      by (rule Linear_forward3) (simp_all add: M_def m)
    also have "tabulate [B, S, out_features (mha_out m)] (\<lambda>idx.
                (\<Sum>i<E. tget M [idx ! 0, idx ! 1, i] * tget (weight (mha_out m)) [idx ! 2, i])
                + tget (bias (mha_out m)) [idx ! 2]) = R"
      unfolding R_def m(10) Linear_init_simps
    proof (rule tabulate_cong)
      fix idx assume "valid_index [B, S, E] idx"
      then obtain b s j where idx: "idx = [b, s, j]" and b: "b < B" "s < S" "j < E"
        by (rule valid_index3E)
      have "tget M [b, s, i] = spec_merged m x b s i" if "i < E" for i
        using b that by (simp add: M_def tget_tabulate)
      then show "(\<Sum>i<E. tget M [idx ! 0, idx ! 1, i] *
                   tget (weight (Linear_init E E (init_out ini))) [idx ! 2, i]) +
                 tget (bias (Linear_init E E (init_out ini))) [idx ! 2] =
                 spec_result m x (idx ! 0) (idx ! 1) (idx ! 2)"
        by (simp add: idx spec_result_def m)
    qed
    finally show ?thesis .
  qed
  have "MultiHeadAttention_forward m x =
        ebind (ebind (Linear_forward (mha_query m) x) (split_heads m B S)) (\<lambda>Q.
        ebind (ebind (Linear_forward (mha_key m) x) (split_heads m B S)) (\<lambda>K.
        ebind (ebind (Linear_forward (mha_value m) x) (split_heads m B S)) (\<lambda>V.
        ebind (transpose_t (- 2) (- 1) K) (\<lambda>KT.
        ebind (matmul Q KT) (\<lambda>QK.
        ebind (softmax (tmap (\<lambda>v. v * mha_scale m) QK) (- 1)) (\<lambda>attn_weights.
        ebind (matmul attn_weights V) (\<lambda>out.
        ebind (transpose_t 1 2 out) (\<lambda>out.
        ebind (view (contiguous out) [B, S, E]) (\<lambda>out.
        ebind (Linear_forward (mha_out m) out) (\<lambda>out.
        Inr (out, attn_weights)))))))))))"
    using proj[of "mha_query m"] proj[of "mha_key m"] proj[of "mha_value m"]
    by (simp add: MultiHeadAttention_forward_def sh m Let_def)
  then have "MultiHeadAttention_forward m x = Inr (R, W)"
    by (simp only: q k v kt qk sc w c ct mg r ebind_Inr)
  then show ?thesis
    by (simp only: R_def W_def)
qed

section \<open>Multi-head attention over the range of float32\<close>

lemma fl_round_Fin: "\<bar>r\<bar> < float32_overflow \<Longrightarrow> fl_round r = Fin r"
  by (auto simp: fl_round_def)

lemma fl_sum_snoc: "fl_sum (xs @ [x]) = fl_add (fl_sum xs) x"
  by (simp add: fl_sum_def)

lemma fl_sum_Fin:
  assumes "(\<Sum>i<n. \<bar>f i\<bar>) < float32_overflow"
  shows "fl_sum (map (\<lambda>i. Fin (f i)) [0..<n]) = Fin (\<Sum>i<n. f i)"
  using assms
proof (induction n)
  case 0
  then show ?case by (simp add: fl_sum_def)
next
  case (Suc n)
  have "(\<Sum>i<n. \<bar>f i\<bar>) \<le> (\<Sum>i<Suc n. \<bar>f i\<bar>)" by simp
  then have ih: "fl_sum (map (\<lambda>i. Fin (f i)) [0..<n]) = Fin (\<Sum>i<n. f i)"
    using Suc by simp
  have "\<bar>\<Sum>i<Suc n. f i\<bar> \<le> (\<Sum>i<Suc n. \<bar>f i\<bar>)" by (rule sum_abs)
  then have "\<bar>(\<Sum>i<n. f i) + f n\<bar> < float32_overflow"
    using Suc.prems by simp
  then show ?case
    by (simp add: fl_sum_snoc ih fl_round_Fin)
qed

lemma fl_max_fold:
  "foldl fl_max (Fin a) (map Fin xs) = Fin (Max (insert a (set xs)))"
proof (induction xs arbitrary: a)
  case Nil
  then show ?case by simp
next
  case (Cons x xs)
  have "Max (insert (max a x) (set xs)) = Max (insert a (insert x (set xs)))"
    by (cases "set xs = {}") (simp_all add: max.assoc)
  then show ?case by (simp add: Cons.IH)
qed

lemma fl_max_list_Fin:
  assumes "xs \<noteq> []"
  shows "fl_max_list (map Fin xs) = Fin (Max (set xs))"
proof -
  obtain y ys where xs: "xs = y # ys" using assms by (cases xs) auto
  show ?thesis by (simp add: xs fl_max_list_def fl_max_fold)
qed


lemma map_upt_cong: "(\<And>i. i < n \<Longrightarrow> f i = g i) \<Longrightarrow> map f [0..<n] = map g [0..<n]"
  by simp

lemma Linear_forward_fl3:
  assumes "shape x = [B, S, E]" and "in_features l = E"
  shows "Linear_forward_fl l x =
         Inr (tabulate [B, S, out_features l] (\<lambda>idx. fl_project l x (idx ! 0) (idx ! 1) (idx ! 2)))"
proof -
  have "tabulate [B, S, out_features l] (\<lambda>idx.
             fl_add
               (fl_sum (map (\<lambda>i. fl_mul (tget x (butlast idx @ [i]))
                                          (Fin (tget (weight l) [last idx, i]))) [0..<E]))
               (Fin (tget (bias l) [last idx]))) =
        tabulate [B, S, out_features l] (\<lambda>idx. fl_project l x (idx ! 0) (idx ! 1) (idx ! 2))"
  proof (rule tabulate_cong)
    fix idx assume "valid_index [B, S, out_features l] idx"
    then obtain b s o' where idx: "idx = [b, s, o']"
      by (rule valid_index3E)
    show "fl_add
               (fl_sum (map (\<lambda>i. fl_mul (tget x (butlast idx @ [i]))
                                          (Fin (tget (weight l) [last idx, i]))) [0..<E]))
               (Fin (tget (bias l) [last idx])) = fl_project l x (idx ! 0) (idx ! 1) (idx ! 2)"
      by (simp add: idx fl_project_def assms(2))
  qed
  then show ?thesis using assms by (simp add: Linear_forward_fl_def)
qed

lemma matmul_fl4:
  assumes "shape a = [p, q, n, k]" and "shape b = [p, q, k, m]"
  shows "matmul_fl a b =
         Inr (tabulate [p, q, n, m] (\<lambda>idx.
                fl_sum (map (\<lambda>l. fl_mul (tget a [idx ! 0, idx ! 1, idx ! 2, l])
                                          (tget b [idx ! 0, idx ! 1, l, idx ! 3])) [0..<k])))"
proof -
  have "tabulate [p, q, n, m] (\<lambda>idx.
             fl_sum (map (\<lambda>l. fl_mul (tget a (take 2 idx @ [idx ! 2, l]))
                                       (tget b (take 2 idx @ [l, idx ! 3]))) [0..<k])) =
        tabulate [p, q, n, m] (\<lambda>idx.
                fl_sum (map (\<lambda>l. fl_mul (tget a [idx ! 0, idx ! 1, idx ! 2, l])
                                          (tget b [idx ! 0, idx ! 1, l, idx ! 3])) [0..<k]))"
  proof (rule tabulate_cong)
    fix idx assume "valid_index [p, q, n, m] idx"
    then obtain i j s t where idx: "idx = [i, j, s, t]"
      by (rule valid_index4E)
    show "fl_sum (map (\<lambda>l. fl_mul (tget a (take 2 idx @ [idx ! 2, l]))
                                       (tget b (take 2 idx @ [l, idx ! 3]))) [0..<k]) =
          fl_sum (map (\<lambda>l. fl_mul (tget a [idx ! 0, idx ! 1, idx ! 2, l])
                                          (tget b [idx ! 0, idx ! 1, l, idx ! 3])) [0..<k])"
      by (simp add: idx numeral_2_eq_2)
  qed
  then show ?thesis
    by (simp add: matmul_fl_def assms Let_def numeral_2_eq_2 numeral_3_eq_3)
qed

lemma softmax_fl4:
  assumes "shape t = [p, q, n, m]"
  shows "softmax_fl t (- 1) =
         Inr (tabulate [p, q, n, m] (\<lambda>idx.
                let row = map (\<lambda>k. tget t [idx ! 0, idx ! 1, idx ! 2, k]) [0..<m];
                    mx = fl_max_list row
                in fl_div (fl_exp (fl_sub (tget t idx) mx))
                          (fl_sum (map (\<lambda>v. fl_exp (fl_sub v mx)) row))))"
proof -
  have "tabulate [p, q, n, m] (\<lambda>idx.
                 let row = map (\<lambda>k. tget t (idx[3 := k])) [0..<m];
                     mx = fl_max_list row
                 in fl_div (fl_exp (fl_sub (tget t idx) mx))
                           (fl_sum (map (\<lambda>v. fl_exp (fl_sub v mx)) row))) =
        tabulate [p, q, n, m] (\<lambda>idx.
                let row = map (\<lambda>k. tget t [idx ! 0, idx ! 1, idx ! 2, k]) [0..<m];
                    mx = fl_max_list row
                in fl_div (fl_exp (fl_sub (tget t idx) mx))
                          (fl_sum (map (\<lambda>v. fl_exp (fl_sub v mx)) row)))"
  proof (rule tabulate_cong)
    fix idx assume "valid_index [p, q, n, m] idx"
    then obtain i j s u where idx: "idx = [i, j, s, u]"
      by (rule valid_index4E)
    show "(let row = map (\<lambda>k. tget t (idx[3 := k])) [0..<m];
                     mx = fl_max_list row
                 in fl_div (fl_exp (fl_sub (tget t idx) mx))
                           (fl_sum (map (\<lambda>v. fl_exp (fl_sub v mx)) row))) =
          (let row = map (\<lambda>k. tget t [idx ! 0, idx ! 1, idx ! 2, k]) [0..<m];
                    mx = fl_max_list row
                in fl_div (fl_exp (fl_sub (tget t idx) mx))
                          (fl_sum (map (\<lambda>v. fl_exp (fl_sub v mx)) row)))"
      by (simp add: idx numeral_3_eq_3)
  qed
  then show ?thesis
    by (simp add: softmax_fl_def norm_dim_def assms numeral_3_eq_3)
qed

lemma MultiHeadAttention_forward_fl_eq:
  assumes init: "MultiHeadAttention_init E H ini = Inr m" and sh: "shape x = [B, S, E]"
  shows "\<exists>out. MultiHeadAttention_forward_fl m x =
           Inr (out, tabulate [B, H, S, S] (\<lambda>idx. fl_weights m x (idx ! 0) (idx ! 1) (idx ! 2) (idx ! 3)))"
proof -
  define D where "D = E div H"
  note m = MultiHeadAttention_init_Inr[OF init, folded D_def]
  have E: "E = H * D" using m(3) by simp
  have D: "0 < D" using m(2) .
  define Qh where "Qh = tabulate [B, H, S, D] (\<lambda>idx.
      spec_head D (fl_project (mha_query m) x) (idx ! 0) (idx ! 1) (idx ! 2) (idx ! 3))"
  define Kh where "Kh = tabulate [B, H, S, D] (\<lambda>idx.
      spec_head D (fl_project (mha_key m) x) (idx ! 0) (idx ! 1) (idx ! 2) (idx ! 3))"
  define Vh where "Vh = tabulate [B, H, S, D] (\<lambda>idx.
      spec_head D (fl_project (mha_value m) x) (idx ! 0) (idx ! 1) (idx ! 2) (idx ! 3))"
  define KT where "KT = tabulate [B, H, D, S] (\<lambda>idx. tget Kh [idx ! 0, idx ! 1, idx ! 3, idx ! 2])"
  define QK where "QK = tabulate [B, H, S, S] (\<lambda>idx.
      fl_sum (map (\<lambda>l. fl_mul (tget Qh [idx ! 0, idx ! 1, idx ! 2, l])
                                (tget KT [idx ! 0, idx ! 1, l, idx ! 3])) [0..<D]))"
  define SC where "SC = tabulate [B, H, S, S] (\<lambda>idx. fl_scores m x (idx ! 0) (idx ! 1) (idx ! 2) (idx ! 3))"
  define W where "W = tabulate [B, H, S, S] (\<lambda>idx. fl_weights m x (idx ! 0) (idx ! 1) (idx ! 2) (idx ! 3))"
  define C where "C = tabulate [B, H, S, D] (\<lambda>idx.
      fl_sum (map (\<lambda>l. fl_mul (tget W [idx ! 0, idx ! 1, idx ! 2, l])
                                (tget Vh [idx ! 0, idx ! 1, l, idx ! 3])) [0..<S]))"
  define CT where "CT = tabulate [B, S, H, D] (\<lambda>idx. tget C [idx ! 0, idx ! 2, idx ! 1, idx ! 3])"
  define M where "M = tabulate [B, S, H * D] (\<lambda>idx.
      tget CT [idx ! 0, idx ! 1, idx ! 2 div D, idx ! 2 mod D])"
  define R where "R = tabulate [B, S, out_features (mha_out m)] (\<lambda>idx.
      fl_project (mha_out m) M (idx ! 0) (idx ! 1) (idx ! 2))"

  have proj: "Linear_forward_fl l x =
      Inr (tabulate [B, S, H * D] (\<lambda>idx. fl_project l x (idx ! 0) (idx ! 1) (idx ! 2)))"
    if "in_features l = E" "out_features l = E" for l
    using Linear_forward_fl3[OF sh that(1)] that by (simp add: E)
  have hd: "ebind (Linear_forward_fl l x) (split_heads m B S) =
      Inr (tabulate [B, H, S, D] (\<lambda>idx.
        spec_head D (fl_project l x) (idx ! 0) (idx ! 1) (idx ! 2) (idx ! 3)))"
    if "in_features l = E" "out_features l = E" for l
    unfolding proj[OF that] by (simp only: ebind_Inr split_heads_tabulate[OF m(5) m(6)])
  have q: "ebind (Linear_forward_fl (mha_query m) x) (split_heads m B S) = Inr Qh"
    unfolding Qh_def by (rule hd) (simp_all add: m(7))
  have k: "ebind (Linear_forward_fl (mha_key m) x) (split_heads m B S) = Inr Kh"
    unfolding Kh_def by (rule hd) (simp_all add: m(8))
  have v: "ebind (Linear_forward_fl (mha_value m) x) (split_heads m B S) = Inr Vh"
    unfolding Vh_def by (rule hd) (simp_all add: m(9))
  have kt: "transpose_t (- 2) (- 1) Kh = Inr KT"
    unfolding KT_def by (rule transpose_last) (simp add: Kh_def)
  have qk: "matmul_fl Qh KT = Inr QK"
    unfolding QK_def by (rule matmul_fl4) (simp_all add: Qh_def KT_def)
  have sc: "tmap (\<lambda>v. fl_mul v (Fin (mha_scale m))) QK = SC"
    unfolding QK_def SC_def tmap_tabulate
  proof (rule tabulate_cong)
    fix idx assume "valid_index [B, H, S, S] idx"
    then obtain b h s t where idx: "idx = [b, h, s, t]" and b: "b < B" "h < H" "s < S" "t < S"
      by (rule valid_index4E)
    have mp: "map (\<lambda>l. fl_mul (tget Qh [b, h, s, l]) (tget KT [b, h, l, t])) [0..<D] =
          map (\<lambda>l. fl_mul (spec_head D (fl_project (mha_query m) x) b h s l)
                          (spec_head D (fl_project (mha_key m) x) b h t l)) [0..<D]"
      by (rule map_upt_cong) (use b in \<open>simp add: Qh_def KT_def Kh_def tget_tabulate\<close>)
    show "fl_mul (fl_sum (map (\<lambda>l. fl_mul (tget Qh [idx ! 0, idx ! 1, idx ! 2, l])
                                (tget KT [idx ! 0, idx ! 1, l, idx ! 3])) [0..<D])) (Fin (mha_scale m)) =
               fl_scores m x (idx ! 0) (idx ! 1) (idx ! 2) (idx ! 3)"
      by (simp add: idx fl_scores_def m(6) mp)
  qed
  have w: "softmax_fl SC (- 1) = Inr W"
  proof -
    have "softmax_fl SC (- 1) = Inr (tabulate [B, H, S, S] (\<lambda>idx.
                let row = map (\<lambda>k. tget SC [idx ! 0, idx ! 1, idx ! 2, k]) [0..<S];
                    mx = fl_max_list row
                in fl_div (fl_exp (fl_sub (tget SC idx) mx))
                          (fl_sum (map (\<lambda>v. fl_exp (fl_sub v mx)) row))))"
      by (rule softmax_fl4) (simp add: SC_def)
    also have "tabulate [B, H, S, S] (\<lambda>idx.
                let row = map (\<lambda>k. tget SC [idx ! 0, idx ! 1, idx ! 2, k]) [0..<S];
                    mx = fl_max_list row
                in fl_div (fl_exp (fl_sub (tget SC idx) mx))
                          (fl_sum (map (\<lambda>v. fl_exp (fl_sub v mx)) row))) = W"
      unfolding W_def
    proof (rule tabulate_cong)
      fix idx assume vi: "valid_index [B, H, S, S] idx"
      then obtain b h s t where idx: "idx = [b, h, s, t]" and b: "b < B" "h < H" "s < S" "t < S"
        by (rule valid_index4E)
      have r: "map (\<lambda>k. tget SC [b, h, s, k]) [0..<S] = map (\<lambda>k. fl_scores m x b h s k) [0..<S]"
        by (rule map_upt_cong) (use b in \<open>simp add: SC_def tget_tabulate\<close>)
      have e: "tget SC idx = fl_scores m x b h s t"
        using vi by (simp add: SC_def tget_tabulate) (simp add: idx)
      show "(let row = map (\<lambda>k. tget SC [idx ! 0, idx ! 1, idx ! 2, k]) [0..<S];
                    mx = fl_max_list row
                in fl_div (fl_exp (fl_sub (tget SC idx) mx))
                          (fl_sum (map (\<lambda>v. fl_exp (fl_sub v mx)) row))) =
            fl_weights m x (idx ! 0) (idx ! 1) (idx ! 2) (idx ! 3)"
        unfolding e by (simp add: idx r fl_weights_def sh)
    qed
    finally show ?thesis .
  qed
  have c: "matmul_fl W Vh = Inr C"
    unfolding C_def by (rule matmul_fl4) (simp_all add: W_def Vh_def)
  have ct: "transpose_t 1 2 C = Inr CT"
    unfolding CT_def by (rule transpose_12) (simp add: C_def)
  have mg: "view (contiguous CT) [B, S, E] = Inr M"
    unfolding contiguous_def E M_def by (rule view_merge) (simp_all add: CT_def D)
  have r: "Linear_forward_fl (mha_out m) M = Inr R"
    unfolding R_def by (rule Linear_forward_fl3[where E = "H * D"]) (simp_all add: M_def m(10) m(3))
  have "MultiHeadAttention_forward_fl m x =
        ebind (ebind (Linear_forward_fl (mha_query m) x) (split_heads m B S)) (\<lambda>Q.
        ebind (ebind (Linear_forward_fl (mha_key m) x) (split_heads m B S)) (\<lambda>K.
        ebind (ebind (Linear_forward_fl (mha_value m) x) (split_heads m B S)) (\<lambda>V.
        ebind (transpose_t (- 2) (- 1) K) (\<lambda>KT.
        ebind (matmul_fl Q KT) (\<lambda>QK.
        ebind (softmax_fl (tmap (\<lambda>v. fl_mul v (Fin (mha_scale m))) QK) (- 1)) (\<lambda>attn_weights.
        ebind (matmul_fl attn_weights V) (\<lambda>out.
        ebind (transpose_t 1 2 out) (\<lambda>out.
        ebind (view (contiguous out) [B, S, E]) (\<lambda>out.
        ebind (Linear_forward_fl (mha_out m) out) (\<lambda>out.
        Inr (out, attn_weights)))))))))))"
    using proj[of "mha_query m"] proj[of "mha_key m"] proj[of "mha_value m"]
    by (simp add: MultiHeadAttention_forward_fl_def sh m Let_def)
  then have "MultiHeadAttention_forward_fl m x = Inr (R, W)"
    by (simp only: q k v kt qk sc w c ct mg r ebind_Inr)
  then show ?thesis
    unfolding W_def by blast
qed


lemma float32_overflow_gt_1: "1 < float32_overflow"
  by (simp add: float32_overflow_def)

lemma tget_in_data:
  assumes "wf x" and "valid_index (shape x) idx"
  shows "tget x idx \<in> set (data x)"
  using offset_less[OF assms(2)] assms(1) by (simp add: tget_def wf_def)

lemma fl_project_Fin:
  assumes wf: "wf x" and sh: "shape x = [B, S, E]" and l: "in_features l = E"
    and b: "b < B" "s < S"
    and X: "\<forall>v\<in>set (data x). \<bar>v\<bar> \<le> X"
    and W: "\<forall>i<E. \<bar>tget (weight l) [j, i]\<bar> \<le> Wm" and Bb: "\<bar>tget (bias l) [j]\<bar> \<le> Wm"
    and Q: "real E * X * Wm + Wm \<le> Q" and ov: "Q < float32_overflow"
  shows "fl_project l (tmap Fin x) b s j = Fin (spec_project l x b s j) \<and>
         \<bar>spec_project l x b s j\<bar> \<le> Q"
proof -
  let ?a = "\<lambda>i. tget x [b, s, i] * tget (weight l) [j, i]"
  have Wm: "0 \<le> Wm" using Bb by linarith
  have a: "\<bar>?a i\<bar> \<le> X * Wm" if "i < E" for i
  proof -
    have "tget x [b, s, i] \<in> set (data x)"
      by (rule tget_in_data[OF wf]) (simp add: sh b that)
    then have "\<bar>tget x [b, s, i]\<bar> \<le> X" using X by blast
    moreover have "\<bar>tget (weight l) [j, i]\<bar> \<le> Wm" using W that by blast
    ultimately show ?thesis
      unfolding abs_mult by (intro mult_mono) auto
  qed
  have sm: "(\<Sum>i<E. \<bar>?a i\<bar>) \<le> real E * X * Wm"
  proof -
    have "(\<Sum>i<E. \<bar>?a i\<bar>) \<le> (\<Sum>i<E. X * Wm)"
      by (rule sum_mono) (use a in auto)
    then show ?thesis by (simp add: mult.assoc)
  qed
  have g: "tget (tmap Fin x) [b, s, i] = Fin (tget x [b, s, i])" if "i < E" for i
    by (rule tget_tmap') (simp_all add: sh b that wf)
  have p: "fl_mul (tget (tmap Fin x) [b, s, i]) (Fin (tget (weight l) [j, i])) = Fin (?a i)"
    if "i < E" for i
  proof -
    have "\<bar>?a i\<bar> \<le> (\<Sum>i<E. \<bar>?a i\<bar>)"
      using that by (intro member_le_sum) auto
    then have "\<bar>?a i\<bar> < float32_overflow"
      using sm Q ov Wm by linarith
    then show ?thesis
      by (simp add: g[OF that] fl_round_Fin)
  qed
  have mp: "map (\<lambda>i. fl_mul (tget (tmap Fin x) [b, s, i]) (Fin (tget (weight l) [j, i]))) [0..<E] =
        map (\<lambda>i. Fin (?a i)) [0..<E]"
    by (rule map_upt_cong) (rule p)
  have fs: "fl_sum (map (\<lambda>i. Fin (?a i)) [0..<E]) = Fin (\<Sum>i<E. ?a i)"
    by (rule fl_sum_Fin) (use sm Q ov Wm in linarith)
  have ab: "\<bar>(\<Sum>i<E. ?a i) + tget (bias l) [j]\<bar> \<le> Q"
  proof -
    have "\<bar>\<Sum>i<E. ?a i\<bar> \<le> (\<Sum>i<E. \<bar>?a i\<bar>)" by (rule sum_abs)
    then show ?thesis using sm Q Bb by linarith
  qed
  have "fl_project l (tmap Fin x) b s j = Fin ((\<Sum>i<E. ?a i) + tget (bias l) [j])"
    unfolding fl_project_def l mp fs using ab ov by (simp add: fl_round_Fin)
  then show ?thesis
    using ab by (simp add: spec_project_def l)
qed

lemma fl_dot_Fin:
  assumes q: "\<forall>d<D. \<bar>q d\<bar> \<le> Q" and k: "\<forall>d<D. \<bar>k d\<bar> \<le> Q"
    and sc: "0 \<le> c" "c \<le> 1"
    and ov: "real D * Q\<^sup>2 < float32_overflow"
  shows "fl_mul (fl_sum (map (\<lambda>d. fl_mul (Fin (q d)) (Fin (k d))) [0..<D])) (Fin c) =
           Fin ((\<Sum>d<D. q d * k d) * c) \<and>
         \<bar>(\<Sum>d<D. q d * k d) * c\<bar> \<le> real D * Q\<^sup>2"
proof -
  have a: "\<bar>q d * k d\<bar> \<le> Q\<^sup>2" if "d < D" for d
  proof -
    have "\<bar>q d\<bar> * \<bar>k d\<bar> \<le> Q * Q"
      using q k that by (intro mult_mono) auto
    then show ?thesis by (simp add: abs_mult power2_eq_square)
  qed
  have sm: "(\<Sum>d<D. \<bar>q d * k d\<bar>) \<le> real D * Q\<^sup>2"
  proof -
    have "(\<Sum>d<D. \<bar>q d * k d\<bar>) \<le> (\<Sum>d<D. Q\<^sup>2)"
      by (rule sum_mono) (use a in auto)
    then show ?thesis by simp
  qed
  have p: "fl_mul (Fin (q d)) (Fin (k d)) = Fin (q d * k d)" if "d < D" for d
  proof -
    have "\<bar>q d * k d\<bar> \<le> (\<Sum>d<D. \<bar>q d * k d\<bar>)"
      using that by (intro member_le_sum) auto
    then show ?thesis using sm ov by (simp add: fl_round_Fin)
  qed
  have mp: "map (\<lambda>d. fl_mul (Fin (q d)) (Fin (k d))) [0..<D] = map (\<lambda>d. Fin (q d * k d)) [0..<D]"
    by (rule map_upt_cong) (rule p)
  have fs: "fl_sum (map (\<lambda>d. Fin (q d * k d)) [0..<D]) = Fin (\<Sum>d<D. q d * k d)"
    by (rule fl_sum_Fin) (use sm ov in linarith)
  have ab: "\<bar>(\<Sum>d<D. q d * k d) * c\<bar> \<le> real D * Q\<^sup>2"
  proof -
    have "\<bar>\<Sum>d<D. q d * k d\<bar> \<le> (\<Sum>d<D. \<bar>q d * k d\<bar>)" by (rule sum_abs)
    then have "\<bar>\<Sum>d<D. q d * k d\<bar> \<le> real D * Q\<^sup>2" using sm by linarith
    moreover have "\<bar>(\<Sum>d<D. q d * k d) * c\<bar> = \<bar>\<Sum>d<D. q d * k d\<bar> * c"
      using sc by (simp add: abs_mult)
    moreover have "\<bar>\<Sum>d<D. q d * k d\<bar> * c \<le> \<bar>\<Sum>d<D. q d * k d\<bar> * 1"
      using sc by (intro mult_left_mono) auto
    ultimately show ?thesis by linarith
  qed
  show ?thesis
    unfolding mp fs using ab ov by (simp add: fl_round_Fin)
qed

lemma fl_softmax_row:
  fixes sc :: "nat \<Rightarrow> real"
  assumes S: "0 < S" and C: "\<forall>k<S. \<bar>sc k\<bar> \<le> C" and ov: "2 * C < float32_overflow"
    and Sov: "real S < float32_overflow"
  shows "\<exists>p. (\<forall>t<S.
            (let row = map (\<lambda>k. Fin (sc k)) [0..<S]; mx = fl_max_list row
             in fl_div (fl_exp (fl_sub (Fin (sc t)) mx))
                       (fl_sum (map (\<lambda>v. fl_exp (fl_sub v mx)) row))) = Fin (p t) \<and> 0 \<le> p t) \<and>
          (\<Sum>t<S. p t) = 1"
proof -
  define M where "M = Max (sc ` {0..<S})"
  define e where "e = (\<lambda>k. exp (sc k - M))"
  define Z where "Z = (\<Sum>k<S. e k)"
  have ne: "sc ` {0..<S} \<noteq> {}" using S by simp
  have "M \<in> sc ` {0..<S}" unfolding M_def by (rule Max_in) (use ne in auto)
  then obtain k0 where k0: "k0 < S" "sc k0 = M" by auto
  have le: "sc k \<le> M" if "k < S" for k
    unfolding M_def by (rule Max_ge) (use that in auto)
  have mx: "fl_max_list (map (\<lambda>k. Fin (sc k)) [0..<S]) = Fin M"
  proof -
    have "fl_max_list (map Fin (map sc [0..<S])) = Fin (Max (set (map sc [0..<S])))"
      by (rule fl_max_list_Fin) (use S in simp)
    then show ?thesis
      by (simp add: M_def comp_def)
  qed
  have e1: "0 < e k" "e k \<le> 1" if "k < S" for k
    using le[OF that] by (simp_all add: e_def)
  have ex: "fl_exp (fl_sub (Fin (sc k)) (Fin M)) = Fin (e k)" if "k < S" for k
  proof -
    have "\<bar>sc k\<bar> \<le> C" "\<bar>M\<bar> \<le> C" using C that k0 by auto
    then have "\<bar>sc k - M\<bar> < float32_overflow" using ov by linarith
    then have "fl_sub (Fin (sc k)) (Fin M) = Fin (sc k - M)"
      by (simp add: fl_sub_def fl_round_Fin)
    moreover have "\<bar>e k\<bar> < float32_overflow"
      using e1[OF that] float32_overflow_gt_1 by linarith
    ultimately show ?thesis
      by (simp add: fl_round_Fin e_def)
  qed
  have Zle: "Z \<le> real S"
  proof -
    have "Z \<le> (\<Sum>k<S. 1)" unfolding Z_def by (rule sum_mono) (use e1 in auto)
    then show ?thesis by simp
  qed
  have Zge: "1 \<le> Z"
  proof -
    have "e k0 \<le> Z" unfolding Z_def
      by (rule member_le_sum) (use k0 e1 in \<open>auto intro: less_imp_le\<close>)
    then show ?thesis using k0 by (simp add: e_def)
  qed
  have sm: "fl_sum (map (\<lambda>v. fl_exp (fl_sub v (Fin M))) (map (\<lambda>k. Fin (sc k)) [0..<S])) = Fin Z"
  proof -
    have "map (\<lambda>v. fl_exp (fl_sub v (Fin M))) (map (\<lambda>k. Fin (sc k)) [0..<S]) =
          map (\<lambda>k. fl_exp (fl_sub (Fin (sc k)) (Fin M))) [0..<S]"
      by (simp add: comp_def)
    also have "\<dots> = map (\<lambda>k. Fin (e k)) [0..<S]"
      by (rule map_upt_cong) (rule ex)
    finally have "map (\<lambda>v. fl_exp (fl_sub v (Fin M))) (map (\<lambda>k. Fin (sc k)) [0..<S]) =
          map (\<lambda>k. Fin (e k)) [0..<S]" .
    moreover have "(\<Sum>k<S. \<bar>e k\<bar>) = Z"
      unfolding Z_def by (rule sum.cong) (use e1 in \<open>auto simp: abs_of_pos\<close>)
    then have "fl_sum (map (\<lambda>k. Fin (e k)) [0..<S]) = Fin (\<Sum>k<S. e k)"
      by (intro fl_sum_Fin) (use Zle Sov in linarith)
    ultimately show ?thesis by (simp only: Z_def)
  qed
  have dv: "fl_div (Fin (e t)) (Fin Z) = Fin (e t / Z)" "0 \<le> e t / Z" if "t < S" for t
  proof -
    have "0 \<le> e t / Z" using e1[OF that] Zge by simp
    moreover have "e t / Z \<le> 1" using e1[OF that] Zge by simp
    ultimately have "\<bar>e t / Z\<bar> < float32_overflow"
      using float32_overflow_gt_1 by linarith
    then show "fl_div (Fin (e t)) (Fin Z) = Fin (e t / Z)"
      using Zge by (simp add: fl_round_Fin)
    show "0 \<le> e t / Z" by fact
  qed
  have one: "(\<Sum>t<S. e t / Z) = 1"
    using Zge by (simp add: sum_divide_distrib[symmetric] Z_def[symmetric])
  have main: "(let row = map (\<lambda>k. Fin (sc k)) [0..<S]; mx = fl_max_list row
             in fl_div (fl_exp (fl_sub (Fin (sc t)) mx))
                       (fl_sum (map (\<lambda>v. fl_exp (fl_sub v mx)) row))) = Fin (e t / Z) \<and>
          0 \<le> e t / Z" if "t < S" for t
    unfolding Let_def mx sm ex[OF that] using dv[OF that] by simp
  show ?thesis
    by (rule exI[of _ "\<lambda>t. e t / Z"]) (use main one in blast)
qed

lemma scale_le_1: "0 < D \<Longrightarrow> 0 \<le> real D powr (- (1 / 2)) \<and> real D powr (- (1 / 2)) \<le> 1"
proof
  assume D: "0 < D"
  show "0 \<le> real D powr (- (1 / 2))" by simp
  have "real D powr (- (1 / 2)) \<le> real D powr 0"
    by (rule powr_mono) (use D in auto)
  then show "real D powr (- (1 / 2)) \<le> 1" using D by simp
qed

lemma fl_weights_Fin:
  assumes init: "MultiHeadAttention_init E H ini = Inr m" and sh: "shape x = [B, S, E]"
    and wf: "wf x"
    and X: "\<forall>v\<in>set (data x). \<bar>v\<bar> \<le> X"
    and W: "\<forall>j<E. \<forall>i<E. \<bar>fst (init_query ini) j i\<bar> \<le> Wm \<and> \<bar>fst (init_key ini) j i\<bar> \<le> Wm"
    and Bb: "\<forall>j<E. \<bar>snd (init_query ini) j\<bar> \<le> Wm \<and> \<bar>snd (init_key ini) j\<bar> \<le> Wm"
    and Q: "real E * X * Wm + Wm \<le> Q"
    and ov: "2 * (real (E div H) * Q\<^sup>2) < float32_overflow"
    and Sov: "real S < float32_overflow"
    and b: "b < B" "h < H" "s < S"
  shows "\<exists>p. (\<forall>t<S. fl_weights m (tmap Fin x) b h s t = Fin (p t) \<and> 0 \<le> p t) \<and> (\<Sum>t<S. p t) = 1"
proof -
  define D where "D = E div H"
  note m = MultiHeadAttention_init_Inr[OF init, folded D_def]
  have E: "E = H * D" using m(3) by simp
  have D: "0 < D" using m(2) .
  have DQ0: "0 \<le> real D * Q\<^sup>2" by simp
  have DQ: "real D * Q\<^sup>2 < float32_overflow"
    using ov DQ0 unfolding D_def[symmetric] by linarith
  have Qov: "Q < float32_overflow"
  proof (cases "Q \<le> 1")
    case True
    then show ?thesis using float32_overflow_gt_1 by linarith
  next
    case False
    then have "Q * 1 \<le> Q * Q" by (intro mult_left_mono) auto
    also have "\<dots> = 1 * Q\<^sup>2" by (simp add: power2_eq_square)
    also have "\<dots> \<le> real D * Q\<^sup>2" using D by (intro mult_right_mono) auto
    finally show ?thesis using DQ by linarith
  qed
  have proj: "fl_project l (tmap Fin x) b u j = Fin (spec_project l x b u j) \<and>
              \<bar>spec_project l x b u j\<bar> \<le> Q"
    if l: "l = mha_query m \<or> l = mha_key m" and u: "u < S" and j: "j < E" for l u j
  proof (rule fl_project_Fin[OF wf sh _ b(1) u X _ _ Q Qov])
    show "in_features l = E" using l by (auto simp: m(7,8))
    show "\<forall>i<E. \<bar>tget (weight l) [j, i]\<bar> \<le> Wm"
      using l W j by (auto simp: m(7,8) Linear_init_def tget_tabulate)
    show "\<bar>tget (bias l) [j]\<bar> \<le> Wm"
      using l Bb j by (auto simp: m(7,8) Linear_init_def tget_tabulate)
  qed
  have sc: "fl_scores m (tmap Fin x) b h s t = Fin (spec_scores m x b h s t) \<and>
            \<bar>spec_scores m x b h s t\<bar> \<le> real D * Q\<^sup>2" if t: "t < S" for t
  proof -
    let ?q = "\<lambda>d. spec_project (mha_query m) x b s (h * D + d)"
    let ?k = "\<lambda>d. spec_project (mha_key m) x b t (h * D + d)"
    have j: "h * D + d < E" if "d < D" for d
      unfolding E by (rule head_index_less[OF b(2) that])
    have mp: "map (\<lambda>d. fl_mul (fl_project (mha_query m) (tmap Fin x) b s (h * D + d))
                               (fl_project (mha_key m) (tmap Fin x) b t (h * D + d))) [0..<D] =
              map (\<lambda>d. fl_mul (Fin (?q d)) (Fin (?k d))) [0..<D]"
      by (rule map_upt_cong) (simp add: proj j b(3) t)
    have "fl_mul (fl_sum (map (\<lambda>d. fl_mul (Fin (?q d)) (Fin (?k d))) [0..<D]))
                 (Fin (real D powr (- (1 / 2)))) =
           Fin ((\<Sum>d<D. ?q d * ?k d) * real D powr (- (1 / 2))) \<and>
         \<bar>(\<Sum>d<D. ?q d * ?k d) * real D powr (- (1 / 2))\<bar> \<le> real D * Q\<^sup>2"
    proof (rule fl_dot_Fin)
      show "\<forall>d<D. \<bar>?q d\<bar> \<le> Q" using proj[of "mha_query m" s] j b(3) by blast
      show "\<forall>d<D. \<bar>?k d\<bar> \<le> Q" using proj[of "mha_key m" t] j t by blast
      show "0 \<le> real D powr (- (1 / 2))" "real D powr (- (1 / 2)) \<le> 1"
        using scale_le_1[OF D] by blast+
      show "real D * Q\<^sup>2 < float32_overflow" by (rule DQ)
    qed
    then show ?thesis
      unfolding fl_scores_def spec_scores_def spec_head_def m(6) m(11) mp .
  qed
  have S: "0 < S" using b(3) by simp
  have row: "map (\<lambda>k. fl_scores m (tmap Fin x) b h s k) [0..<S] =
             map (\<lambda>k. Fin (spec_scores m x b h s k)) [0..<S]"
    by (rule map_upt_cong) (simp add: sc)
  have "\<exists>p. (\<forall>t<S.
            (let row = map (\<lambda>k. Fin (spec_scores m x b h s k)) [0..<S]; mx = fl_max_list row
             in fl_div (fl_exp (fl_sub (Fin (spec_scores m x b h s t)) mx))
                       (fl_sum (map (\<lambda>v. fl_exp (fl_sub v mx)) row))) = Fin (p t) \<and> 0 \<le> p t) \<and>
          (\<Sum>t<S. p t) = 1"
  proof (rule fl_softmax_row[OF S _ _ Sov])
    show "\<forall>k<S. \<bar>spec_scores m x b h s k\<bar> \<le> real D * Q\<^sup>2" using sc by blast
    show "2 * (real D * Q\<^sup>2) < float32_overflow" using ov unfolding D_def .
  qed
  then obtain p where p: "\<And>t. t < S \<Longrightarrow>
            (let row = map (\<lambda>k. Fin (spec_scores m x b h s k)) [0..<S]; mx = fl_max_list row
             in fl_div (fl_exp (fl_sub (Fin (spec_scores m x b h s t)) mx))
                       (fl_sum (map (\<lambda>v. fl_exp (fl_sub v mx)) row))) = Fin (p t) \<and> 0 \<le> p t"
    and one: "(\<Sum>t<S. p t) = 1"
    by blast
  have "fl_weights m (tmap Fin x) b h s t = Fin (p t) \<and> 0 \<le> p t" if t: "t < S" for t
  proof -
    have "shape (tmap Fin x) ! 1 = S" by (simp add: sh)
    then have "fl_weights m (tmap Fin x) b h s t =
        (let row = map (\<lambda>k. Fin (spec_scores m x b h s k)) [0..<S]; mx = fl_max_list row
             in fl_div (fl_exp (fl_sub (Fin (spec_scores m x b h s t)) mx))
                       (fl_sum (map (\<lambda>v. fl_exp (fl_sub v mx)) row)))"
      unfolding fl_weights_def by (simp only: row conjunct1[OF sc[OF t]])
    then show ?thesis using p[OF t] by simp
  qed
  with one show ?thesis by blast
qed

section \<open>Claims about multi-head attention\<close>

text \<open>
  C1. For every input \<open>x\<close> of shape (batch, seq_length, embed_dim), the forward pass of
  the Lesson 4 \<open>MultiHeadAttention\<close> returns a pair (result, weights) that is the
  one the specification describes: projections, split into heads of size head_dim,
  scores \<open>Q\<cdot>K\<^sup>T\<close> scaled by \<open>head_dim^(-0.5)\<close>, softmax over the keys, weighted
  sum of the values, heads merged in head order, output projection; and the result has
  the shape of \<open>x\<close>.
\<close>

theorem attention_forward_refines_spec:
  assumes "MultiHeadAttention_init E H ini = Inr m" and "shape x = [B, S, E]"
  shows "\<exists>result weights. MultiHeadAttention_forward m x = Inr (result, weights) \<and>
           (result, weights) = spec_attention m x \<and> shape result = shape x"
  using MultiHeadAttention_forward_eq[OF assms] MultiHeadAttention_init_Inr(4,5)[OF assms(1)] assms(2)
  by (simp add: spec_attention_def)

theorem attention_forward_refines_spec_witness:
  "\<exists>m result weights. MultiHeadAttention_init 2 1 zero_mha = Inr m \<and> shape (ones3 1 2 2) = [1, 2, 2] \<and>
      MultiHeadAttention_forward m (ones3 1 2 2) = Inr (result, weights) \<and>
      (result, weights) = spec_attention m (ones3 1 2 2) \<and> shape result = [1, 2, 2]"
proof -
  obtain m where m: "MultiHeadAttention_init 2 1 zero_mha = Inr m"
    by (simp add: MultiHeadAttention_init_def)
  have s: "shape (ones3 1 2 2) = [1, 2, 2]"
    by (simp add: ones3_def)
  show ?thesis
    using attention_forward_refines_spec[OF m s] m s by auto
qed

text \<open>
  C4, as the code has it. For every input whose entries have magnitude at most \<open>X\<close>,
  when the query and key parameters have magnitude at most \<open>W\<close> and, with
  \<open>Q = embed_dim * X * W + W\<close>, twice \<open>head_dim * Q\<^sup>2\<close> and the sequence length stay
  below the overflow threshold of float32 (so that no projection, score or sum leaves
  its range), the forward pass returns attention weights that are finite and
  non-negative and, for every query position of every head, sum to 1 over the key
  positions (exactly, as rounding within the range is not modelled).
\<close>

theorem attention_weights_within_range:
  assumes "MultiHeadAttention_init E H ini = Inr m" and "shape x = [B, S, E]" and "wf x"
    and "\<forall>v\<in>set (data x). \<bar>v\<bar> \<le> X"
    and "\<forall>j<E. \<forall>i<E. \<bar>fst (init_query ini) j i\<bar> \<le> W \<and> \<bar>fst (init_key ini) j i\<bar> \<le> W"
    and "\<forall>j<E. \<bar>snd (init_query ini) j\<bar> \<le> W \<and> \<bar>snd (init_key ini) j\<bar> \<le> W"
    and "real E * X * W + W \<le> Q"
    and "2 * (real (E div H) * Q\<^sup>2) < float32_overflow"
    and "real S < float32_overflow"
  shows "\<exists>out weights. MultiHeadAttention_forward_fl m (tmap Fin x) = Inr (out, weights) \<and>
           (\<forall>b<B. \<forall>h<H. \<forall>s<S. \<exists>p.
              (\<forall>t<S. tget weights [b, h, s, t] = Fin (p t) \<and> 0 \<le> p t) \<and> (\<Sum>t<S. p t) = 1)"
proof -
  let ?W = "tabulate [B, H, S, S] (\<lambda>idx.
      fl_weights m (tmap Fin x) (idx ! 0) (idx ! 1) (idx ! 2) (idx ! 3))"
  have sh: "shape (tmap Fin x) = [B, S, E]" using assms(2) by simp
  obtain out where out: "MultiHeadAttention_forward_fl m (tmap Fin x) = Inr (out, ?W)"
    using MultiHeadAttention_forward_fl_eq[OF assms(1) sh] by blast
  have w: "tget ?W [b, h, s, t] = fl_weights m (tmap Fin x) b h s t"
    if "b < B" "h < H" "s < S" "t < S" for b h s t
    using that by (simp add: tget_tabulate)
  have "\<exists>p. (\<forall>t<S. tget ?W [b, h, s, t] = Fin (p t) \<and> 0 \<le> p t) \<and> (\<Sum>t<S. p t) = 1"
    if b: "b < B" "h < H" "s < S" for b h s
  proof -
    obtain p where p: "\<forall>t<S. fl_weights m (tmap Fin x) b h s t = Fin (p t) \<and> 0 \<le> p t"
      and one: "(\<Sum>t<S. p t) = 1"
      using fl_weights_Fin[OF assms b] by blast
    have "\<forall>t<S. tget ?W [b, h, s, t] = Fin (p t) \<and> 0 \<le> p t"
      using p w[OF b] by simp
    with one show ?thesis by blast
  qed
  with out show ?thesis by blast
qed

theorem attention_weights_within_range_witness:
  "\<exists>m out weights p. MultiHeadAttention_init 1 1 ones_mha = Inr m \<and>
      shape (ones3 1 2 1) = [1, 2, 1] \<and> wf (ones3 1 2 1) \<and>
      real 1 * 1 * 1 + 1 \<le> (2::real) \<and> 2 * (real (1 div 1) * 2\<^sup>2) < float32_overflow \<and>
      real 2 < float32_overflow \<and>
      MultiHeadAttention_forward_fl m (tmap Fin (ones3 1 2 1)) = Inr (out, weights) \<and>
      tget weights [0, 0, 1, 0] = Fin (p (0::nat)) \<and> tget weights [0, 0, 1, 1] = Fin (p 1) \<and>
      0 \<le> p 0 \<and> 0 \<le> p 1 \<and> p 0 + p 1 = (1::real)"
proof -
  obtain m where m: "MultiHeadAttention_init 1 1 ones_mha = Inr m"
    by (simp add: MultiHeadAttention_init_def)
  have s: "shape (ones3 1 2 1) = [1, 2, 1]" and w: "wf (ones3 1 2 1)"
    by (simp_all add: ones3_def)
  have x: "\<forall>v\<in>set (data (ones3 1 2 1)). \<bar>v\<bar> \<le> 1"
    by (simp add: ones3_def tabulate_def)
  have p: "\<forall>j<1. \<forall>i<1. \<bar>fst (init_query ones_mha) j i\<bar> \<le> 1 \<and> \<bar>fst (init_key ones_mha) j i\<bar> \<le> 1"
    "\<forall>j<1. \<bar>snd (init_query ones_mha) j\<bar> \<le> 1 \<and> \<bar>snd (init_key ones_mha) j\<bar> \<le> 1"
    by (simp_all add: ones_mha_def ones_linear_def)
  have n: "real 1 * 1 * 1 + 1 \<le> (2::real)" "2 * (real (1 div 1) * 2\<^sup>2) < float32_overflow"
    "real 2 < float32_overflow"
    by (simp_all add: float32_overflow_def)
  obtain out weights where r: "MultiHeadAttention_forward_fl m (tmap Fin (ones3 1 2 1)) = Inr (out, weights)"
    and d: "\<forall>b<1. \<forall>h<1. \<forall>s<2. \<exists>p.
              (\<forall>t<2. tget weights [b, h, s, t] = Fin (p t) \<and> 0 \<le> p t) \<and> (\<Sum>t<2. p t) = (1::real)"
    using attention_weights_within_range[OF m s w x p n] by blast
  from d obtain p where "(\<forall>t<2. tget weights [0, 0, 1, t] = Fin (p t) \<and> 0 \<le> p t) \<and> (\<Sum>t<2. p t) = (1::real)"
    by force
  then have "tget weights [0, 0, 1, 0] = Fin (p 0) \<and> tget weights [0, 0, 1, 1] = Fin (p 1) \<and>
      0 \<le> p 0 \<and> 0 \<le> p 1 \<and> p 0 + p 1 = 1"
    by (simp add: lessThan_Suc numeral_2_eq_2)
  with m s w n r have "MultiHeadAttention_init 1 1 ones_mha = Inr m \<and>
      shape (ones3 1 2 1) = [1, 2, 1] \<and> wf (ones3 1 2 1) \<and>
      real 1 * 1 * 1 + 1 \<le> (2::real) \<and> 2 * (real (1 div 1) * 2\<^sup>2) < float32_overflow \<and>
      real 2 < float32_overflow \<and>
      MultiHeadAttention_forward_fl m (tmap Fin (ones3 1 2 1)) = Inr (out, weights) \<and>
      tget weights [0, 0, 1, 0] = Fin (p 0) \<and> tget weights [0, 0, 1, 1] = Fin (p 1) \<and>
      0 \<le> p 0 \<and> 0 \<le> p 1 \<and> p 0 + p 1 = (1::real)"
    by blast
  then show ?thesis
    by - (rule exI[of _ m], rule exI[of _ out], rule exI[of _ weights], rule exI[of _ p], assumption)
qed

text \<open>
  C4 as stated, for every input, fails on an input of two tokens \<open>2^70\<close> and \<open>-2^70\<close>
  (one head, one feature, projections that multiply by 1): the scores \<open>2^140\<close> and
  \<open>-2^140\<close> overflow to \<open>+\<infinity>\<close> and \<open>-\<infinity>\<close>, the softmax subtracts \<open>+\<infinity>\<close> from itself, and
  the weight of the first query for the first key is NaN, which is neither
  non-negative nor part of a sum equal to 1.
\<close>

theorem attention_weights_overflow:
  "\<not> isl (MultiHeadAttention_init 1 1 ones_mha) \<and> shape large_input = [1, 2, 1] \<and>
   \<not> isl (MultiHeadAttention_forward_fl (projr (MultiHeadAttention_init 1 1 ones_mha))
            (tmap Fin large_input)) \<and>
   tget (snd (projr (MultiHeadAttention_forward_fl (projr (MultiHeadAttention_init 1 1 ones_mha))
            (tmap Fin large_input)))) [0, 0, 0, 0] = NaN"
  by (simp add: MultiHeadAttention_init_def ones_mha_def ones_linear_def large_input_def
      MultiHeadAttention_forward_fl_def Linear_init_def Linear_forward_fl_def tmap_def
      tabulate_def tget_def upt_conv_Cons split_heads_def view_def transpose_t_def norm_dim_def
      swap_def contiguous_def matmul_fl_def softmax_fl_def fl_sum_def fl_max_list_def fl_sub_def
      fl_round_def fl_inf_def float32_overflow_def Let_def)

text \<open>
  C5. For all valid sizes, \<open>embed_dim\<close> and \<open>num_heads\<close> at least 1, both
  constructors of \<open>MultiHeadAttention\<close> (Lesson 4 and Lesson 5) succeed when
  \<open>embed_dim\<close> is a multiple of \<open>num_heads\<close>, and otherwise fail at once with the
  assertion error; no size is coerced.
\<close>

theorem attention_init_divisibility:
  assumes "1 \<le> E" and "1 \<le> H"
  shows "(E mod H = 0 \<longrightarrow>
            (\<exists>m. MultiHeadAttention_init E H ini = Inr m) \<and>
            (\<exists>m. MultiHeadAttention_L5_init E H ini = Inr m)) \<and>
         (E mod H \<noteq> 0 \<longrightarrow>
            MultiHeadAttention_init E H ini = Inl AssertionError \<and>
            MultiHeadAttention_L5_init E H ini = Inl AssertionError)"
proof (cases "E mod H = 0")
  case True
  then obtain k where k: "E = H * k" by (auto simp: mod_eq_0_iff_dvd)
  with assms have d: "E div H \<noteq> 0" "E div H * H = E" by auto
  with True assms show ?thesis
    by (simp add: MultiHeadAttention_init_def MultiHeadAttention_L5_init_def
        nn_MultiheadAttention_init_def Let_def)
next
  case False
  then have "E div H * H \<noteq> E"
    by (metis mod_mult_self2_is_0)
  with False assms show ?thesis
    by (simp add: MultiHeadAttention_init_def MultiHeadAttention_L5_init_def
        nn_MultiheadAttention_init_def Let_def)
qed

theorem attention_init_divisibility_witness:
  "(1::nat) \<le> 4 \<and> (1::nat) \<le> 2 \<and> (4::nat) mod 2 = 0 \<and> (1::nat) \<le> 3 \<and> (3::nat) mod 2 \<noteq> 0 \<and>
   (\<exists>m. MultiHeadAttention_init 4 2 zero_mha = Inr m) \<and>
   (\<exists>m. MultiHeadAttention_L5_init 4 2 zero_mha = Inr m) \<and>
   MultiHeadAttention_init 3 2 zero_mha = Inl AssertionError \<and>
   MultiHeadAttention_L5_init 3 2 zero_mha = Inl AssertionError"
  using attention_init_divisibility[of 4 2 zero_mha] attention_init_divisibility[of 3 2 zero_mha]
  by simp

section \<open>The Lesson 5 attention\<close>

lemma swap_01: "swap 0 (Suc 0) [a, b, c] = [b, a, c]"
  by (simp add: swap_def)

lemma transpose_01:
  assumes "shape t = [a, b, c]"
  shows "transpose_t 0 1 t = Inr (tabulate [b, a, c] (\<lambda>idx. tget t [idx ! 1, idx ! 0, idx ! 2]))"
proof -
  have "tabulate [b, a, c] (\<lambda>idx. tget t (swap 0 1 idx)) =
        tabulate [b, a, c] (\<lambda>idx. tget t [idx ! 1, idx ! 0, idx ! 2])"
  proof (rule tabulate_cong)
    fix idx assume "valid_index [b, a, c] idx"
    then obtain i j k where idx: "idx = [i, j, k]"
      by (rule valid_index3E)
    show "tget t (swap 0 1 idx) = tget t [idx ! 1, idx ! 0, idx ! 2]"
      by (simp add: idx swap_01)
  qed
  then show ?thesis
    by (simp add: transpose_t_def norm_dim_def assms swap_01)
qed

lemma transpose_01_twice:
  assumes "shape t = [a, b, c]" and "wf t"
  shows "ebind (transpose_t 0 1 t) (transpose_t 0 1) = Inr t"
proof -
  let ?u = "tabulate [b, a, c] (\<lambda>idx. tget t [idx ! 1, idx ! 0, idx ! 2])"
  have "t = tabulate [a, b, c] (\<lambda>idx. tget ?u [idx ! 1, idx ! 0, idx ! 2])"
  proof (rule tabulate_eqI[OF assms(2,1)])
    fix idx assume "valid_index [a, b, c] idx"
    then obtain i j k where idx: "idx = [i, j, k]" and i: "i < a" "j < b" "k < c"
      by (rule valid_index3E)
    show "tget t idx = tget ?u [idx ! 1, idx ! 0, idx ! 2]"
      using i by (simp add: idx tget_tabulate)
  qed
  moreover have "transpose_t 0 1 ?u = Inr (tabulate [a, b, c] (\<lambda>idx. tget ?u [idx ! 1, idx ! 0, idx ! 2]))"
    by (rule transpose_01) simp
  ultimately show ?thesis
    by (simp only: transpose_01[OF assms(1)] ebind_Inr)
qed

lemma nn_MultiheadAttention_init_Inr:
  "nn_MultiheadAttention_init E H ini = Inr m \<Longrightarrow> MultiHeadAttention_init E H ini = Inr m"
  by (simp add: nn_MultiheadAttention_init_def split: if_splits)

lemma MultiHeadAttention_L5_init_Inr:
  "MultiHeadAttention_L5_init E H ini = Inr m5 \<Longrightarrow>
   MultiHeadAttention_init E H ini = Inr (attention_L5 m5)"
  by (auto simp: MultiHeadAttention_L5_init_def ebind_def nn_MultiheadAttention_init_Inr
      split: sum.splits)

lemma mean_heads4:
  assumes "shape w = [n, h, l, s]"
  shows "mean_heads w = Inr (tabulate [n, l, s] (\<lambda>idx.
             (\<Sum>k<h. tget w [idx ! 0, k, idx ! 1, idx ! 2]) / real h))"
proof -
  have "tabulate [n, l, s] (\<lambda>idx.
          sum_list (map (\<lambda>k. tget w [idx ! 0, k, idx ! 1, idx ! 2]) [0..<h]) / real h) =
        tabulate [n, l, s] (\<lambda>idx. (\<Sum>k<h. tget w [idx ! 0, k, idx ! 1, idx ! 2]) / real h)"
    by (rule tabulate_cong) (simp add: sum_list_upt_cong)
  then show ?thesis by (simp add: mean_heads_def assms)
qed

text \<open>
  On a batch-first input the Lesson 5 module returns the attended tensor in the
  layout of the input and the head-averaged weights.
\<close>

lemma MultiHeadAttention_L5_forward_eq:
  assumes init: "MultiHeadAttention_L5_init E H ini = Inr m5" and sh: "shape x = [B, S, E]"
  defines "xb \<equiv> tabulate [B, S, E] (\<lambda>idx.
      tget (tabulate [S, B, E] (\<lambda>idx. tget x [idx ! 1, idx ! 0, idx ! 2])) [idx ! 1, idx ! 0, idx ! 2])"
  shows "\<exists>out. MultiHeadAttention_L5_forward m5 x =
           Inr (out, tabulate [B, S, S] (\<lambda>idx.
                  (\<Sum>k<H. spec_weights (attention_L5 m5) xb (idx ! 0) k (idx ! 1) (idx ! 2)) / real H))
         \<and> shape out = [B, S, E]
         \<and> (\<forall>b<B. \<forall>s<S. \<forall>j<E. tget out [b, s, j] = spec_result (attention_L5 m5) xb b s j)"
proof -
  let ?m = "attention_L5 m5"
  let ?xs = "tabulate [S, B, E] (\<lambda>idx. tget x [idx ! 1, idx ! 0, idx ! 2])"
  let ?R = "tabulate [B, S, E] (\<lambda>idx. spec_result ?m xb (idx ! 0) (idx ! 1) (idx ! 2))"
  let ?W = "tabulate [B, H, S, S] (\<lambda>idx. spec_weights ?m xb (idx ! 0) (idx ! 1) (idx ! 2) (idx ! 3))"
  let ?A = "tabulate [B, S, S] (\<lambda>idx. (\<Sum>k<H. tget ?W [idx ! 0, k, idx ! 1, idx ! 2]) / real H)"
  let ?A' = "tabulate [B, S, S] (\<lambda>idx.
                  (\<Sum>k<H. spec_weights ?m xb (idx ! 0) k (idx ! 1) (idx ! 2)) / real H)"
  note m = MultiHeadAttention_L5_init_Inr[OF init]
  have t1: "transpose_t 0 1 x = Inr ?xs"
    by (rule transpose_01[OF sh])
  have t2: "transpose_t 0 1 ?xs = Inr xb"
    unfolding xb_def by (rule transpose_01) simp
  have f: "MultiHeadAttention_forward ?m xb = Inr (?R, ?W)"
    by (rule MultiHeadAttention_forward_eq[OF m]) (simp add: xb_def)
  have mh: "mean_heads ?W = Inr ?A"
    by (rule mean_heads4) simp
  have A: "?A = ?A'"
  proof (rule tabulate_cong)
    fix idx assume "valid_index [B, S, S] idx"
    then obtain b s t where idx: "idx = [b, s, t]" and b: "b < B" "s < S" "t < S"
      by (rule valid_index3E)
    have "tget ?W [b, k, s, t] = spec_weights ?m xb b k s t" if "k < H" for k
      using b that by (simp add: tget_tabulate)
    then show "(\<Sum>k<H. tget ?W [idx ! 0, k, idx ! 1, idx ! 2]) / real H =
               (\<Sum>k<H. spec_weights ?m xb (idx ! 0) k (idx ! 1) (idx ! 2)) / real H"
      by (simp add: idx)
  qed
  have t3: "ebind (transpose_t 0 1 ?R) (transpose_t 0 1) = Inr ?R"
    by (rule transpose_01_twice) simp_all
  obtain Rs where t3a: "transpose_t 0 1 ?R = Inr Rs"
    using transpose_01[of ?R B S E] by simp
  with t3 have t3b: "transpose_t 0 1 Rs = Inr ?R" by simp
  have l3: "length (shape ?xs) \<noteq> 2" "shape ?xs = [S, B, E]" by simp_all
  have "nn_MultiheadAttention_forward ?m ?xs = Inr (Rs, ?A')"
    unfolding nn_MultiheadAttention_forward_def nn_MultiheadAttention_batched_def l3(2) list.case
      MultiHeadAttention_init_Inr(4)[OF m] t2 ebind_Inr f prod.case t3a mh A
    using l3(1) by simp
  then have "MultiHeadAttention_L5_forward m5 x = Inr (?R, ?A')"
    unfolding MultiHeadAttention_L5_forward_def t1 ebind_Inr by (simp add: t3b)
  moreover have "tget ?R [b, s, j] = spec_result ?m xb b s j" if "b < B" "s < S" "j < E" for b s j
    using that by (simp add: tget_tabulate)
  ultimately show ?thesis
    by (intro exI[of _ ?R]) simp
qed

text \<open>
  C8, as the code has it. The Lesson 4 attention returns weights of shape
  (batch, num_heads, seq_length, seq_length), one matrix per head. The Lesson 5
  attention returns what the framework module returns: the weights averaged over the
  heads, of shape (batch, seq_length, seq_length).
\<close>

theorem attention_weights_shape:
  assumes "MultiHeadAttention_init E H ini = Inr m"
    and "MultiHeadAttention_L5_init E H ini' = Inr m5"
    and "shape x = [B, S, E]"
  shows "(\<exists>out w. MultiHeadAttention_forward m x = Inr (out, w) \<and> shape w = [B, H, S, S]) \<and>
         (\<exists>out w. MultiHeadAttention_L5_forward m5 x = Inr (out, w) \<and> shape w = [B, S, S])"
proof
  show "\<exists>out w. MultiHeadAttention_forward m x = Inr (out, w) \<and> shape w = [B, H, S, S]"
    using MultiHeadAttention_forward_eq[OF assms(1,3)] by simp
  show "\<exists>out w. MultiHeadAttention_L5_forward m5 x = Inr (out, w) \<and> shape w = [B, S, S]"
    using MultiHeadAttention_L5_forward_eq[OF assms(2,3)] by auto
qed

theorem attention_weights_shape_witness:
  "\<exists>m m5 out w out5 w5.
     MultiHeadAttention_init 2 2 zero_mha = Inr m \<and>
     MultiHeadAttention_L5_init 2 2 zero_mha = Inr m5 \<and>
     shape (ones3 1 3 2) = [1, 3, 2] \<and>
     MultiHeadAttention_forward m (ones3 1 3 2) = Inr (out, w) \<and> shape w = [1, 2, 3, 3] \<and>
     MultiHeadAttention_L5_forward m5 (ones3 1 3 2) = Inr (out5, w5) \<and> shape w5 = [1, 3, 3]"
proof -
  obtain m where m: "MultiHeadAttention_init 2 2 zero_mha = Inr m"
    by (simp add: MultiHeadAttention_init_def)
  obtain m5 where m5: "MultiHeadAttention_L5_init 2 2 zero_mha = Inr m5"
    by (simp add: MultiHeadAttention_L5_init_def nn_MultiheadAttention_init_def
        MultiHeadAttention_init_def)
  have s: "shape (ones3 1 3 2) = [1, 3, 2]"
    by (simp add: ones3_def)
  show ?thesis
    using attention_weights_shape[OF m m5 s] m m5 s by blast
qed

text \<open>
  C8 as stated fails for the Lesson 5 attention: with two heads and an input of shape
  (1, 3, 2) the weights have shape (1, 3, 3), not (1, 2, 3, 3).
\<close>

theorem attention_L5_weights_averaged:
  "\<not> isl (MultiHeadAttention_L5_init 2 2 zero_mha) \<and>
   \<not> isl (MultiHeadAttention_L5_forward (projr (MultiHeadAttention_L5_init 2 2 zero_mha)) (ones3 1 3 2)) \<and>
   shape (snd (projr (MultiHeadAttention_L5_forward
                        (projr (MultiHeadAttention_L5_init 2 2 zero_mha)) (ones3 1 3 2)))) = [1, 3, 3] \<and>
   [1, 3, 3] \<noteq> [1, 2, 3, 3::nat]"
proof -
  obtain m5 where m5: "MultiHeadAttention_L5_init 2 2 zero_mha = Inr m5"
    by (simp add: MultiHeadAttention_L5_init_def nn_MultiheadAttention_init_def
        MultiHeadAttention_init_def)
  have s: "shape (ones3 1 3 2) = [1, 3, 2]"
    by (simp add: ones3_def)
  obtain out w where "MultiHeadAttention_L5_forward m5 (ones3 1 3 2) = Inr (out, w)"
      and "shape w = [1, 3, 3]"
    using MultiHeadAttention_L5_forward_eq[OF m5 s] by auto
  then show ?thesis by (simp add: m5)
qed

section \<open>Transformer blocks\<close>

lemma bshape_rev_same: "bshape_rev xs xs = Some xs"
  by (induction xs) simp_all

lemma broadcast_shapes_same [simp]: "broadcast_shapes sh sh = Some sh"
  by (simp add: broadcast_shapes_def bshape_rev_same)

lemma tadd_same:
  assumes "shape b = shape a"
  shows "tadd a b = Inr (tabulate (shape a) (\<lambda>idx. tget a idx + tget b idx))"
proof -
  have "tabulate (shape a) (\<lambda>idx. tget a (bindex (shape a) idx) + tget b (bindex (shape a) idx)) =
        tabulate (shape a) (\<lambda>idx. tget a idx + tget b idx)"
    by (rule tabulate_cong) (simp add: bindex_valid)
  then show ?thesis
    by (simp add: tadd_def broadcast_op_def assms)
qed

lemma shape_Dropout_forward [simp]: "shape (Dropout_forward d dr x) = shape x"
  by (simp add: Dropout_forward_def split: option.splits)

lemma LayerNorm_forward_shape:
  assumes "shape x = [B, S, E]" and "normalized_shape l = E"
  shows "\<exists>y. LayerNorm_forward l x = Inr y \<and> shape y = [B, S, E]"
  using assms by (simp add: LayerNorm_forward_def)

lemma FeedForward_forward_shape:
  assumes "shape x = [B, S, E]"
    and "ff = \<lparr>ffn_0 = Linear_init E F i0, ffn_2 = Linear_init F E i2\<rparr>"
  shows "\<exists>y. FeedForward_forward ff x = Inr y \<and> shape y = [B, S, E]"
proof -
  obtain h where h: "Linear_forward (Linear_init E F i0) x = Inr h" "shape h = [B, S, F]"
    using Linear_forward3[OF assms(1), of "Linear_init E F i0"] by simp
  have "shape (relu h) = [B, S, F]"
    using h(2) by (simp add: relu_def)
  then obtain y where "Linear_forward (Linear_init F E i2) (relu h) = Inr y" "shape y = [B, S, E]"
    using Linear_forward3[of "relu h" B S F "Linear_init F E i2"] by simp
  with h show ?thesis
    by (simp add: FeedForward_forward_def assms(2))
qed

lemma block_forward_shape:
  assumes x: "shape x = [B, S, E]"
    and att: "\<exists>a w. attention x = Inr (a, w) \<and> shape a = [B, S, E]"
    and ff: "ff = \<lparr>ffn_0 = Linear_init E F i0, ffn_2 = Linear_init F E i2\<rparr>"
    and n1: "normalized_shape norm1 = E" and n2: "normalized_shape norm2 = E"
  shows "\<exists>y w. block_forward attention (FeedForward_forward ff) (LayerNorm_forward norm1)
                  (LayerNorm_forward norm2) (Dropout_forward d) draws x = Inr (y, w) \<and>
               shape y = [B, S, E]"
proof -
  obtain a w where a: "attention x = Inr (a, w)" "shape a = [B, S, E]"
    using att by blast
  obtain s1 where s1: "tadd x (Dropout_forward d (fst draws) a) = Inr s1" "shape s1 = [B, S, E]"
    using tadd_same[of "Dropout_forward d (fst draws) a" x] a(2) x by simp
  obtain x1 where x1: "LayerNorm_forward norm1 s1 = Inr x1" "shape x1 = [B, S, E]"
    using LayerNorm_forward_shape[OF s1(2) n1] by blast
  obtain f where f: "FeedForward_forward ff x1 = Inr f" "shape f = [B, S, E]"
    using FeedForward_forward_shape[OF x1(2) ff] by blast
  obtain s2 where s2: "tadd x1 (Dropout_forward d (snd draws) f) = Inr s2" "shape s2 = [B, S, E]"
    using tadd_same[of "Dropout_forward d (snd draws) f" x1] f(2) x1(2) by simp
  obtain x2 where x2: "LayerNorm_forward norm2 s2 = Inr x2" "shape x2 = [B, S, E]"
    using LayerNorm_forward_shape[OF s2(2) n2] by blast
  show ?thesis
    by (simp add: block_forward_def a s1 x1 f s2 x2)
qed

lemma TransformerBlock_init_Inr:
  assumes "TransformerBlock_init E H F p ini = Inr blk"
  shows "MultiHeadAttention_init E H (init_attention ini) = Inr (blk_attention blk)"
    "blk_ffn blk = \<lparr>ffn_0 = Linear_init E F (init_ffn_0 ini), ffn_2 = Linear_init F E (init_ffn_2 ini)\<rparr>"
    "normalized_shape (blk_norm1 blk) = E" "normalized_shape (blk_norm2 blk) = E"
  using assms
  by (auto simp: TransformerBlock_init_def ebind_def LayerNorm_init_def split: sum.splits)

lemma TransformerBlock_L5_init_Inr:
  assumes "TransformerBlock_L5_init E H F p ini = Inr blk"
  shows "MultiHeadAttention_L5_init E H (init_attention ini) = Inr (blk5_attention blk)"
    "blk5_ffn blk = \<lparr>ffn_0 = Linear_init E F (init_ffn_0 ini), ffn_2 = Linear_init F E (init_ffn_2 ini)\<rparr>"
    "normalized_shape (blk5_norm1 blk) = E" "normalized_shape (blk5_norm2 blk) = E"
  using assms
  by (auto simp: TransformerBlock_L5_init_def ebind_def LayerNorm_init_def split: sum.splits)

lemma TransformerBlock_L5_forward_shape:
  assumes "TransformerBlock_L5_init E H F p ini = Inr blk" and "shape x = [B, S, E]"
  shows "\<exists>y w. TransformerBlock_L5_forward blk draws x = Inr (y, w) \<and> shape y = [B, S, E]"
proof -
  note b = TransformerBlock_L5_init_Inr[OF assms(1)]
  have "\<exists>a w. MultiHeadAttention_L5_forward (blk5_attention blk) x = Inr (a, w) \<and> shape a = [B, S, E]"
    using MultiHeadAttention_L5_forward_eq[OF b(1) assms(2)] by auto
  then show ?thesis
    unfolding TransformerBlock_L5_forward_def
    by (rule block_forward_shape[OF assms(2) _ b(2) b(3) b(4)])
qed

text \<open>
  C3. For every input of shape (B, S, E), whatever the sequence length \<open>S\<close>, and in
  training as well as in inference mode, the forward pass of a Transformer block, of
  Lesson 4 and of Lesson 5, returns an output of the shape of the input.
\<close>

theorem transformer_block_preserves_shape:
  assumes "TransformerBlock_init E H F p ini = Inr blk"
    and "TransformerBlock_L5_init E H F p ini = Inr blk5"
    and "shape x = [B, S, E]"
  shows "(\<exists>y w. TransformerBlock_forward blk draws x = Inr (y, w) \<and> shape y = shape x) \<and>
         (\<exists>y w. TransformerBlock_L5_forward blk5 draws x = Inr (y, w) \<and> shape y = shape x)"
proof
  note b = TransformerBlock_init_Inr[OF assms(1)]
  have "\<exists>a w. MultiHeadAttention_forward (blk_attention blk) x = Inr (a, w) \<and> shape a = [B, S, E]"
    using MultiHeadAttention_forward_eq[OF b(1) assms(3)] by simp
  then show "\<exists>y w. TransformerBlock_forward blk draws x = Inr (y, w) \<and> shape y = shape x"
    unfolding TransformerBlock_forward_def assms(3)
    by (rule block_forward_shape[OF assms(3) _ b(2) b(3) b(4)])
  show "\<exists>y w. TransformerBlock_L5_forward blk5 draws x = Inr (y, w) \<and> shape y = shape x"
    using TransformerBlock_L5_forward_shape[OF assms(2,3)] assms(3) by simp
qed

theorem transformer_block_preserves_shape_witness:
  "\<exists>blk blk5 y w y5 w5.
     TransformerBlock_init 2 1 3 (1 / 10) zero_block = Inr blk \<and>
     TransformerBlock_L5_init 2 1 3 (1 / 10) zero_block = Inr blk5 \<and>
     shape (ones3 2 3 2) = [2, 3, 2] \<and>
     TransformerBlock_forward blk (None, None) (ones3 2 3 2) = Inr (y, w) \<and> shape y = [2, 3, 2] \<and>
     TransformerBlock_L5_forward blk5 (None, None) (ones3 2 3 2) = Inr (y5, w5) \<and> shape y5 = [2, 3, 2]"
proof -
  obtain blk where b: "TransformerBlock_init 2 1 3 (1 / 10) zero_block = Inr blk"
    by (simp add: TransformerBlock_init_def MultiHeadAttention_init_def Dropout_init_def)
  obtain blk5 where b5: "TransformerBlock_L5_init 2 1 3 (1 / 10) zero_block = Inr blk5"
    by (simp add: TransformerBlock_L5_init_def MultiHeadAttention_L5_init_def
        nn_MultiheadAttention_init_def MultiHeadAttention_init_def Dropout_init_def)
  have s: "shape (ones3 2 3 2) = [2, 3, 2]"
    by (simp add: ones3_def)
  show ?thesis
    using transformer_block_preserves_shape[OF b b5 s, of "(None, None)"] b b5 s by auto
qed

lemma tmap_tmap: "tmap f (tmap g t) = tmap (\<lambda>v. f (g v)) t"
  by (simp add: tmap_def)

lemma tadd_self:
  assumes "wf x"
  shows "tadd x x = Inr (tmap (\<lambda>v. 2 * v) x)"
proof -
  have "tmap (\<lambda>v. 2 * v) x = tabulate (shape x) (\<lambda>idx. tget x idx + tget x idx)"
    by (rule tabulate_eqI) (use assms in \<open>simp_all add: tget_tmap'\<close>)
  then show ?thesis
    by (simp add: tadd_same)
qed

text \<open>
  C9, as the code has it. With the attention and the feed-forward sublayer replaced by
  identities, both normalisations replaced by the identity and dropout in inference
  mode, each of the two residual steps adds its input to itself: the output of the
  block is four times the input.
\<close>

theorem block_identity_sublayers_quadruple:
  assumes "wf x"
  shows "block_forward (identity_attention w) identity_layer identity_layer identity_layer
           (Dropout_forward d) (None, None) x = Inr (tmap (\<lambda>v. 4 * v) x, w)"
proof -
  have first: "tadd x (Dropout_forward d None x) = Inr (tmap (\<lambda>v. 2 * v) x)"
    using tadd_self[OF assms] by (simp add: Dropout_forward_def)
  have "tadd (tmap (\<lambda>v. 2 * v) x) (tmap (\<lambda>v. 2 * v) x) = Inr (tmap (\<lambda>v. 4 * v) x)"
    using tadd_self[of "tmap (\<lambda>v. 2 * v) x"] assms by (simp add: tmap_tmap)
  then have second: "tadd (tmap (\<lambda>v. 2 * v) x) (Dropout_forward d None (tmap (\<lambda>v. 2 * v) x)) =
      Inr (tmap (\<lambda>v. 4 * v) x)"
    by (simp add: Dropout_forward_def)
  show ?thesis
    by (simp add: block_forward_def identity_attention_def identity_layer_def first second)
qed

theorem block_identity_sublayers_quadruple_witness:
  "wf (ones3 1 2 2) \<and>
   block_forward (identity_attention ()) identity_layer identity_layer identity_layer
     (Dropout_forward \<lparr>dropout_p = 1 / 10\<rparr>) (None, None) (ones3 1 2 2) =
   Inr (\<lparr>shape = [1, 2, 2], data = [4, 4, 4, 4]\<rparr>, ())"
proof -
  have w: "wf (ones3 1 2 2)" by (simp add: ones3_def)
  show ?thesis
    using block_identity_sublayers_quadruple[OF w, of "()" "\<lparr>dropout_p = 1 / 10\<rparr>"] w
    by (simp add: ones3_def tmap_def tabulate_def upt_conv_Cons)
qed

text \<open>
  C9 as stated fails: on the tensor of shape (1, 1, 1) that holds 1 the block with
  identity sublayers returns the tensor that holds 4, not its input.
\<close>

theorem block_identity_sublayers_not_identity:
  "block_forward (identity_attention ()) identity_layer identity_layer identity_layer
     (Dropout_forward \<lparr>dropout_p = 1 / 10\<rparr>) (None, None) (ones3 1 1 1) \<noteq> Inr (ones3 1 1 1, ())"
proof -
  have "wf (ones3 1 1 1)" by (simp add: ones3_def)
  then have "tadd (ones3 1 1 1) (ones3 1 1 1) = Inr \<lparr>shape = [1, 1, 1], data = [2]\<rparr>"
    by (simp add: tadd_self ones3_def tmap_def tabulate_def)
  moreover have "tadd \<lparr>shape = [1, 1, 1], data = [2]\<rparr> \<lparr>shape = [1, 1, 1], data = [2]\<rparr> =
      Inr \<lparr>shape = [1, 1, 1], data = [4]\<rparr>"
    using tadd_self[of "\<lparr>shape = [1, 1, 1], data = [2]\<rparr>"] by (simp add: wf_def tmap_def)
  ultimately show ?thesis
    by (simp add: block_forward_def identity_attention_def identity_layer_def Dropout_forward_def
        ones3_def tabulate_def)
qed

section \<open>The language model\<close>

lemma setitem_cols_shape: "setitem_cols a s t v = Inr t' \<Longrightarrow> shape t' = shape t"
  by (auto simp: setitem_cols_def Let_def split: list.splits if_splits)

lemma PositionalEncoding_init_shape:
  assumes "PositionalEncoding_init E L = Inr P"
  shows "shape (pe P) = [L, E]"
proof -
  from assms obtain a0 pe1 a1 pe2 where
    "setitem_cols 0 2 (zeros [L, E]) (tmap sin a0) = Inr pe1"
    "setitem_cols 1 2 pe1 (tmap cos a1) = Inr pe2" "P = \<lparr>pe = pe2\<rparr>"
    by (auto simp: PositionalEncoding_init_def Let_def ebind_def split: sum.splits)
  then show ?thesis
    using setitem_cols_shape[of 0 2 "zeros [L, E]" "tmap sin a0" pe1]
      setitem_cols_shape[of 1 2 pe1 "tmap cos a1" pe2]
    by (simp add: zeros_def)
qed

lemma LanguageModel_init_Inr:
  assumes "LanguageModel_init V E H N F L p ini = Inr lm"
  shows "lm_embedding lm = Embedding_init V E (init_embedding ini)"
    "PositionalEncoding_init E L = Inr (lm_positional_encoding lm)"
    "lm_output_layer lm = Linear_init E V (init_output_layer ini)"
    "sequence_err (map (\<lambda>k. TransformerBlock_L5_init E H F p (init_blocks ini k)) [0..<N]) =
       Inr (lm_transformer_blocks lm)"
  using assms by (auto simp: LanguageModel_init_def ebind_def split: sum.splits)

lemma Embedding_forward_cases:
  assumes "shape ids = [B, S]"
  shows "Embedding_forward (Embedding_init V E w) ids = Inl IndexError \<or>
         (\<exists>x. Embedding_forward (Embedding_init V E w) ids = Inr x \<and> shape x = [B, S, E])"
  by (simp add: Embedding_forward_def Embedding_init_def assms)

lemma broadcast_shapes_seq_mismatch:
  assumes "S \<noteq> L" and "L \<noteq> 1" and "S \<noteq> 1"
  shows "broadcast_shapes [B, S, E'] [L, E] = None"
  using assms by (auto simp: broadcast_shapes_def bdim_def split: option.splits)

lemma PositionalEncoding_forward_too_long:
  assumes "PositionalEncoding_init E L = Inr P" and "shape x = [B, S, E']" and "2 \<le> L" and "L < S"
  shows "PositionalEncoding_forward P x = Inl RuntimeError"
proof -
  have "slice_rows S (pe P) = Inr (tabulate [L, E] (tget (pe P)))"
    using PositionalEncoding_init_shape[OF assms(1)] assms(4) by (simp add: slice_rows_def min_def)
  moreover have "broadcast_shapes [B, S, E'] [L, E] = None"
    by (rule broadcast_shapes_seq_mismatch) (use assms(3,4) in auto)
  ultimately show ?thesis
    by (simp add: PositionalEncoding_forward_def assms(2) tadd_def broadcast_op_def numeral_3_eq_3)
qed

subsection \<open>A small model, evaluated\<close>

lemmas eval_defs = tabulate_def tget_def upt_conv_Cons Linear_init_def Linear_forward_def
  view_def transpose_t_def norm_dim_def swap_def matmul_def softmax_def contiguous_def tmap_def
  split_heads_def mean_heads_def

lemma squash_half:
  assumes "1 / 100 \<le> d"
  shows "1 / 2 \<le> squash d"
proof -
  have d: "0 < d" using assms by simp
  have "(1 / 100)\<^sup>2 \<le> d\<^sup>2"
    using assms by (intro power_mono) simp_all
  then have "d\<^sup>2 + 1 / 100000 \<le> (2 * d)\<^sup>2"
    by (simp add: power_mult_distrib power2_eq_square)
  then have "sqrt (d\<^sup>2 + 1 / 100000) \<le> sqrt ((2 * d)\<^sup>2)"
    by (rule real_sqrt_le_mono)
  moreover have "sqrt ((2 * d)\<^sup>2) = 2 * d"
    using d by (simp add: real_sqrt_mult)
  ultimately have s: "sqrt (d\<^sup>2 + 1 / 100000) \<le> 2 * d"
    by linarith
  have p: "0 < sqrt (d\<^sup>2 + 1 / 100000)"
    by (simp add: add_nonneg_pos)
  show ?thesis
    unfolding squash_def using s p by (simp add: pos_le_divide_eq)
qed

lemma squash_minus: "squash (- d) = - squash d"
  by (simp add: squash_def)

lemma squash_twice_pos: "1 / 100 \<le> d \<Longrightarrow> 1 / 2 \<le> squash (squash d)"
  using squash_half[of d] squash_half[of "squash d"] by simp

lemma squash_twice_neg:
  assumes "d \<le> - (1 / 100)"
  shows "squash (squash d) \<le> - (1 / 2)"
proof -
  have "1 / 2 \<le> squash (squash (- d))"
    using assms by (intro squash_twice_pos) simp
  then show ?thesis
    by (simp add: squash_minus)
qed

lemma pair_norm:
  "(a - (a + b) / 2) / sqrt (((a - (a + b) / 2)\<^sup>2 + (b - (a + b) / 2)\<^sup>2) / 2 + 1 / 100000) =
     squash ((a - b) / 2)"
  "(b - (a + b) / 2) / sqrt (((a - (a + b) / 2)\<^sup>2 + (b - (a + b) / 2)\<^sup>2) / 2 + 1 / 100000) =
     - squash ((a - b) / 2)"
proof -
  have 1: "a - (a + b) / 2 = (a - b) / 2" and 2: "b - (a + b) / 2 = - ((a - b) / 2)"
    by (simp_all add: field_simps)
  show "(a - (a + b) / 2) / sqrt (((a - (a + b) / 2)\<^sup>2 + (b - (a + b) / 2)\<^sup>2) / 2 + 1 / 100000) =
     squash ((a - b) / 2)"
    unfolding 1 2 by (simp add: squash_def)
  show "(b - (a + b) / 2) / sqrt (((a - (a + b) / 2)\<^sup>2 + (b - (a + b) / 2)\<^sup>2) / 2 + 1 / 100000) =
     - squash ((a - b) / 2)"
    unfolding 1 2 by (simp add: squash_def)
qed

lemma LayerNorm_forward_lit3:
  "LayerNorm_forward (LayerNorm_init 2) (lit3 a b c d) =
   Inr (lit3 (squash ((a - b) / 2)) (- squash ((a - b) / 2))
             (squash ((c - d) / 2)) (- squash ((c - d) / 2)))"
proof -
  have "LayerNorm_forward (LayerNorm_init 2) (lit3 a b c d) =
    Inr (lit3
      ((a - (a + b) / 2) / sqrt (((a - (a + b) / 2)\<^sup>2 + (b - (a + b) / 2)\<^sup>2) / 2 + 1 / 100000))
      ((b - (a + b) / 2) / sqrt (((a - (a + b) / 2)\<^sup>2 + (b - (a + b) / 2)\<^sup>2) / 2 + 1 / 100000))
      ((c - (c + d) / 2) / sqrt (((c - (c + d) / 2)\<^sup>2 + (d - (c + d) / 2)\<^sup>2) / 2 + 1 / 100000))
      ((d - (c + d) / 2) / sqrt (((c - (c + d) / 2)\<^sup>2 + (d - (c + d) / 2)\<^sup>2) / 2 + 1 / 100000)))"
    by (simp add: LayerNorm_forward_def LayerNorm_init_def lit3_def row_mean_def row_var_def eval_defs)
  then show ?thesis
    by (simp only: pair_norm)
qed

lemma leak_attention_forward:
  assumes "MultiHeadAttention_L5_init 2 1 leak_attention = Inr m"
  shows "\<exists>w. MultiHeadAttention_L5_forward m (lit3 a b c d) =
           Inr (lit3 ((a + c) / 2) ((b + d) / 2) ((a + c) / 2) ((b + d) / 2), w)"
proof -
  from assms have "m = \<lparr>attention_L5 = \<lparr>mha_embed_dim = 2, mha_num_heads = 1, mha_head_dim = 2,
      mha_query = Linear_init 2 2 zero_linear, mha_key = Linear_init 2 2 zero_linear,
      mha_value = Linear_init 2 2 id_linear, mha_out = Linear_init 2 2 id_linear,
      mha_scale = 2 powr - (1 / 2)\<rparr>\<rparr>"
    by (simp add: MultiHeadAttention_L5_init_def nn_MultiheadAttention_init_def
        MultiHeadAttention_init_def leak_attention_def)
  then show ?thesis
    by (simp add: MultiHeadAttention_L5_forward_def nn_MultiheadAttention_forward_def
        nn_MultiheadAttention_batched_def MultiHeadAttention_forward_def lit3_def
        zero_linear_def id_linear_def eval_defs add_divide_distrib)
qed

lemma tadd_lit3:
  "tadd (lit3 a b c d) (lit3 a' b' c' d') = Inr (lit3 (a + a') (b + b') (c + c') (d + d'))"
  by (simp add: tadd_def broadcast_op_def broadcast_shapes_def bindex_def lit3_def eval_defs)

lemma zero_ffn_forward:
  "FeedForward_forward \<lparr>ffn_0 = Linear_init 2 1 zero_linear, ffn_2 = Linear_init 1 2 zero_linear\<rparr>
     (lit3 a b c d) = Inr (lit3 0 0 0 0)"
  by (simp add: FeedForward_forward_def relu_def zero_linear_def lit3_def eval_defs)

lemma identity_output_forward:
  "Linear_forward (Linear_init 2 2 id_linear) (lit3 a b c d) = Inr (lit3 a b c d)"
  by (simp add: id_linear_def lit3_def eval_defs)

text \<open>The block of the model, in inference mode, on the four entries of an input.\<close>

lemma leak_block_forward:
  assumes "TransformerBlock_L5_init 2 1 1 (1 / 10) (init_blocks leak_lm k) = Inr blk"
  shows "\<exists>q w. TransformerBlock_L5_forward blk (None, None) (lit3 a b c d) =
           Inr (lit3 (squash (squash ((a + (a + c) / 2 - (b + (b + d) / 2)) / 2)))
                     (- squash (squash ((a + (a + c) / 2 - (b + (b + d) / 2)) / 2)))
                     q (- q), w)"
proof -
  let ?x = "lit3 a b c d"
  let ?d0 = "(a + (a + c) / 2 - (b + (b + d) / 2)) / 2"
  let ?d1 = "(c + (a + c) / 2 - (d + (b + d) / 2)) / 2"
  from assms obtain m where m: "MultiHeadAttention_L5_init 2 1 leak_attention = Inr m"
    and blk: "blk = \<lparr>blk5_attention = m,
          blk5_ffn = \<lparr>ffn_0 = Linear_init 2 1 zero_linear, ffn_2 = Linear_init 1 2 zero_linear\<rparr>,
          blk5_norm1 = LayerNorm_init 2, blk5_norm2 = LayerNorm_init 2,
          blk5_dropout = \<lparr>dropout_p = 1 / 10\<rparr>\<rparr>"
    by (auto simp: TransformerBlock_L5_init_def leak_lm_def ebind_def Dropout_init_def
        split: sum.splits)
  obtain w where att: "MultiHeadAttention_L5_forward m ?x =
      Inr (lit3 ((a + c) / 2) ((b + d) / 2) ((a + c) / 2) ((b + d) / 2), w)"
    using leak_attention_forward[OF m] by blast
  have n1: "LayerNorm_forward (LayerNorm_init 2)
              (lit3 (a + (a + c) / 2) (b + (b + d) / 2) (c + (a + c) / 2) (d + (b + d) / 2)) =
            Inr (lit3 (squash ?d0) (- squash ?d0) (squash ?d1) (- squash ?d1))"
    by (rule LayerNorm_forward_lit3)
  have n2: "LayerNorm_forward (LayerNorm_init 2)
              (lit3 (squash ?d0 + 0) (- squash ?d0 + 0) (squash ?d1 + 0) (- squash ?d1 + 0)) =
            Inr (lit3 (squash (squash ?d0)) (- squash (squash ?d0))
                      (squash (squash ?d1)) (- squash (squash ?d1)))"
    using LayerNorm_forward_lit3[of "squash ?d0" "- squash ?d0" "squash ?d1" "- squash ?d1"]
    by simp
  have "TransformerBlock_L5_forward blk (None, None) ?x =
        Inr (lit3 (squash (squash ?d0)) (- squash (squash ?d0))
                  (squash (squash ?d1)) (- squash (squash ?d1)), w)"
    unfolding TransformerBlock_L5_forward_def block_forward_def blk
    by (simp only: TransformerBlock_L5.simps att ebind_Inr prod.case fst_conv snd_conv
        Dropout_forward_def option.case tadd_lit3 n1 zero_ffn_forward n2)
  then show ?thesis by blast
qed

lemma leak_embedding_forward:
  "Embedding_forward (Embedding_init 2 2 (init_embedding leak_lm)) (token_ids 1 2 [0, 0]) =
     Inr (lit3 0 0 0 0)"
  "Embedding_forward (Embedding_init 2 2 (init_embedding leak_lm)) (token_ids 1 2 [0, 1]) =
     Inr (lit3 0 0 10 0)"
  by (simp_all add: Embedding_forward_def Embedding_init_def leak_lm_def token_ids_def lit3_def
      eval_defs)

lemma positional_encoding_lit3:
  assumes "PositionalEncoding_init 2 2 = Inr P"
  shows "PositionalEncoding_forward P (lit3 a b c d) = Inr (lit3 a (b + 1) (c + sin 1) (d + cos 1))"
proof -
  from assms have "P = \<lparr>pe = \<lparr>shape = [2, 2], data = [0, 1, sin 1, cos 1]\<rparr>\<rparr>"
    by (simp add: PositionalEncoding_init_even tabulate_def pe_stored_def float32_of_nat_0
        float32_of_nat_Suc_0 upt_conv_Cons)
  then show ?thesis
    by (simp add: PositionalEncoding_forward_def lit3_def slice_rows_def tadd_def broadcast_op_def
        broadcast_shapes_def bindex_def eval_defs)
qed

lemma leak_model_forward:
  assumes "LanguageModel_init 2 2 1 1 1 L (1 / 10) leak_lm = Inr lm"
    and "Embedding_forward (Embedding_init 2 2 (init_embedding leak_lm)) ids = Inr e"
    and "PositionalEncoding_forward (lm_positional_encoding lm) e = Inr (lit3 a b c d)"
  shows "\<exists>y q. LanguageModel_forward lm inference ids =
           Inr (lit3 (squash (squash ((a + (a + c) / 2 - (b + (b + d) / 2)) / 2))) y q (- q))"
proof -
  note lm = LanguageModel_init_Inr[OF assms(1)]
  from lm(4) obtain blk where blk: "TransformerBlock_L5_init 2 1 1 (1 / 10) (init_blocks leak_lm 0) = Inr blk"
    and blocks: "lm_transformer_blocks lm = [blk]"
    by (auto simp: ebind_def split: sum.splits)
  obtain q w where b: "TransformerBlock_L5_forward blk (None, None) (lit3 a b c d) =
      Inr (lit3 (squash (squash ((a + (a + c) / 2 - (b + (b + d) / 2)) / 2)))
             (- squash (squash ((a + (a + c) / 2 - (b + (b + d) / 2)) / 2)))
             q (- q), w)"
    using leak_block_forward[OF blk] by blast
  have "LanguageModel_forward lm inference ids =
      Inr (lit3 (squash (squash ((a + (a + c) / 2 - (b + (b + d) / 2)) / 2)))
             (- squash (squash ((a + (a + c) / 2 - (b + (b + d) / 2)) / 2)))
             q (- q))"
    unfolding LanguageModel_forward_def lm(1) assms(2) ebind_Inr assms(3)
      blocks run_blocks.simps inference_def b prod.case lm(3)
    by (simp add: leak_lm_def identity_output_forward)
  then show ?thesis by blast
qed

lemma leak_lm_init: "\<exists>lm. LanguageModel_init 2 2 1 1 1 L (1 / 10) leak_lm = Inr lm"
  by (simp add: LanguageModel_init_def PositionalEncoding_init_even leak_lm_def
      TransformerBlock_L5_init_def MultiHeadAttention_L5_init_def nn_MultiheadAttention_init_def
      MultiHeadAttention_init_def Dropout_init_def leak_attention_def)

lemma positional_encoding_one_row:
  assumes "PositionalEncoding_init 2 1 = Inr P"
  shows "PositionalEncoding_forward P (lit3 a b c d) = Inr (lit3 a (b + 1) c (d + 1))"
proof -
  from assms have "P = \<lparr>pe = \<lparr>shape = [1, 2], data = [0, 1]\<rparr>\<rparr>"
    by (simp add: PositionalEncoding_init_even tabulate_def pe_stored_def float32_of_nat_0
        float32_of_nat_Suc_0 upt_conv_Cons)
  then show ?thesis
    by (simp add: PositionalEncoding_forward_def lit3_def slice_rows_def tadd_def broadcast_op_def
        broadcast_shapes_def bindex_def eval_defs)
qed

text \<open>
  C6, as the code has it. The code has no check of the sequence length: the error comes
  from the addition of the table to the input, whose shapes cannot be broadcast when
  the sequence is longer than a table of at least two rows (60 against 50, say). Then
  the positional encoding raises, and so does the forward pass of the model.
\<close>

theorem sequence_longer_than_table_raises:
  assumes "LanguageModel_init V E H N F L p ini = Inr lm"
    and "shape x = [B, S, E]" and "shape ids = [B, S]"
    and "2 \<le> L" and "L < S"
  shows "PositionalEncoding_forward (lm_positional_encoding lm) x = Inl RuntimeError \<and>
         (\<exists>e. LanguageModel_forward lm draws ids = Inl e)"
proof
  note lm = LanguageModel_init_Inr[OF assms(1)]
  show "PositionalEncoding_forward (lm_positional_encoding lm) x = Inl RuntimeError"
    by (rule PositionalEncoding_forward_too_long[OF lm(2) assms(2,4,5)])
  show "\<exists>e. LanguageModel_forward lm draws ids = Inl e"
    using Embedding_forward_cases[OF assms(3), of V E "init_embedding ini"]
  proof
    assume "Embedding_forward (Embedding_init V E (init_embedding ini)) ids = Inl IndexError"
    then show ?thesis by (simp add: LanguageModel_forward_def lm(1))
  next
    assume "\<exists>x. Embedding_forward (Embedding_init V E (init_embedding ini)) ids = Inr x \<and>
                shape x = [B, S, E]"
    then obtain y where y: "Embedding_forward (Embedding_init V E (init_embedding ini)) ids = Inr y"
        "shape y = [B, S, E]"
      by blast
    then show ?thesis
      using PositionalEncoding_forward_too_long[OF lm(2) y(2) assms(4,5)]
      by (simp add: LanguageModel_forward_def lm(1))
  qed
qed

lemma zero_lm_init:
  "\<exists>lm. LanguageModel_init 3 2 1 1 1 2 (1 / 10) zero_lm = Inr lm"
  by (simp add: LanguageModel_init_def PositionalEncoding_init_even zero_lm_def zero_block_def
      TransformerBlock_L5_init_def MultiHeadAttention_L5_init_def nn_MultiheadAttention_init_def
      MultiHeadAttention_init_def Dropout_init_def)

theorem sequence_longer_than_table_raises_witness:
  "\<exists>lm e. LanguageModel_init 3 2 1 1 1 2 (1 / 10) zero_lm = Inr lm \<and>
     shape (ones3 1 3 2) = [1, 3, 2] \<and> shape (token_ids 1 3 [0, 1, 2]) = [1, 3] \<and>
     (2::nat) \<le> 2 \<and> (2::nat) < 3 \<and>
     PositionalEncoding_forward (lm_positional_encoding lm) (ones3 1 3 2) = Inl RuntimeError \<and>
     LanguageModel_forward lm inference (token_ids 1 3 [0, 1, 2]) = Inl e"
proof -
  obtain lm where lm: "LanguageModel_init 3 2 1 1 1 2 (1 / 10) zero_lm = Inr lm"
    using zero_lm_init by blast
  have s: "shape (ones3 1 3 2) = [1, 3, 2]" "shape (token_ids 1 3 [0, 1, 2]) = [1, 3]"
    by (simp_all add: ones3_def token_ids_def)
  show ?thesis
    using sequence_longer_than_table_raises[OF lm s, of inference] lm s by auto
qed

text \<open>
  C6 as stated fails for a table of one row: a sequence of length 2 against
  \<open>max_seq_length = 1\<close> raises nothing. The slice clamps to the one row and the
  addition broadcasts it, so every position receives the encoding of position 0, and
  the forward pass of a model built with \<open>max_seq_length = 1\<close> returns logits.
\<close>

theorem one_row_table_accepts_longer_sequence:
  "(1::nat) < 2 \<and> \<not> isl (PositionalEncoding_init 2 1) \<and>
   PositionalEncoding_forward (projr (PositionalEncoding_init 2 1)) (lit3 1 1 1 1) =
     Inr (lit3 1 2 1 2) \<and>
   \<not> isl (LanguageModel_init 2 2 1 1 1 1 (1 / 10) leak_lm) \<and>
   \<not> isl (LanguageModel_forward (projr (LanguageModel_init 2 2 1 1 1 1 (1 / 10) leak_lm))
            inference (token_ids 1 2 [0, 0]))"
proof -
  obtain P where P: "PositionalEncoding_init 2 1 = Inr P"
    by (simp add: PositionalEncoding_init_even)
  obtain lm where lm: "LanguageModel_init 2 2 1 1 1 1 (1 / 10) leak_lm = Inr lm"
    using leak_lm_init by blast
  have "PositionalEncoding_forward (lm_positional_encoding lm) (lit3 0 0 0 0) =
        Inr (lit3 0 (0 + 1) 0 (0 + 1))"
    by (rule positional_encoding_one_row) (rule LanguageModel_init_Inr(2)[OF lm])
  then obtain y q where "LanguageModel_forward lm inference (token_ids 1 2 [0, 0]) =
      Inr (lit3 (squash (squash ((0 + (0 + 0) / 2 - (0 + 1 + (0 + 1 + (0 + 1)) / 2)) / 2))) y q (- q))"
    using leak_model_forward[OF lm leak_embedding_forward(1)] by blast
  then show ?thesis
    using positional_encoding_one_row[OF P, of 1 1 1 1] unfolding P lm by simp
qed

text \<open>
  C7. When the input holds a token ID outside \<open>[0, vocab_size)\<close>, the ID
  \<open>vocab_size\<close> itself or a negative one, the forward pass of the model raises
  IndexError: the embedding lookup, its first step, rejects the ID.
\<close>

theorem token_out_of_range_raises:
  assumes "LanguageModel_init V E H N F L p ini = Inr lm"
    and "tok \<in> set (data ids)" and "tok < 0 \<or> int V \<le> tok"
  shows "LanguageModel_forward lm draws ids = Inl IndexError"
proof -
  have "list_ex (\<lambda>i. i < 0 \<or> int V \<le> i) (data ids)"
    using assms(2,3) by (auto simp: list_ex_iff)
  then show ?thesis
    by (simp add: LanguageModel_forward_def LanguageModel_init_Inr(1)[OF assms(1)]
        Embedding_forward_def Embedding_init_def)
qed

theorem token_out_of_range_raises_witness:
  "\<exists>lm. LanguageModel_init 3 2 1 1 1 2 (1 / 10) zero_lm = Inr lm \<and>
     3 \<in> set (data (token_ids 1 2 [0, 3])) \<and> ((3::int) < 0 \<or> int 3 \<le> 3) \<and>
     LanguageModel_forward lm inference (token_ids 1 2 [0, 3]) = Inl IndexError"
proof -
  obtain lm where lm: "LanguageModel_init 3 2 1 1 1 2 (1 / 10) zero_lm = Inr lm"
    using zero_lm_init by blast
  have t: "3 \<in> set (data (token_ids 1 2 [0, 3]))" "(3::int) < 0 \<or> int 3 \<le> 3"
    by (simp_all add: token_ids_def)
  show ?thesis
    using token_out_of_range_raises[OF lm t, of inference] lm t by blast
qed

text \<open>
  C10. There is no causal mask. In a model of two tokens with one block, the inputs
  (0, 0) and (0, 1) agree at position 0 and differ at position 1 only, and the logits
  for token 0 at position 0 differ: one is at most -1/2 and the other at least 1/2.
  What the model predicts after the first token depends on the token that follows it.
\<close>

theorem logits_depend_on_later_token:
  "\<exists>lm la lb.
     LanguageModel_init 2 2 1 1 1 2 (1 / 10) leak_lm = Inr lm \<and>
     tget (token_ids 1 2 [0, 0]) [0, 0] = tget (token_ids 1 2 [0, 1]) [0, 0] \<and>
     tget (token_ids 1 2 [0, 0]) [0, 1] \<noteq> tget (token_ids 1 2 [0, 1]) [0, 1] \<and>
     LanguageModel_forward lm inference (token_ids 1 2 [0, 0]) = Inr la \<and>
     LanguageModel_forward lm inference (token_ids 1 2 [0, 1]) = Inr lb \<and>
     tget la [0, 0, 0] \<le> - (1 / 2) \<and> 1 / 2 \<le> tget lb [0, 0, 0] \<and>
     tget la [0, 0, 0] \<noteq> tget lb [0, 0, 0]"
proof -
  obtain lm where lm: "LanguageModel_init 2 2 1 1 1 2 (1 / 10) leak_lm = Inr lm"
    using leak_lm_init by blast
  note pos = positional_encoding_lit3[OF LanguageModel_init_Inr(2)[OF lm]]
  let ?da = "(0 + (0 + (0 + sin 1)) / 2 - (0 + 1 + (0 + 1 + (0 + cos 1)) / 2)) / 2 :: real"
  let ?db = "(0 + (0 + (10 + sin 1)) / 2 - (0 + 1 + (0 + 1 + (0 + cos 1)) / 2)) / 2 :: real"
  obtain ya qa where la: "LanguageModel_forward lm inference (token_ids 1 2 [0, 0]) =
      Inr (lit3 (squash (squash ?da)) ya qa (- qa))"
    using leak_model_forward[OF lm leak_embedding_forward(1) pos] by blast
  obtain yb qb where lb: "LanguageModel_forward lm inference (token_ids 1 2 [0, 1]) =
      Inr (lit3 (squash (squash ?db)) yb qb (- qb))"
    using leak_model_forward[OF lm leak_embedding_forward(2) pos] by blast
  have s: "sin (1::real) \<le> 1" "- 1 \<le> sin (1::real)" and c: "cos (1::real) \<le> 1" "- 1 \<le> cos (1::real)"
    by simp_all
  have "?da \<le> - (1 / 100)"
    using s(1) c(2) by argo
  then have a: "squash (squash ?da) \<le> - (1 / 2)"
    by (rule squash_twice_neg)
  have "1 / 100 \<le> ?db"
    using s(2) c(1) by argo
  then have b: "1 / 2 \<le> squash (squash ?db)"
    by (rule squash_twice_pos)
  have "tget (lit3 (squash (squash ?da)) ya qa (- qa)) [0, 0, 0] = squash (squash ?da)"
    "tget (lit3 (squash (squash ?db)) yb qb (- qb)) [0, 0, 0] = squash (squash ?db)"
    by (simp_all add: tget_def lit3_def)
  with a b have "tget (lit3 (squash (squash ?da)) ya qa (- qa)) [0, 0, 0] \<le> - (1 / 2)"
    "1 / 2 \<le> tget (lit3 (squash (squash ?db)) yb qb (- qb)) [0, 0, 0]"
    "tget (lit3 (squash (squash ?da)) ya qa (- qa)) [0, 0, 0] \<noteq>
     tget (lit3 (squash (squash ?db)) yb qb (- qb)) [0, 0, 0]"
    by simp_all
  moreover have "tget (token_ids 1 2 [0, 0]) [0, 0] = tget (token_ids 1 2 [0, 1]) [0, 0]"
    "tget (token_ids 1 2 [0, 0]) [0, 1] \<noteq> tget (token_ids 1 2 [0, 1]) [0, 1]"
    by (simp_all add: tget_def token_ids_def)
  ultimately show ?thesis
    using lm la lb by blast
qed

end
